(* ===== verification/Prelude.thy ===== *)
theory Prelude
  imports Main "HOL-Library.Option_ord" "HOL-Library.Product_Lexorder" "HOL-Library.Sublist"
    "HOL-Library.Multiset"
begin

text \<open>
  Shared vocabulary of the development: the Python built-ins the forum code relies on,
  written as HOL functions with the semantics CPython gives them.
  \<^item> \<open>pydict\<close>: a Python \<open>dict\<close> as an association list in insertion order
    (\<open>d[k] = v\<close> replaces in place or appends; \<open>d.get(k)\<close> is \<open>dict_get\<close>;
    \<open>d.values()\<close> keeps the order), because listing order and ties depend on it;
  \<^item> \<open>py_slice\<close>: \<open>xs[a:b]\<close> with Python's treatment of negative and
    out-of-range bounds;
  \<^item> \<open>py_sort_desc\<close>: \<open>list.sort(key=f, reverse=True)\<close>, which CPython implements
    as reverse, stable sort, reverse;
  \<^item> \<open>py_lower\<close>, \<open>py_in_str\<close>: \<open>str.lower\<close> (on ASCII letters) and the substring
    test \<open>q in s\<close>;
  \<^item> \<open>scalar\<close>, \<open>py_str\<close>: the values a stored identity may hold and \<open>str()\<close> of them;
  \<^item> \<open>datetime\<close>: a timestamp with an optional UTC offset (\<open>None\<close> is a naive one).
  The collection \<open>pydict_simps\<close> gathers the dictionary lemmas the component proofs use.
\<close>

named_theorems pydict_simps "lemmas on Python dictionaries used by the component proofs"

type_synonym user_id = string

subsection \<open>Dictionaries in insertion order\<close>

type_synonym ('k, 'v) pydict = "('k \<times> 'v) list"

definition dict_get :: "('k, 'v) pydict \<Rightarrow> 'k \<Rightarrow> 'v option" where
  "dict_get d k = map_of d k"

fun dict_set :: "('k, 'v) pydict \<Rightarrow> 'k \<Rightarrow> 'v \<Rightarrow> ('k, 'v) pydict" where
  "dict_set [] k v = [(k, v)]"
| "dict_set ((k', v') # d) k v =
     (if k' = k then (k, v) # d else (k', v') # dict_set d k v)"

definition dict_keys :: "('k, 'v) pydict \<Rightarrow> 'k list" where
  "dict_keys d = map fst d"

definition dict_values :: "('k, 'v) pydict \<Rightarrow> 'v list" where
  "dict_values d = map snd d"

definition dict_wf :: "('k, 'v) pydict \<Rightarrow> bool" where
  "dict_wf d \<longleftrightarrow> distinct (dict_keys d)"

subsection \<open>Lists\<close>

text \<open>Python's \<open>xs[a:b]\<close>: a negative bound counts from the end, bounds are clamped.\<close>

definition py_index :: "nat \<Rightarrow> int \<Rightarrow> nat" where
  "py_index n i = nat (if i < 0 then max 0 (int n + i) else min i (int n))"

definition py_slice :: "'a list \<Rightarrow> int \<Rightarrow> int \<Rightarrow> 'a list" where
  "py_slice xs a b =
     (let s = py_index (length xs) a; e = py_index (length xs) b
      in take (e - s) (drop s xs))"

text \<open>\<open>xs.sort(key=f, reverse=True)\<close>: CPython reverses, sorts stably, reverses again.\<close>

definition py_sort_desc :: "('a \<Rightarrow> 'k::linorder) \<Rightarrow> 'a list \<Rightarrow> 'a list" where
  "py_sort_desc f xs = rev (sort_key f (rev xs))"

text \<open>\<open>if x not in xs: xs.append(x)\<close>, the guarded append every relation list uses.\<close>

definition append_new :: "'a \<Rightarrow> 'a list \<Rightarrow> 'a list" where
  "append_new x xs = (if x \<in> set xs then xs else xs @ [x])"

subsection \<open>Strings\<close>

definition lower_char :: "char \<Rightarrow> char" where
  "lower_char c =
     (let n = (of_char c :: nat) in if 65 \<le> n \<and> n \<le> 90 then char_of (n + 32) else c)"

definition py_lower :: "string \<Rightarrow> string" where
  "py_lower s = map lower_char s"

definition py_in_str :: "string \<Rightarrow> string \<Rightarrow> bool" where
  "py_in_str q s \<longleftrightarrow> sublist q s"

text \<open>\<open>d.get(key, default)\<close> on a document field that may be absent.\<close>

definition py_get :: "'a option \<Rightarrow> 'a \<Rightarrow> 'a" where
  "py_get x dflt = (case x of None \<Rightarrow> dflt | Some v \<Rightarrow> v)"

text \<open>\<open>x or y\<close> on an optional string: \<open>None\<close> and the empty string are falsy.\<close>

definition py_or_str :: "string option \<Rightarrow> string \<Rightarrow> string" where
  "py_or_str x y = (case x of Some s \<Rightarrow> (if s = [] then y else s) | None \<Rightarrow> y)"

fun show_nat :: "nat \<Rightarrow> string" where
  "show_nat n = (if n < 10 then [char_of (48 + n)] else show_nat (n div 10) @ [char_of (48 + n mod 10)])"

declare show_nat.simps [simp del]

definition show_int :: "int \<Rightarrow> string" where
  "show_int i = (if i < 0 then CHR ''-'' # show_nat (nat (- i)) else show_nat (nat i))"

text \<open>A stored identity: a string (an openid), a legacy integer id, or \<open>null\<close>.\<close>

datatype scalar = SInt int | SStr string | SNone

fun py_str :: "scalar \<Rightarrow> string" where
  "py_str (SInt i) = show_int i"
| "py_str (SStr s) = s"
| "py_str SNone = ''None''"

subsection \<open>Timestamps\<close>

text \<open>
  \<open>DateTime w tz\<close>: wall-clock ticks \<open>w\<close> and the UTC offset \<open>tz\<close> in the same unit,
  \<open>None\<close> for a naive value. Aware values compare by the instant \<open>w - offset\<close>.
\<close>

datatype datetime = DateTime (dt_wall: int) (dt_tz: "int option")

definition dt_instant :: "datetime \<Rightarrow> int" where
  "dt_instant d = dt_wall d - (case dt_tz d of None \<Rightarrow> 0 | Some o' \<Rightarrow> o')"

definition utc_now :: "int \<Rightarrow> datetime" where
  "utc_now t = DateTime t (Some 0)"

definition is_aware :: "datetime option \<Rightarrow> bool" where
  "is_aware d \<longleftrightarrow> (case d of Some x \<Rightarrow> dt_tz x \<noteq> None | None \<Rightarrow> False)"

subsection \<open>Lemmas on dictionaries\<close>

lemma dict_get_set [pydict_simps]:
  "dict_get (dict_set d k v) k' = (if k' = k then Some v else dict_get d k')"
  by (induction d) (auto simp: dict_get_def)

lemma dict_keys_set [pydict_simps]:
  "set (dict_keys (dict_set d k v)) = insert k (set (dict_keys d))"
  by (induction d k v rule: dict_set.induct) (auto simp: dict_keys_def)

lemma dict_wf_set [pydict_simps]: "dict_wf d \<Longrightarrow> dict_wf (dict_set d k v)"
proof (induction d)
  case Nil
  then show ?case by (simp add: dict_wf_def dict_keys_def)
next
  case (Cons p d)
  have "k \<notin> set (dict_keys d) \<Longrightarrow> k \<notin> set (dict_keys (dict_set d k' v'))" if "k \<noteq> k'" for k k' v'
    using that by (simp add: dict_keys_set)
  with Cons show ?case
    by (cases p) (auto simp: dict_wf_def dict_keys_def dict_keys_set [unfolded dict_keys_def])
qed

lemma dict_get_None_iff [pydict_simps]: "dict_get d k = None \<longleftrightarrow> k \<notin> set (dict_keys d)"
  by (simp add: dict_get_def dict_keys_def map_of_eq_None_iff)

lemma dict_get_Some_in [pydict_simps]: "dict_get d k = Some v \<Longrightarrow> v \<in> set (dict_values d)"
  by (induction d) (auto simp: dict_get_def dict_values_def split: if_splits)

lemma dict_set_values_new:
  "k \<notin> set (dict_keys d) \<Longrightarrow> dict_values (dict_set d k v) = dict_values d @ [v]"
  by (induction d) (auto simp: dict_keys_def dict_values_def)

lemma dict_set_keys_new:
  "k \<notin> set (dict_keys d) \<Longrightarrow> dict_keys (dict_set d k v) = dict_keys d @ [k]"
  by (induction d) (auto simp: dict_keys_def)

lemma dict_set_fresh: "k \<notin> set (dict_keys d) \<Longrightarrow> dict_set d k v = d @ [(k, v)]"
  by (induction d) (auto simp: dict_keys_def)

lemma dict_set_keys_old:
  "k \<in> set (dict_keys d) \<Longrightarrow> dict_keys (dict_set d k v) = dict_keys d"
  by (induction d k v rule: dict_set.induct) (auto simp: dict_keys_def)

lemma dict_set_values_old:
  "dict_wf d \<Longrightarrow> dict_get d k = Some v0 \<Longrightarrow>
   dict_values (dict_set d k v) = map (\<lambda>(k', x). if k' = k then v else x) d"
proof (induction d)
  case Nil
  then show ?case by (simp add: dict_get_def)
next
  case (Cons p d)
  obtain k1 x1 where p: "p = (k1, x1)" by (cases p)
  show ?case
  proof (cases "k1 = k")
    case True
    with Cons.prems p have "k \<notin> set (map fst d)"
      by (simp add: dict_wf_def dict_keys_def)
    then have "map (\<lambda>(k', x). if k' = k then v else x) d = map snd d"
      by (induction d) auto
    with True p show ?thesis by (simp add: dict_values_def)
  next
    case False
    with Cons.prems p have "dict_wf d" and "dict_get d k = Some v0"
      by (auto simp: dict_wf_def dict_keys_def dict_get_def)
    with Cons.IH False p show ?thesis by (simp add: dict_values_def)
  qed
qed

lemma dict_values_set_elem:
  "x \<in> set (dict_values (dict_set d k v)) \<Longrightarrow> x = v \<or> x \<in> set (dict_values d)"
  by (induction d k v rule: dict_set.induct) (auto simp: dict_values_def split: if_splits)

lemma dict_get_in_keys: "dict_get d k = Some v \<Longrightarrow> (k, v) \<in> set d"
  by (simp add: dict_get_def map_of_SomeD)

lemma dict_wf_get: "dict_wf d \<Longrightarrow> (k, v) \<in> set d \<Longrightarrow> dict_get d k = Some v"
  by (simp add: dict_wf_def dict_keys_def dict_get_def)

lemma dict_set_mem:
  "(k', v') \<in> set (dict_set d k v) \<Longrightarrow> (k', v') = (k, v) \<or> (k', v') \<in> set d"
  by (induction d k v rule: dict_set.induct) (auto split: if_splits)

lemma dict_set_all [pydict_simps]:
  "\<forall>(k', v') \<in> set d. P k' v' \<Longrightarrow> P k v \<Longrightarrow> \<forall>(k', v') \<in> set (dict_set d k v). P k' v'"
  by (auto dest: dict_set_mem)

lemma dict_length_set:
  "length (dict_set d k v) = (if k \<in> set (dict_keys d) then length d else Suc (length d))"
  by (induction d k v rule: dict_set.induct) (auto simp: dict_keys_def)

subsection \<open>Lemmas on lists\<close>

text \<open>The count kept beside a list drops by one, clamped at 0, when a member is removed.\<close>

lemma length_remove1_member:
  "u \<in> set xs \<Longrightarrow> int (length (remove1 u xs)) = max 0 (int (length xs) - 1)"
proof -
  assume u: "u \<in> set xs"
  then have "0 < length xs" by (cases xs) auto
  with u show ?thesis by (simp add: length_remove1 of_nat_diff Suc_le_eq)
qed

lemma set_append_new [simp]: "set (append_new x xs) = insert x (set xs)"
  by (auto simp: append_new_def)

lemma distinct_append_new [simp]: "distinct (append_new x xs) = distinct xs"
  by (simp add: append_new_def)

lemma append_new_member: "x \<in> set xs \<Longrightarrow> append_new x xs = xs"
  by (simp add: append_new_def)

lemmas dict_defs = dict_get_def dict_keys_def dict_values_def dict_wf_def

subsection \<open>Lemmas on sorting and slicing\<close>

lemma mset_py_sort_desc: "mset (py_sort_desc f xs) = mset xs"
  by (simp add: py_sort_desc_def)

lemma set_py_sort_desc [simp]: "set (py_sort_desc f xs) = set xs"
  by (simp add: py_sort_desc_def)

lemma length_py_sort_desc [simp]: "length (py_sort_desc f xs) = length xs"
  by (simp add: py_sort_desc_def)

lemma py_sort_desc_sorted: "sorted_wrt (\<ge>) (map f (py_sort_desc f xs))"
proof -
  have "sorted (map f (sort_key f (rev xs)))" by simp
  then show ?thesis by (simp add: py_sort_desc_def rev_map [symmetric] sorted_wrt_rev)
qed

lemma py_sort_desc_stable:
  "filter (\<lambda>y. f y = k) (py_sort_desc f xs) = filter (\<lambda>y. f y = k) xs"
proof -
  have "filter (\<lambda>y. f y = k) (rev (sort_key f (rev xs))) = rev (filter (\<lambda>y. f y = k) (sort_key f (rev xs)))"
    by (rule rev_filter [symmetric])
  also have "\<dots> = rev (filter (\<lambda>y. f y = k) (rev xs))"
    by (simp only: sort_key_stable)
  finally show ?thesis by (simp add: py_sort_desc_def rev_filter [symmetric])
qed

lemma py_slice_length: "0 \<le> a \<Longrightarrow> a \<le> b \<Longrightarrow> length (py_slice xs a b) = min (nat (b - a)) (length xs - nat a)"
  by (simp add: py_slice_def py_index_def Let_def min_def) linarith

lemma py_slice_nonneg:
  "0 \<le> a \<Longrightarrow> a \<le> b \<Longrightarrow> py_slice xs a b = take (nat (b - a)) (drop (nat a) xs)"
  unfolding py_slice_def py_index_def Let_def
  by (cases "b \<le> int (length xs)"; cases "a \<le> int (length xs)") (auto simp: min_def nat_diff_distrib)

lemma set_py_slice: "set (py_slice xs a b) \<subseteq> set xs"
  by (auto simp: py_slice_def Let_def dest: in_set_takeD in_set_dropD)

end
