(* ===== verification/Sequencer.thy ===== *)
theory Sequencer
  imports Prelude
begin

text \<open>
  The identifier sequencer: the class attributes \<open>_post_counter\<close> / \<open>_initialized\<close>
  of \<open>Post\<close> (src/app/objects/Post.py) and \<open>_comment_counter\<close> / \<open>_initialized\<close>
  of \<open>Comment\<close> (src/app/objects/Comment.py), which run the same code. Seeding reads the
  largest stored key; the storage query is passed in as its result (\<open>None\<close>: the query
  raised; \<open>Some None\<close>: the collection is empty; \<open>Some (Some m)\<close>: the largest key is
  \<open>m\<close>), so that the storage model and the sequencer meet at that value only.
  Drawing an identifier is the first statement of each constructor; absorbing a loaded
  identifier is the \<open>max\<close> of the hydration loop.
\<close>

record seq =
  counter :: int
  initialized :: bool

definition seq_init :: seq where
  "seq_init = \<lparr>counter = 0, initialized = False\<rparr>"

datatype seq_error = CounterNotInitialized

definition initialize_counter :: "int \<Rightarrow> int option option \<Rightarrow> seq \<Rightarrow> seq" where
  "initialize_counter now_ms q s =
     (if initialized s then s
      else (case q of
              None \<Rightarrow> \<lparr>counter = now_ms, initialized = True\<rparr>
            | Some None \<Rightarrow> \<lparr>counter = 0, initialized = True\<rparr>
            | Some (Some m) \<Rightarrow> \<lparr>counter = m, initialized = True\<rparr>))"

text \<open>\<open>Comment.initialize_counter\<close> repeats the code of \<open>Post.initialize_counter\<close> for the
  comments collection and the class attributes of \<open>Comment\<close>.\<close>

definition Comment_initialize_counter :: "int \<Rightarrow> int option option \<Rightarrow> seq \<Rightarrow> seq" where
  "Comment_initialize_counter now_ms q s =
     (if initialized s then s
      else (case q of
              None \<Rightarrow> \<lparr>counter = now_ms, initialized = True\<rparr>
            | Some None \<Rightarrow> \<lparr>counter = 0, initialized = True\<rparr>
            | Some (Some m) \<Rightarrow> \<lparr>counter = m, initialized = True\<rparr>))"

definition next_id :: "seq \<Rightarrow> seq_error + (int \<times> seq)" where
  "next_id s =
     (if \<not> initialized s then Inl CounterNotInitialized
      else Inr (counter s + 1, s\<lparr>counter := counter s + 1\<rparr>))"

definition advance_to :: "int \<Rightarrow> seq \<Rightarrow> seq" where
  "advance_to n s = s\<lparr>counter := max (counter s) n\<rparr>"

text \<open>
  The order in which a sequencer may evolve: once seeded it stays seeded and its counter
  never goes down.
\<close>

definition seq_le :: "seq \<Rightarrow> seq \<Rightarrow> bool" where
  "seq_le s s' \<longleftrightarrow> (initialized s \<longrightarrow> initialized s' \<and> counter s \<le> counter s')"

subsection \<open>Lemmas\<close>

lemma Comment_initialize_counter_eq [simp]: "Comment_initialize_counter = initialize_counter"
  by (intro ext) (simp add: Comment_initialize_counter_def initialize_counter_def)

lemma next_id_Inr_iff:
  "next_id s = Inr (i, s') \<longleftrightarrow>
     initialized s \<and> i = counter s + 1 \<and> s' = s\<lparr>counter := counter s + 1\<rparr>"
  by (auto simp: next_id_def)

lemma next_id_Inl_iff: "next_id s = Inl e \<longleftrightarrow> \<not> initialized s \<and> e = CounterNotInitialized"
  by (auto simp: next_id_def)

lemma next_id_fresh:
  "next_id s = Inr (i, s') \<Longrightarrow> counter s < i \<and> counter s' = i \<and> initialized s'"
  by (auto simp: next_id_Inr_iff)

lemma initialize_counter_initialized [simp]: "initialized (initialize_counter t q s)"
  by (simp add: initialize_counter_def split: option.split)

lemma initialize_counter_idem: "initialized s \<Longrightarrow> initialize_counter t q s = s"
  by (simp add: initialize_counter_def)

lemma initialize_counter_seeded:
  "\<not> initialized s \<Longrightarrow> initialize_counter t (Some (Some m)) s = \<lparr>counter = m, initialized = True\<rparr>"
  by (simp add: initialize_counter_def)

lemma advance_to_ge: "n \<le> counter (advance_to n s) \<and> counter s \<le> counter (advance_to n s)"
  by (simp add: advance_to_def)

lemma initialized_advance_to [simp]: "initialized (advance_to n s) = initialized s"
  by (simp add: advance_to_def)

lemma seq_le_refl [simp]: "seq_le s s"
  by (simp add: seq_le_def)

lemma seq_le_trans: "seq_le a b \<Longrightarrow> seq_le b c \<Longrightarrow> seq_le a c"
  by (auto simp: seq_le_def)

lemma seq_le_initialize_counter: "seq_le s (initialize_counter t q s)"
  by (simp add: seq_le_def initialize_counter_def)

lemma seq_le_next_id: "next_id s = Inr (i, s') \<Longrightarrow> seq_le s s'"
  by (auto simp: seq_le_def next_id_Inr_iff)

lemma seq_le_advance_to: "seq_le s (advance_to n s)"
  by (simp add: seq_le_def advance_to_def)

lemmas seq_le_steps [intro] = seq_le_initialize_counter seq_le_advance_to seq_le_refl

end
