(* ===== verification/Post.thy ===== *)
theory Post
  imports Sequencer
begin

text \<open>
  The post entity of src/app/objects/Post.py: its in-memory fields (\<open>post\<close>), the
  constructor \<open>Post.__init__\<close> (\<open>Post_init\<close>, which draws the next identifier from the
  post sequencer and fails when it is not seeded), the document \<open>to_dict\<close> produces
  (\<open>post_doc\<close>, one optional field per key, \<open>None\<close> for a key the stored document
  lacks), and the in-memory part of the like and comment mutators. The invariant
  \<open>post_inv\<close> is the count/set parity of the specification.
\<close>

record media_file =
  file_type :: string
  file_url :: string
  thumbnail_url :: "string option"

record post =
  post_id :: int
  post_content :: string
  post_type :: string
  creator_user_id :: user_id
  creator_user_name :: string
  media_files :: "media_file list"
  post_category :: string
  tags :: "string list"
  like_count :: int
  comment_count :: int
  view_count :: int
  liked_user_ids :: "user_id list"
  comment_ids :: "int list"
  post_status :: string
  created_at :: "datetime option"
  updated_at :: "datetime option"

text \<open>The document written to the \<open>posts\<close> collection; its key \<open>_id\<close> is the collection's key.\<close>

record post_doc =
  pd_post_content :: "string option"
  pd_post_type :: "string option"
  pd_creator_user_id :: "scalar option"
  pd_creator_user_name :: "string option"
  pd_media_files :: "media_file list option"
  pd_like_count :: "int option"
  pd_comment_count :: "int option"
  pd_view_count :: "int option"
  pd_liked_user_ids :: "scalar list option"
  pd_comment_ids :: "int list option"
  pd_post_category :: "string option"
  pd_tags :: "string list option"
  pd_post_status :: "string option"
  pd_created_at :: "datetime option"
  pd_updated_at :: "datetime option"

text \<open>
  \<open>Post.__init__\<close>: the sequencer check and increment, then the fields; tags are
  \<open>(tags or [])[:3]\<close>, media \<open>media_files or []\<close>, the clock reading \<open>now\<close> gives
  \<open>datetime.now(timezone.utc)\<close>.
\<close>

definition Post_init ::
  "seq \<Rightarrow> int \<Rightarrow> user_id \<Rightarrow> string \<Rightarrow> string \<Rightarrow> string \<Rightarrow> string \<Rightarrow>
   string list option \<Rightarrow> media_file list option \<Rightarrow> seq_error + (post \<times> seq)" where
  "Post_init s now creator name content ptype category tgs media =
     (case next_id s of
        Inl e \<Rightarrow> Inl e
      | Inr (pid, s') \<Rightarrow>
          Inr (\<lparr>post_id = pid, post_content = content, post_type = ptype,
                creator_user_id = creator, creator_user_name = name,
                media_files = (case media of None \<Rightarrow> [] | Some m \<Rightarrow> m),
                post_category = category,
                tags = take 3 (case tgs of None \<Rightarrow> [] | Some t \<Rightarrow> t),
                like_count = 0, comment_count = 0, view_count = 0,
                liked_user_ids = [], comment_ids = [],
                post_status = ''published'',
                created_at = Some (utc_now now), updated_at = Some (utc_now now)\<rparr>, s'))"

definition post_to_dict :: "post \<Rightarrow> int \<times> post_doc" where
  "post_to_dict p =
     (post_id p,
      \<lparr>pd_post_content = Some (post_content p), pd_post_type = Some (post_type p),
       pd_creator_user_id = Some (SStr (creator_user_id p)),
       pd_creator_user_name = Some (creator_user_name p),
       pd_media_files = Some (media_files p),
       pd_like_count = Some (like_count p), pd_comment_count = Some (comment_count p),
       pd_view_count = Some (view_count p),
       pd_liked_user_ids = Some (map SStr (liked_user_ids p)),
       pd_comment_ids = Some (comment_ids p),
       pd_post_category = Some (post_category p), pd_tags = Some (tags p),
       pd_post_status = Some (post_status p),
       pd_created_at = created_at p, pd_updated_at = updated_at p\<rparr>)"

text \<open>
  The in-memory effect of \<open>add_like\<close>, \<open>remove_like\<close> and \<open>add_comment\<close> (the
  persistence each performs afterwards is modelled with the storage). \<open>list.remove\<close>
  deletes the first occurrence, which is \<open>remove1\<close>.
\<close>

definition post_like :: "int \<Rightarrow> user_id \<Rightarrow> post \<Rightarrow> post" where
  "post_like now u p =
     (if u \<notin> set (liked_user_ids p)
      then p\<lparr>liked_user_ids := liked_user_ids p @ [u], like_count := like_count p + 1,
             updated_at := Some (utc_now now)\<rparr>
      else p)"

definition post_unlike :: "int \<Rightarrow> user_id \<Rightarrow> post \<Rightarrow> post" where
  "post_unlike now u p =
     (if u \<in> set (liked_user_ids p)
      then p\<lparr>liked_user_ids := remove1 u (liked_user_ids p),
             like_count := max 0 (like_count p - 1), updated_at := Some (utc_now now)\<rparr>
      else p)"

definition post_add_comment :: "int \<Rightarrow> int \<Rightarrow> post \<Rightarrow> post" where
  "post_add_comment now cid p =
     (if cid \<notin> set (comment_ids p)
      then p\<lparr>comment_ids := comment_ids p @ [cid], comment_count := comment_count p + 1,
             updated_at := Some (utc_now now)\<rparr>
      else p)"

definition post_inv :: "post \<Rightarrow> bool" where
  "post_inv p \<longleftrightarrow>
     distinct (liked_user_ids p) \<and> like_count p = int (length (liked_user_ids p)) \<and>
     comment_count p = int (length (comment_ids p))"

subsection \<open>Lemmas\<close>

lemma Post_init_Inr:
  "Post_init s now c n ct ty cat tg m = Inr (p, s') \<Longrightarrow>
     post_id p = counter s + 1 \<and> s' = s\<lparr>counter := counter s + 1\<rparr> \<and> initialized s"
  by (auto simp: Post_init_def next_id_Inr_iff split: sum.splits)

lemma Post_init_Inl: "(\<exists>e. Post_init s now c n ct ty cat tg m = Inl e) \<longleftrightarrow> \<not> initialized s"
  by (auto simp: Post_init_def next_id_def)

lemma Post_init_inv:
  "Post_init s now c n ct ty cat tg m = Inr (p, s') \<Longrightarrow> post_inv p \<and> length (tags p) \<le> 3"
  by (auto simp: Post_init_def post_inv_def split: sum.splits prod.splits)

lemma post_like_inv: "post_inv p \<Longrightarrow> post_inv (post_like now u p)"
  by (simp add: post_like_def post_inv_def)

lemma post_unlike_inv: "post_inv p \<Longrightarrow> post_inv (post_unlike now u p)"
  by (auto simp: post_unlike_def post_inv_def length_remove1_member)

lemma post_like_liked: "set (liked_user_ids (post_like now u p)) = insert u (set (liked_user_ids p))"
  by (auto simp: post_like_def)

lemma post_unlike_liked:
  "distinct (liked_user_ids p) \<Longrightarrow>
   set (liked_user_ids (post_unlike now u p)) = set (liked_user_ids p) - {u}"
  by (auto simp: post_unlike_def)

lemma post_like_frame [simp]:
  "post_id (post_like now u p) = post_id p"
  "comment_ids (post_like now u p) = comment_ids p"
  "comment_count (post_like now u p) = comment_count p"
  "post_status (post_like now u p) = post_status p"
  "creator_user_id (post_like now u p) = creator_user_id p"
  "tags (post_like now u p) = tags p"
  "created_at (post_like now u p) = created_at p"
  by (simp_all add: post_like_def)

lemma post_unlike_frame [simp]:
  "post_id (post_unlike now u p) = post_id p"
  "comment_ids (post_unlike now u p) = comment_ids p"
  "comment_count (post_unlike now u p) = comment_count p"
  "post_status (post_unlike now u p) = post_status p"
  "creator_user_id (post_unlike now u p) = creator_user_id p"
  "tags (post_unlike now u p) = tags p"
  "created_at (post_unlike now u p) = created_at p"
  by (simp_all add: post_unlike_def)

end
