(* ===== verification/Comment.thy ===== *)
theory Comment
  imports Post
begin

text \<open>
  The comment entity of src/app/objects/Comment.py: fields, constructor (drawing from the
  comment sequencer), \<open>to_dict\<close> document and the in-memory like mutators. The fields
  \<open>post_id\<close>, \<open>like_count\<close>, \<open>liked_user_ids\<close> and \<open>created_at\<close> share their names
  with the post's and are written \<open>comment.like_count\<close> and so on. A comment's
  \<open>post_id\<close> is optional: a stored comment lacking it is loaded with \<open>None\<close>.
\<close>

record comment =
  comment_id :: int
  post_id :: "int option"
  comment_content :: string
  commenter_user_id :: user_id
  commenter_user_name :: string
  like_count :: int
  liked_user_ids :: "user_id list"
  comment_status :: string
  created_at :: "datetime option"

record comment_doc =
  cd_post_id :: "int option"
  cd_comment_content :: "string option"
  cd_commenter_user_id :: "scalar option"
  cd_commenter_user_name :: "string option"
  cd_like_count :: "int option"
  cd_liked_user_ids :: "scalar list option"
  cd_comment_status :: "string option"
  cd_created_at :: "datetime option"

definition Comment_init ::
  "seq \<Rightarrow> int \<Rightarrow> user_id \<Rightarrow> string \<Rightarrow> int option \<Rightarrow> string \<Rightarrow> seq_error + (comment \<times> seq)" where
  "Comment_init s now commenter name pid content =
     (case next_id s of
        Inl e \<Rightarrow> Inl e
      | Inr (cid, s') \<Rightarrow>
          Inr (\<lparr>comment_id = cid, comment.post_id = pid, comment_content = content,
                commenter_user_id = commenter, commenter_user_name = name,
                comment.like_count = 0, comment.liked_user_ids = [],
                comment_status = ''published'', comment.created_at = Some (utc_now now)\<rparr>, s'))"

definition comment_to_dict :: "comment \<Rightarrow> int \<times> comment_doc" where
  "comment_to_dict c =
     (comment_id c,
      \<lparr>cd_post_id = comment.post_id c, cd_comment_content = Some (comment_content c),
       cd_commenter_user_id = Some (SStr (commenter_user_id c)),
       cd_commenter_user_name = Some (commenter_user_name c),
       cd_like_count = Some (comment.like_count c),
       cd_liked_user_ids = Some (map SStr (comment.liked_user_ids c)),
       cd_comment_status = Some (comment_status c), cd_created_at = comment.created_at c\<rparr>)"

definition comment_like :: "user_id \<Rightarrow> comment \<Rightarrow> comment" where
  "comment_like u c =
     (if u \<notin> set (comment.liked_user_ids c)
      then c\<lparr>comment.liked_user_ids := comment.liked_user_ids c @ [u],
             comment.like_count := comment.like_count c + 1\<rparr>
      else c)"

definition comment_unlike :: "user_id \<Rightarrow> comment \<Rightarrow> comment" where
  "comment_unlike u c =
     (if u \<in> set (comment.liked_user_ids c)
      then c\<lparr>comment.liked_user_ids := remove1 u (comment.liked_user_ids c),
             comment.like_count := max 0 (comment.like_count c - 1)\<rparr>
      else c)"

definition comment_inv :: "comment \<Rightarrow> bool" where
  "comment_inv c \<longleftrightarrow>
     distinct (comment.liked_user_ids c) \<and>
     comment.like_count c = int (length (comment.liked_user_ids c))"

subsection \<open>Lemmas\<close>

lemma Comment_init_Inr:
  "Comment_init s now u n pid ct = Inr (c, s') \<Longrightarrow>
     comment_id c = counter s + 1 \<and> s' = s\<lparr>counter := counter s + 1\<rparr> \<and> initialized s \<and>
     comment.post_id c = pid \<and> comment_inv c"
  by (auto simp: Comment_init_def next_id_Inr_iff comment_inv_def split: sum.splits)

lemma comment_like_inv: "comment_inv c \<Longrightarrow> comment_inv (comment_like u c)"
  by (simp add: comment_like_def comment_inv_def)

lemma comment_unlike_inv: "comment_inv c \<Longrightarrow> comment_inv (comment_unlike u c)"
  by (auto simp: comment_unlike_def comment_inv_def length_remove1_member)

lemma comment_like_frame [simp]:
  "comment_id (comment_like u c) = comment_id c"
  "comment.post_id (comment_like u c) = comment.post_id c"
  "comment_status (comment_like u c) = comment_status c"
  "comment.created_at (comment_like u c) = comment.created_at c"
  by (simp_all add: comment_like_def)

lemma comment_unlike_frame [simp]:
  "comment_id (comment_unlike u c) = comment_id c"
  "comment.post_id (comment_unlike u c) = comment.post_id c"
  "comment_status (comment_unlike u c) = comment_status c"
  "comment.created_at (comment_unlike u c) = comment.created_at c"
  by (simp_all add: comment_unlike_def)

end
