(* ===== verification/User.thy ===== *)
theory User
  imports Prelude
begin

text \<open>
  The user object of src/app/objects/User.py: the profile fields, the social relations
  and the two forum relations (\<open>post_ids\<close>, the posts the user wrote, and
  \<open>liked_post_ids\<close>, the posts the user liked), with the guarded append and the
  remove-if-present of each method. The user registry that holds these objects
  (\<open>UserManagement\<close>) is not part of the repository; it is modelled in \<open>Forum_State\<close>
  as a map from identity to user.
\<close>

record user =
  user_id :: user_id
  telegram_user_name :: "string option"
  gender :: "int option"
  age :: "int option"
  target_gender :: "int option"
  user_personality_summary :: "string option"
  match_ids :: "int list"
  blocked_user_ids :: "user_id list"
  post_ids :: "int list"
  liked_post_ids :: "int list"

definition User_init :: "string option \<Rightarrow> int option \<Rightarrow> user_id \<Rightarrow> user" where
  "User_init name g uid =
     \<lparr>user_id = uid, telegram_user_name = name, gender = g, age = None, target_gender = None,
      user_personality_summary = None, match_ids = [], blocked_user_ids = [],
      post_ids = [], liked_post_ids = []\<rparr>"

text \<open>\<open>edit_data\<close>: a field is overwritten only when its argument is not \<open>None\<close>.\<close>

definition keep_or :: "'a option \<Rightarrow> 'a option \<Rightarrow> 'a option" where
  "keep_or new old = (case new of None \<Rightarrow> old | Some x \<Rightarrow> Some x)"

definition edit_data ::
  "string option \<Rightarrow> int option \<Rightarrow> int option \<Rightarrow> int option \<Rightarrow> string option \<Rightarrow> user \<Rightarrow> user" where
  "edit_data name g a tg summary u =
     u\<lparr>telegram_user_name := keep_or name (telegram_user_name u),
       gender := keep_or g (gender u), age := keep_or a (age u),
       target_gender := keep_or tg (target_gender u),
       user_personality_summary := keep_or summary (user_personality_summary u)\<rparr>"

definition block_user :: "user_id \<Rightarrow> user \<Rightarrow> user" where
  "block_user b u = u\<lparr>blocked_user_ids := append_new b (blocked_user_ids u)\<rparr>"

definition like_match :: "int \<Rightarrow> user \<Rightarrow> user" where
  "like_match m u = u\<lparr>match_ids := append_new m (match_ids u)\<rparr>"

definition add_post :: "int \<Rightarrow> user \<Rightarrow> user" where
  "add_post pid u = u\<lparr>post_ids := append_new pid (post_ids u)\<rparr>"

definition remove_post :: "int \<Rightarrow> user \<Rightarrow> user" where
  "remove_post pid u = u\<lparr>post_ids := remove1 pid (post_ids u)\<rparr>"

definition add_liked_post :: "int \<Rightarrow> user \<Rightarrow> user" where
  "add_liked_post pid u = u\<lparr>liked_post_ids := append_new pid (liked_post_ids u)\<rparr>"

definition remove_liked_post :: "int \<Rightarrow> user \<Rightarrow> user" where
  "remove_liked_post pid u = u\<lparr>liked_post_ids := remove1 pid (liked_post_ids u)\<rparr>"

text \<open>The relation lists hold no duplicates: every method keeps that.\<close>

definition user_inv :: "user \<Rightarrow> bool" where
  "user_inv u \<longleftrightarrow> distinct (post_ids u) \<and> distinct (liked_post_ids u) \<and>
                  distinct (match_ids u) \<and> distinct (blocked_user_ids u)"

lemmas user_ops_defs = add_post_def remove_post_def add_liked_post_def remove_liked_post_def
  block_user_def like_match_def edit_data_def

subsection \<open>Lemmas\<close>

lemma user_inv_ops:
  "user_inv u \<Longrightarrow> user_inv (add_post p u)"
  "user_inv u \<Longrightarrow> user_inv (remove_post p u)"
  "user_inv u \<Longrightarrow> user_inv (add_liked_post p u)"
  "user_inv u \<Longrightarrow> user_inv (remove_liked_post p u)"
  "user_inv u \<Longrightarrow> user_inv (block_user b u)"
  "user_inv u \<Longrightarrow> user_inv (like_match m u)"
  "user_inv u \<Longrightarrow> user_inv (edit_data n g a tg sm u)"
  by (simp_all add: user_inv_def user_ops_defs)

lemma user_inv_init: "user_inv (User_init n g uid)"
  by (simp add: user_inv_def User_init_def)

lemma liked_post_ids_ops:
  "set (liked_post_ids (add_liked_post p u)) = insert p (set (liked_post_ids u))"
  "distinct (liked_post_ids u) \<Longrightarrow> set (liked_post_ids (remove_liked_post p u)) = set (liked_post_ids u) - {p}"
  by (auto simp: add_liked_post_def remove_liked_post_def)

lemma add_post_member: "p \<in> set (post_ids (add_post p u))"
  by (simp add: add_post_def)

lemma user_id_ops [simp]:
  "user_id (add_post p u) = user_id u"
  "user_id (add_liked_post p u) = user_id u"
  "user_id (remove_liked_post p u) = user_id u"
  by (simp_all add: user_ops_defs)

end
