(* ===== verification/Storage.thy ===== *)
theory Storage
  imports Comment User
begin

text \<open>
  The document store the core writes behind (app/core/database.py is not part of the
  repository; this theory follows the interface of the specification, section 6):
  three collections keyed by primary key, in insertion order, and an availability flag.
  While the store is down every call raises, which the model returns as \<open>None\<close>; the
  environment may flip the flag between operations. A stored user document carries the two
  forum relations only.
  The second half models the persistence methods of the entities that use this interface:
  \<open>save_to_database\<close>, \<open>add_like\<close>, \<open>remove_like\<close> and \<open>add_comment\<close> of
  src/app/objects/Post.py and src/app/objects/Comment.py.
\<close>

record user_doc =
  ud_post_ids :: "int list"
  ud_liked_post_ids :: "int list"

record database =
  db_up :: bool
  db_posts :: "(int, post_doc) pydict"
  db_comments :: "(int, comment_doc) pydict"
  db_users :: "(user_id, user_doc) pydict"

datatype user_field = PostIds | LikedPostIds

subsection \<open>Queries\<close>

text \<open>\<open>find(coll, sort=[("_id", -1)], limit=1)\<close>, read as the largest key.\<close>

definition find_max_id :: "bool \<Rightarrow> (int, 'd) pydict \<Rightarrow> int option option" where
  "find_max_id up coll =
     (if \<not> up then None
      else if coll = [] then Some None else Some (Some (Max (set (dict_keys coll)))))"

text \<open>\<open>find(coll, {})\<close>: every document with its key, in the collection's order.\<close>

definition find_all :: "bool \<Rightarrow> (int, 'd) pydict \<Rightarrow> (int \<times> 'd) list option" where
  "find_all up coll = (if up then Some coll else None)"

definition find_one :: "bool \<Rightarrow> ('k, 'd) pydict \<Rightarrow> 'k \<Rightarrow> 'd option option" where
  "find_one up coll k = (if up then Some (dict_get coll k) else None)"

text \<open>
  The upsert of \<open>save_to_database\<close>: \<open>find_one\<close>, then \<open>update_one\<close> with \<open>$set\<close> of
  every field but \<open>_id\<close> when found (the typed document has no other fields, so this
  replaces it in place), else \<open>insert_one\<close> (appended).
\<close>

definition upsert :: "bool \<Rightarrow> ('k, 'd) pydict \<Rightarrow> 'k \<Rightarrow> 'd \<Rightarrow> ('k, 'd) pydict option" where
  "upsert up coll k d =
     (case find_one up coll k of
        None \<Rightarrow> None
      | Some _ \<Rightarrow> Some (dict_set coll k d))"

definition ud_field :: "user_field \<Rightarrow> user_doc \<Rightarrow> int list" where
  "ud_field f d = (case f of PostIds \<Rightarrow> ud_post_ids d | LikedPostIds \<Rightarrow> ud_liked_post_ids d)"

definition ud_field_update :: "user_field \<Rightarrow> int list \<Rightarrow> user_doc \<Rightarrow> user_doc" where
  "ud_field_update f xs d =
     (case f of PostIds \<Rightarrow> d\<lparr>ud_post_ids := xs\<rparr> | LikedPostIds \<Rightarrow> d\<lparr>ud_liked_post_ids := xs\<rparr>)"

text \<open>
  \<open>update_one("users", {"_id": u}, {"$addToSet": {f: x}})\<close>: the modified count is 0 when
  no document matches or \<open>x\<close> is already there.
\<close>

definition users_add_to_set :: "database \<Rightarrow> user_id \<Rightarrow> user_field \<Rightarrow> int \<Rightarrow> (nat \<times> database) option" where
  "users_add_to_set db u f x =
     (if \<not> db_up db then None
      else case dict_get (db_users db) u of
             None \<Rightarrow> Some (0, db)
           | Some d \<Rightarrow>
               if x \<in> set (ud_field f d) then Some (0, db)
               else Some (1, db\<lparr>db_users := dict_set (db_users db) u (ud_field_update f (ud_field f d @ [x]) d)\<rparr>))"

text \<open>\<open>$pull\<close> removes every occurrence; the count is 0 when nothing was removed.\<close>

definition users_pull :: "database \<Rightarrow> user_id \<Rightarrow> user_field \<Rightarrow> int \<Rightarrow> (nat \<times> database) option" where
  "users_pull db u f x =
     (if \<not> db_up db then None
      else case dict_get (db_users db) u of
             None \<Rightarrow> Some (0, db)
           | Some d \<Rightarrow>
               if x \<notin> set (ud_field f d) then Some (0, db)
               else Some (1, db\<lparr>db_users := dict_set (db_users db) u (ud_field_update f (removeAll x (ud_field f d)) d)\<rparr>))"

subsection \<open>Entity persistence\<close>

text \<open>\<open>Post.save_to_database\<close>: an exception is caught and reported as \<open>False\<close>.\<close>

definition post_save_to_database :: "post \<Rightarrow> database \<Rightarrow> bool \<times> database" where
  "post_save_to_database p db =
     (let (k, d) = post_to_dict p in
      case upsert (db_up db) (db_posts db) k d of
        None \<Rightarrow> (False, db)
      | Some c \<Rightarrow> (True, db\<lparr>db_posts := c\<rparr>))"

definition comment_save_to_database :: "comment \<Rightarrow> database \<Rightarrow> bool \<times> database" where
  "comment_save_to_database c db =
     (let (k, d) = comment_to_dict c in
      case upsert (db_up db) (db_comments db) k d of
        None \<Rightarrow> (False, db)
      | Some cs \<Rightarrow> (True, db\<lparr>db_comments := cs\<rparr>))"

text \<open>
  \<open>Post.add_like\<close>, \<open>Post.remove_like\<close>, \<open>Post.add_comment\<close>: mutate, then save; an
  operation that changes nothing returns \<open>True\<close> without touching the store.
\<close>

definition Post_add_like :: "int \<Rightarrow> user_id \<Rightarrow> post \<Rightarrow> database \<Rightarrow> bool \<times> post \<times> database" where
  "Post_add_like now u p db =
     (if u \<notin> set (post.liked_user_ids p)
      then let p' = post_like now u p; (ok, db') = post_save_to_database p' db in (ok, p', db')
      else (True, p, db))"

definition Post_remove_like :: "int \<Rightarrow> user_id \<Rightarrow> post \<Rightarrow> database \<Rightarrow> bool \<times> post \<times> database" where
  "Post_remove_like now u p db =
     (if u \<in> set (post.liked_user_ids p)
      then let p' = post_unlike now u p; (ok, db') = post_save_to_database p' db in (ok, p', db')
      else (True, p, db))"

definition Post_add_comment :: "int \<Rightarrow> int \<Rightarrow> post \<Rightarrow> database \<Rightarrow> bool \<times> post \<times> database" where
  "Post_add_comment now cid p db =
     (if cid \<notin> set (comment_ids p)
      then let p' = post_add_comment now cid p; (ok, db') = post_save_to_database p' db in (ok, p', db')
      else (True, p, db))"

definition Comment_add_like :: "user_id \<Rightarrow> comment \<Rightarrow> database \<Rightarrow> bool \<times> comment \<times> database" where
  "Comment_add_like u c db =
     (if u \<notin> set (comment.liked_user_ids c)
      then let c' = comment_like u c; (ok, db') = comment_save_to_database c' db in (ok, c', db')
      else (True, c, db))"

definition Comment_remove_like :: "user_id \<Rightarrow> comment \<Rightarrow> database \<Rightarrow> bool \<times> comment \<times> database" where
  "Comment_remove_like u c db =
     (if u \<in> set (comment.liked_user_ids c)
      then let c' = comment_unlike u c; (ok, db') = comment_save_to_database c' db in (ok, c', db')
      else (True, c, db))"

subsection \<open>Lemmas\<close>

lemma find_max_id_up:
  "db_up db \<Longrightarrow> find_max_id (db_up db) coll \<noteq> None"
  by (simp add: find_max_id_def)

lemma find_max_id_bound:
  "find_max_id up coll = Some (Some m) \<Longrightarrow> k \<in> set (dict_keys coll) \<Longrightarrow> k \<le> m"
  by (auto simp: find_max_id_def dict_keys_def split: if_splits intro!: Max_ge)

lemma upsert_Some_iff: "upsert up coll k d = Some c \<longleftrightarrow> up \<and> c = dict_set coll k d"
  by (auto simp: upsert_def find_one_def)

lemma post_save_ok:
  "post_save_to_database p db = (ok, db') \<Longrightarrow>
     ok = db_up db \<and> (ok \<longrightarrow> db_posts db' = dict_set (db_posts db) (post.post_id p) (snd (post_to_dict p))) \<and>
     (\<not> ok \<longrightarrow> db' = db)"
  by (auto simp: post_save_to_database_def upsert_def find_one_def post_to_dict_def split: if_splits)

lemma post_save_frame:
  "post_save_to_database p db = (ok, db') \<Longrightarrow>
     db_comments db' = db_comments db \<and> db_users db' = db_users db \<and> db_up db' = db_up db"
  by (auto simp: post_save_to_database_def upsert_def find_one_def post_to_dict_def split: if_splits option.splits)

lemma comment_save_ok:
  "comment_save_to_database c db = (ok, db') \<Longrightarrow>
     ok = db_up db \<and> (ok \<longrightarrow> db_comments db' = dict_set (db_comments db) (comment_id c) (snd (comment_to_dict c))) \<and>
     (\<not> ok \<longrightarrow> db' = db)"
  by (auto simp: comment_save_to_database_def upsert_def find_one_def comment_to_dict_def split: if_splits)

lemma comment_save_frame:
  "comment_save_to_database c db = (ok, db') \<Longrightarrow>
     db_posts db' = db_posts db \<and> db_users db' = db_users db \<and> db_up db' = db_up db"
  by (auto simp: comment_save_to_database_def upsert_def find_one_def comment_to_dict_def split: if_splits option.splits)

lemma users_add_to_set_frame:
  "users_add_to_set db u f x = Some (n, db') \<Longrightarrow>
     db_posts db' = db_posts db \<and> db_comments db' = db_comments db \<and> db_up db' = db_up db \<and> db_up db"
  by (auto simp: users_add_to_set_def split: if_splits option.splits)

lemma users_pull_frame:
  "users_pull db u f x = Some (n, db') \<Longrightarrow>
     db_posts db' = db_posts db \<and> db_comments db' = db_comments db \<and> db_up db' = db_up db \<and> db_up db"
  by (auto simp: users_pull_def split: if_splits option.splits)

lemma users_add_to_set_None: "users_add_to_set db u f x = None \<longleftrightarrow> \<not> db_up db"
  by (auto simp: users_add_to_set_def split: option.splits)

lemma users_pull_None: "users_pull db u f x = None \<longleftrightarrow> \<not> db_up db"
  by (auto simp: users_pull_def split: option.splits)

lemma users_add_to_set_member:
  "users_add_to_set db u f x = Some (n, db') \<Longrightarrow> dict_get (db_users db') u = Some d \<Longrightarrow>
     x \<in> set (ud_field f d)"
  by (auto simp: users_add_to_set_def ud_field_def ud_field_update_def dict_get_set
           split: if_splits option.splits user_field.splits)

end
