(* ===== verification/Forum_State.thy ===== *)
theory Forum_State
  imports Storage
begin

text \<open>
  The cache store of src/app/services/https/ForumManager.py: the singleton's two
  dictionaries and its class-level \<open>_initialized\<close> flag, together with the state of its
  collaborators, in one record \<open>world\<close>: the two sequencers, the in-memory user registry
  (\<open>UserManagement\<close>, not in the repository: a map from identity to user) and the store.
  This theory holds hydration: \<open>_ensure_aware_datetime\<close>, \<open>_load_posts_from_database\<close>,
  \<open>_load_comments_from_database\<close>, \<open>_reconcile_user_post_relationships\<close>,
  \<open>initialize\<close>, \<open>force_reinitialize\<close> and \<open>get_memory_status\<close>. Each operation takes
  the clock reading \<open>now\<close> (milliseconds, also the fallback seed of a sequencer).
\<close>

record world =
  posts_dict :: "(int, post) pydict"
  comments_dict :: "(int, comment) pydict"
  fm_initialized :: bool
  post_seq :: seq
  comment_seq :: seq
  users :: "user_id \<rightharpoonup> user"
  db :: database

text \<open>
  The process start: \<open>ForumManager.__new__\<close> creates both dictionaries empty with the
  flag unset, and the class attributes of \<open>Post\<close> and \<open>Comment\<close> start at 0, unseeded.
\<close>

definition start_world :: "(user_id \<rightharpoonup> user) \<Rightarrow> database \<Rightarrow> world" where
  "start_world us d =
     \<lparr>posts_dict = [], comments_dict = [], fm_initialized = False,
      post_seq = seq_init, comment_seq = seq_init, users = us, db = d\<rparr>"

subsection \<open>Hydration\<close>

definition ensure_aware_datetime :: "datetime option \<Rightarrow> datetime option" where
  "ensure_aware_datetime d =
     (case d of
        None \<Rightarrow> None
      | Some (DateTime w None) \<Rightarrow> Some (DateTime w (Some 0))
      | Some x \<Rightarrow> Some x)"

text \<open>
  One iteration of the post loading loop: the constructor (which draws an identifier),
  the counter raised to the loaded key, then the stored fields over the constructed ones.
\<close>

definition load_post :: "int \<Rightarrow> seq \<Rightarrow> int \<Rightarrow> post_doc \<Rightarrow> seq_error + (post \<times> seq)" where
  "load_post now s pid d =
     (case Post_init s now (py_str (py_get (pd_creator_user_id d) SNone))
             (py_get (pd_creator_user_name d) []) (py_get (pd_post_content d) [])
             (py_get (pd_post_type d) ''text'') (py_get (pd_post_category d) [])
             (pd_tags d) (pd_media_files d) of
        Inl e \<Rightarrow> Inl e
      | Inr (p, s') \<Rightarrow>
          Inr (p\<lparr>post.post_id := pid, post.like_count := py_get (pd_like_count d) 0,
                 post.liked_user_ids := map py_str (py_get (pd_liked_user_ids d) []),
                 comment_count := py_get (pd_comment_count d) 0,
                 view_count := py_get (pd_view_count d) 0,
                 comment_ids := py_get (pd_comment_ids d) [],
                 post_status := py_get (pd_post_status d) ''published'',
                 post.created_at := ensure_aware_datetime (pd_created_at d),
                 updated_at := ensure_aware_datetime (pd_updated_at d)\<rparr>,
               advance_to pid s'))"

text \<open>
  The loop both loaders run over the stored documents: a falsy key (\<open>0\<close>) is skipped,
  and so is a document whose load raises; a loaded entity is stored under its key.
\<close>

fun load_loop ::
  "(seq \<Rightarrow> int \<Rightarrow> 'd \<Rightarrow> seq_error + ('v \<times> seq)) \<Rightarrow> (int \<times> 'd) list \<Rightarrow> nat \<Rightarrow> seq \<Rightarrow>
   (int, 'v) pydict \<Rightarrow> nat \<times> seq \<times> (int, 'v) pydict" where
  "load_loop ld [] n s m = (n, s, m)"
| "load_loop ld ((k, d) # ds) n s m =
     (if k = 0 then load_loop ld ds n s m
      else case ld s k d of
             Inl _ \<Rightarrow> load_loop ld ds n s m
           | Inr (v, s') \<Rightarrow> load_loop ld ds (Suc n) s' (dict_set m k v))"

definition load_posts_from_database :: "int \<Rightarrow> world \<Rightarrow> (nat \<times> world) option" where
  "load_posts_from_database now w =
     (case find_all (db_up (db w)) (db_posts (db w)) of
        None \<Rightarrow> None
      | Some docs \<Rightarrow>
          (let (n, s, pd) = load_loop (load_post now) docs 0 (post_seq w) (posts_dict w)
           in Some (n, w\<lparr>post_seq := s, posts_dict := pd\<rparr>)))"

definition load_comment :: "int \<Rightarrow> seq \<Rightarrow> int \<Rightarrow> comment_doc \<Rightarrow> seq_error + (comment \<times> seq)" where
  "load_comment now s cid d =
     (case Comment_init s now (py_str (py_get (cd_commenter_user_id d) SNone))
             (py_get (cd_commenter_user_name d) []) (cd_post_id d)
             (py_get (cd_comment_content d) []) of
        Inl e \<Rightarrow> Inl e
      | Inr (c, s') \<Rightarrow>
          Inr (c\<lparr>comment_id := cid, comment.like_count := py_get (cd_like_count d) 0,
                 comment.liked_user_ids := map py_str (py_get (cd_liked_user_ids d) []),
                 comment_status := py_get (cd_comment_status d) ''published'',
                 comment.created_at := ensure_aware_datetime (cd_created_at d)\<rparr>,
               advance_to cid s'))"

definition load_comments_from_database :: "int \<Rightarrow> world \<Rightarrow> (nat \<times> world) option" where
  "load_comments_from_database now w =
     (case find_all (db_up (db w)) (db_comments (db w)) of
        None \<Rightarrow> None
      | Some docs \<Rightarrow>
          (let (n, s, cd) = load_loop (load_comment now) docs 0 (comment_seq w) (comments_dict w)
           in Some (n, w\<lparr>comment_seq := s, comments_dict := cd\<rparr>)))"

subsection \<open>Reconciliation\<close>

text \<open>
  \<open>_reconcile_user_post_relationships\<close>: for each post in dictionary order, a resident
  creator that lacks the post in \<open>post_ids\<close> gets it appended; an absent creator is skipped.
\<close>

definition reconcile_one :: "(user_id \<rightharpoonup> user) \<Rightarrow> post \<Rightarrow> (user_id \<rightharpoonup> user)" where
  "reconcile_one us p =
     (case us (creator_user_id p) of
        None \<Rightarrow> us
      | Some u \<Rightarrow>
          if post.post_id p \<notin> set (post_ids u)
          then us(creator_user_id p \<mapsto> add_post (post.post_id p) u) else us)"

definition reconcile_user_post_relationships ::
  "(int, post) pydict \<Rightarrow> (user_id \<rightharpoonup> user) \<Rightarrow> (user_id \<rightharpoonup> user)" where
  "reconcile_user_post_relationships pd us = fold (\<lambda>p us. reconcile_one us p) (dict_values pd) us"

subsection \<open>Initialization\<close>

text \<open>
  \<open>initialize\<close>: a no-op when the flag is set; otherwise seed both sequencers (a no-op for
  a seeded one), clear both dictionaries, load posts then comments, reconcile, set the flag.
  A failed load leaves the flag unset and whatever was loaded so far in memory.
\<close>

definition initialize :: "int \<Rightarrow> world \<Rightarrow> bool \<times> world" where
  "initialize now w =
     (if fm_initialized w then (True, w)
      else
        let up = db_up (db w);
            w1 = w\<lparr>post_seq := initialize_counter now (find_max_id up (db_posts (db w))) (post_seq w),
                   comment_seq := Comment_initialize_counter now (find_max_id up (db_comments (db w))) (comment_seq w),
                   posts_dict := [], comments_dict := []\<rparr>
        in case load_posts_from_database now w1 of
             None \<Rightarrow> (False, w1\<lparr>fm_initialized := False\<rparr>)
           | Some (_, w2) \<Rightarrow>
               (case load_comments_from_database now w2 of
                  None \<Rightarrow> (False, w2\<lparr>fm_initialized := False\<rparr>)
                | Some (_, w3) \<Rightarrow>
                    (True, w3\<lparr>users := reconcile_user_post_relationships (posts_dict w3) (users w3),
                              fm_initialized := True\<rparr>)))"

definition force_reinitialize :: "int \<Rightarrow> world \<Rightarrow> bool \<times> world" where
  "force_reinitialize now w = initialize now (w\<lparr>fm_initialized := False\<rparr>)"

text \<open>The lazy guard every operation but the comment listing starts with; its result is ignored.\<close>

definition ensure_initialized :: "int \<Rightarrow> world \<Rightarrow> world" where
  "ensure_initialized now w = (if fm_initialized w then w else snd (initialize now w))"

record memory_status =
  ms_initialized :: bool
  ms_posts_count :: nat
  ms_comments_count :: nat
  ms_post_ids :: "int list"
  ms_comment_ids :: "int list"

definition get_memory_status :: "world \<Rightarrow> memory_status" where
  "get_memory_status w =
     \<lparr>ms_initialized = fm_initialized w, ms_posts_count = length (posts_dict w),
      ms_comments_count = length (comments_dict w),
      ms_post_ids = dict_keys (posts_dict w), ms_comment_ids = dict_keys (comments_dict w)\<rparr>"

subsection \<open>Key discipline\<close>

text \<open>
  The store's key invariant: no duplicate key, every key is the identifier of its value,
  and no key exceeds its sequencer's counter (so the next identifier drawn is new).
\<close>

definition keyed :: "('v \<Rightarrow> int) \<Rightarrow> ('v \<Rightarrow> bool) \<Rightarrow> seq \<Rightarrow> (int, 'v) pydict \<Rightarrow> bool" where
  "keyed key P s m \<longleftrightarrow> dict_wf m \<and> (\<forall>(k, v) \<in> set m. key v = k \<and> k \<le> counter s \<and> P v)"

abbreviation posts_keyed :: "world \<Rightarrow> bool" where
  "posts_keyed w \<equiv> keyed post.post_id (\<lambda>p. length (tags p) \<le> 3) (post_seq w) (posts_dict w)"

abbreviation comments_keyed :: "world \<Rightarrow> bool" where
  "comments_keyed w \<equiv> keyed comment_id (\<lambda>_. True) (comment_seq w) (comments_dict w)"


text \<open>
  A stored document is consistent when, read as hydration reads it, its like count is the
  length of its (duplicate-free) liker list and its comment count the length of its
  comment list. \<open>mem_inv\<close> asks the count/set parity of every cached entity, duplicate-free
  relation lists of every resident user, and consistency of every stored document.
\<close>

definition post_doc_inv :: "post_doc \<Rightarrow> bool" where
  "post_doc_inv d \<longleftrightarrow>
     (let liked = map py_str (py_get (pd_liked_user_ids d) [])
      in distinct liked \<and> py_get (pd_like_count d) 0 = int (length liked) \<and>
         py_get (pd_comment_count d) 0 = int (length (py_get (pd_comment_ids d) [])))"

definition comment_doc_inv :: "comment_doc \<Rightarrow> bool" where
  "comment_doc_inv d \<longleftrightarrow>
     (let liked = map py_str (py_get (cd_liked_user_ids d) [])
      in distinct liked \<and> py_get (cd_like_count d) 0 = int (length liked))"

definition mem_inv :: "world \<Rightarrow> bool" where
  "mem_inv w \<longleftrightarrow>
     (\<forall>p \<in> set (dict_values (posts_dict w)). post_inv p) \<and>
     (\<forall>c \<in> set (dict_values (comments_dict w)). comment_inv c) \<and>
     (\<forall>x u. users w x = Some u \<longrightarrow> user_inv u) \<and>
     (\<forall>(k, d) \<in> set (db_posts (db w)). post_doc_inv d) \<and>
     (\<forall>(k, d) \<in> set (db_comments (db w)). comment_doc_inv d)"

lemma keyed_empty [simp]: "keyed key P s []"
  by (simp add: keyed_def dict_wf_def dict_keys_def)

lemma keyed_mono: "keyed key P s m \<Longrightarrow> counter s \<le> counter s' \<Longrightarrow> keyed key P s' m"
  by (fastforce simp: keyed_def)

lemma keyed_set:
  "keyed key P s m \<Longrightarrow> key v = k \<Longrightarrow> k \<le> counter s \<Longrightarrow> P v \<Longrightarrow> keyed key P s (dict_set m k v)"
  unfolding keyed_def by (auto simp: dict_wf_set dest: dict_set_mem)

lemma keyed_fresh:
  "keyed key P s m \<Longrightarrow> counter s < i \<Longrightarrow> i \<notin> set (dict_keys m)"
  by (force simp: keyed_def dict_keys_def)

lemma keyed_get:
  "keyed key P s m \<Longrightarrow> dict_get m k = Some v \<Longrightarrow> key v = k \<and> k \<le> counter s \<and> P v"
  by (auto simp: keyed_def dest!: dict_get_in_keys)

lemma load_post_Inr:
  "load_post now s pid d = Inr (p, s') \<Longrightarrow>
     post.post_id p = pid \<and> pid \<le> counter s' \<and> counter s \<le> counter s' \<and> seq_le s s' \<and>
     length (tags p) \<le> 3"
  by (auto simp: load_post_def Post_init_def next_id_Inr_iff advance_to_def seq_le_def
           split: sum.splits prod.splits)

lemma load_comment_Inr:
  "load_comment now s cid d = Inr (c, s') \<Longrightarrow>
     comment_id c = cid \<and> cid \<le> counter s' \<and> counter s \<le> counter s' \<and> seq_le s s' \<and> True"
  by (auto simp: load_comment_def Comment_init_def next_id_Inr_iff advance_to_def seq_le_def
           split: sum.splits prod.splits)

text \<open>
  A loader that keys what it loads by the key it was given (for the documents at hand)
  keeps the store keyed.
\<close>

lemma load_loop_keyed:
  "load_loop ld ds n s m = (n', s', m') \<Longrightarrow> keyed key P s m \<Longrightarrow>
   \<forall>(k, d) \<in> set ds. \<forall>s v s'. ld s k d = Inr (v, s') \<longrightarrow>
       key v = k \<and> k \<le> counter s' \<and> counter s \<le> counter s' \<and> seq_le s s' \<and> P v \<Longrightarrow>
   keyed key P s' m' \<and> seq_le s s'"
proof (induction ds arbitrary: n s m n' s' m')
  case Nil
  then show ?case by simp
next
  case (Cons x ds)
  obtain k d where x: "x = (k, d)" by (cases x)
  show ?case
  proof (cases "k = 0")
    case True
    with Cons x show ?thesis by simp
  next
    case False
    show ?thesis
    proof (cases "ld s k d")
      case (Inl e)
      with Cons x False show ?thesis by simp
    next
      case (Inr r)
      obtain v s1 where r: "r = (v, s1)" by (cases r)
      with Inr have l1: "ld s k d = Inr (v, s1)" by simp
      from Cons.prems(3) x l1 have "key v = k \<and> k \<le> counter s1 \<and> counter s \<le> counter s1 \<and> seq_le s s1 \<and> P v"
        by auto
      with Cons.prems(2) have "keyed key P s1 (dict_set m k v)" and "seq_le s s1"
        by (auto intro: keyed_set keyed_mono)
      moreover from Cons.prems(1) x False l1
      have "load_loop ld ds (Suc n) s1 (dict_set m k v) = (n', s', m')" by simp
      moreover from Cons.prems(3) have "\<forall>(k, d) \<in> set ds. \<forall>s v s'. ld s k d = Inr (v, s') \<longrightarrow>
          key v = k \<and> k \<le> counter s' \<and> counter s \<le> counter s' \<and> seq_le s s' \<and> P v"
        by simp
      ultimately show ?thesis
        using Cons.IH by (blast intro: seq_le_trans)
    qed
  qed
qed

lemma load_posts_keyed:
  "load_posts_from_database now w = Some (n, w') \<Longrightarrow> posts_keyed w \<Longrightarrow>
     posts_keyed w' \<and> seq_le (post_seq w) (post_seq w') \<and>
     comments_dict w' = comments_dict w \<and> comment_seq w' = comment_seq w \<and> db w' = db w \<and>
     users w' = users w \<and> fm_initialized w' = fm_initialized w"
  using load_loop_keyed [where ld = "load_post now" and key = post.post_id
      and P = "\<lambda>p. length (tags p) \<le> 3"] load_post_Inr
  by (auto simp: load_posts_from_database_def find_all_def split: if_splits prod.splits)

lemma load_comments_keyed:
  "load_comments_from_database now w = Some (n, w') \<Longrightarrow> comments_keyed w \<Longrightarrow>
     comments_keyed w' \<and> seq_le (comment_seq w) (comment_seq w') \<and>
     posts_dict w' = posts_dict w \<and> post_seq w' = post_seq w \<and> db w' = db w \<and>
     users w' = users w \<and> fm_initialized w' = fm_initialized w"
  using load_loop_keyed [where ld = "load_comment now" and key = comment_id
      and P = "\<lambda>_. True"] load_comment_Inr
  by (auto simp: load_comments_from_database_def find_all_def split: if_splits prod.splits)

lemma load_posts_None: "load_posts_from_database now w = None \<longleftrightarrow> \<not> db_up (db w)"
  by (auto simp: load_posts_from_database_def find_all_def split: prod.splits)

lemma load_comments_None: "load_comments_from_database now w = None \<longleftrightarrow> \<not> db_up (db w)"
  by (auto simp: load_comments_from_database_def find_all_def split: prod.splits)

subsection \<open>Initialization: outcome, idempotence, key discipline\<close>

lemma load_posts_down: "\<not> db_up (db w) \<Longrightarrow> load_posts_from_database now w = None"
  by (simp add: load_posts_None)

lemma initialize_flag: "fst (initialize now w) = fm_initialized (snd (initialize now w))"
  by (auto simp: initialize_def Let_def load_posts_None load_comments_None
           dest: load_posts_keyed load_comments_keyed split: option.splits prod.splits)

lemma load_posts_up: "db_up (db w) \<Longrightarrow> \<exists>n w'. load_posts_from_database now w = Some (n, w')"
  by (simp add: load_posts_from_database_def find_all_def split: prod.splits)

lemma load_comments_up: "db_up (db w) \<Longrightarrow> \<exists>n w'. load_comments_from_database now w = Some (n, w')"
  by (simp add: load_comments_from_database_def find_all_def split: prod.splits)

lemma load_posts_db: "load_posts_from_database now w = Some (n, w') \<Longrightarrow> db w' = db w"
  by (auto simp: load_posts_from_database_def find_all_def split: if_splits prod.splits)

lemma initialize_ok_iff: "\<not> fm_initialized w \<Longrightarrow> fst (initialize now w) = db_up (db w)"
proof (cases "db_up (db w)")
  case True
  assume nf: "\<not> fm_initialized w"
  let ?w1 = "w\<lparr>post_seq := initialize_counter now (find_max_id (db_up (db w)) (db_posts (db w))) (post_seq w),
                comment_seq := initialize_counter now (find_max_id (db_up (db w)) (db_comments (db w))) (comment_seq w),
                posts_dict := [], comments_dict := []\<rparr>"
  from True obtain n w2 where l2: "load_posts_from_database now ?w1 = Some (n, w2)"
    using load_posts_up [of ?w1 now] by auto
  with True have "db_up (db w2)" by (simp add: load_posts_db)
  then obtain m w3 where l3: "load_comments_from_database now w2 = Some (m, w3)"
    using load_comments_up by blast
  from nf l2 l3 True show ?thesis by (simp add: initialize_def Let_def)
next
  case False
  then show "\<not> fm_initialized w \<Longrightarrow> ?thesis"
    by (simp add: initialize_def Let_def load_posts_down)
qed

lemma initialize_idempotent:
  "initialize t2 (snd (initialize t1 w)) = (fst (initialize t1 w), snd (initialize t1 w))"
proof (cases "fm_initialized w")
  case True
  then show ?thesis by (simp add: initialize_def)
next
  case False
  show ?thesis
  proof (cases "db_up (db w)")
    case True
    with False have "fst (initialize t1 w)" by (simp add: initialize_ok_iff)
    then have "fm_initialized (snd (initialize t1 w))" by (simp add: initialize_flag)
    with \<open>fst (initialize t1 w)\<close> show ?thesis by (simp add: initialize_def)
  next
    case down: False
    with False show ?thesis
      by (simp add: initialize_def Let_def load_posts_down initialize_counter_idem)
  qed
qed

lemma reconcile_one_apply:
  "reconcile_one us p c =
     (if c = creator_user_id p then map_option (add_post (post.post_id p)) (us c) else us c)"
  by (auto simp: reconcile_one_def add_post_def append_new_def split: option.splits)

lemma reconcile_apply:
  "reconcile_user_post_relationships pd us c =
     map_option (fold add_post (map post.post_id (filter (\<lambda>p. creator_user_id p = c) (dict_values pd)))) (us c)"
proof -
  have "fold (\<lambda>p us. reconcile_one us p) ps us c =
        map_option (fold add_post (map post.post_id (filter (\<lambda>p. creator_user_id p = c) ps))) (us c)" for ps
    by (induction ps arbitrary: us) (auto simp: reconcile_one_apply option.map_comp o_def option.map_id)
  then show ?thesis by (simp add: reconcile_user_post_relationships_def)
qed

lemma set_post_ids_fold_add_post:
  "set (post_ids (fold add_post xs u)) = set (post_ids u) \<union> set xs"
  by (induction xs arbitrary: u) (auto simp: add_post_def)

lemma user_inv_fold_add_post: "user_inv u \<Longrightarrow> user_inv (fold add_post xs u)"
  by (induction xs arbitrary: u) (auto intro: user_inv_ops)

lemma initialize_keyed:
  assumes "posts_keyed w" "comments_keyed w"
  shows "posts_keyed (snd (initialize now w)) \<and> comments_keyed (snd (initialize now w)) \<and>
         seq_le (post_seq w) (post_seq (snd (initialize now w))) \<and>
         seq_le (comment_seq w) (comment_seq (snd (initialize now w))) \<and>
         db (snd (initialize now w)) = db w"
proof (cases "fm_initialized w")
  case True
  with assms show ?thesis by (simp add: initialize_def)
next
  case False
  let ?w1 = "w\<lparr>post_seq := initialize_counter now (find_max_id (db_up (db w)) (db_posts (db w))) (post_seq w),
                comment_seq := initialize_counter now (find_max_id (db_up (db w)) (db_comments (db w))) (comment_seq w),
                posts_dict := [], comments_dict := []\<rparr>"
  have k1: "posts_keyed ?w1" "comments_keyed ?w1" by simp_all
  have s1: "seq_le (post_seq w) (post_seq ?w1)" "seq_le (comment_seq w) (comment_seq ?w1)"
    by (simp_all add: seq_le_initialize_counter)
  show ?thesis
  proof (cases "load_posts_from_database now ?w1")
    case None
    with False k1 s1 show ?thesis by (simp add: initialize_def Let_def)
  next
    case (Some r2)
    obtain n w2 where r2: "r2 = (n, w2)" by (cases r2)
    with Some have l2: "load_posts_from_database now ?w1 = Some (n, w2)" by simp
    note k2 = load_posts_keyed [OF l2 k1(1)]
    show ?thesis
    proof (cases "load_comments_from_database now w2")
      case None
      with False l2 k2 k1 s1 show ?thesis by (auto simp: initialize_def Let_def intro: seq_le_trans)
    next
      case (Some r3)
      obtain m w3 where r3: "r3 = (m, w3)" by (cases r3)
      with Some have l3: "load_comments_from_database now w2 = Some (m, w3)" by simp
      from k2 k1(2) have "comments_keyed w2" by simp
      note k3 = load_comments_keyed [OF l3 this]
      from False l2 l3 k2 k3 s1 show ?thesis
        by (auto simp: initialize_def Let_def intro: seq_le_trans)
    qed
  qed
qed

lemma force_reinitialize_keyed:
  "posts_keyed w \<Longrightarrow> comments_keyed w \<Longrightarrow>
     posts_keyed (snd (force_reinitialize now w)) \<and> comments_keyed (snd (force_reinitialize now w)) \<and>
     seq_le (post_seq w) (post_seq (snd (force_reinitialize now w))) \<and>
     seq_le (comment_seq w) (comment_seq (snd (force_reinitialize now w))) \<and>
     db (snd (force_reinitialize now w)) = db w"
  using initialize_keyed [of "w\<lparr>fm_initialized := False\<rparr>" now]
  by (simp add: force_reinitialize_def)

lemma ensure_initialized_keyed:
  "posts_keyed w \<Longrightarrow> comments_keyed w \<Longrightarrow>
     posts_keyed (ensure_initialized now w) \<and> comments_keyed (ensure_initialized now w) \<and>
     seq_le (post_seq w) (post_seq (ensure_initialized now w)) \<and>
     seq_le (comment_seq w) (comment_seq (ensure_initialized now w)) \<and>
     db (ensure_initialized now w) = db w"
  using initialize_keyed [of w now] by (simp add: ensure_initialized_def)

subsection \<open>Entity invariants across hydration\<close>
lemma keyed_values: "keyed key P s m \<Longrightarrow> v \<in> set (dict_values m) \<Longrightarrow> P v"
  by (auto simp: keyed_def dict_values_def)

lemma load_post_inv: "post_doc_inv d \<Longrightarrow> load_post now s pid d = Inr (p, s') \<Longrightarrow> post_inv p"
  by (auto simp: load_post_def Post_init_def post_doc_inv_def post_inv_def Let_def split: sum.splits prod.splits)

lemma load_comment_inv: "comment_doc_inv d \<Longrightarrow> load_comment now s cid d = Inr (c, s') \<Longrightarrow> comment_inv c"
  by (auto simp: load_comment_def Comment_init_def comment_doc_inv_def comment_inv_def Let_def
           split: sum.splits prod.splits)

lemma load_posts_inv:
  assumes l: "load_posts_from_database now w = Some (n, w')" and e: "posts_dict w = []"
    and docs: "\<forall>(k, d) \<in> set (db_posts (db w)). post_doc_inv d"
  shows "\<forall>p \<in> set (dict_values (posts_dict w')). post_inv p"
proof -
  from l e obtain n' s' where
    lp: "load_loop (load_post now) (db_posts (db w)) 0 (post_seq w) [] = (n', s', posts_dict w')"
    by (auto simp: load_posts_from_database_def find_all_def split: if_splits prod.splits)
  have "\<forall>(k, d) \<in> set (db_posts (db w)). \<forall>s v s'. load_post now s k d = Inr (v, s') \<longrightarrow>
          post.post_id v = k \<and> k \<le> counter s' \<and> counter s \<le> counter s' \<and> seq_le s s' \<and> post_inv v"
    using docs by (blast dest: load_post_Inr load_post_inv)
  from load_loop_keyed [OF lp keyed_empty this] show ?thesis
    by (blast dest: keyed_values)
qed

lemma load_comments_inv:
  assumes l: "load_comments_from_database now w = Some (n, w')" and e: "comments_dict w = []"
    and docs: "\<forall>(k, d) \<in> set (db_comments (db w)). comment_doc_inv d"
  shows "\<forall>c \<in> set (dict_values (comments_dict w')). comment_inv c"
proof -
  from l e obtain n' s' where
    lp: "load_loop (load_comment now) (db_comments (db w)) 0 (comment_seq w) [] = (n', s', comments_dict w')"
    by (auto simp: load_comments_from_database_def find_all_def split: if_splits prod.splits)
  have "\<forall>(k, d) \<in> set (db_comments (db w)). \<forall>s v s'. load_comment now s k d = Inr (v, s') \<longrightarrow>
          comment_id v = k \<and> k \<le> counter s' \<and> counter s \<le> counter s' \<and> seq_le s s' \<and> comment_inv v"
    using docs by (blast dest: load_comment_Inr load_comment_inv)
  from load_loop_keyed [OF lp keyed_empty this] show ?thesis
    by (blast dest: keyed_values)
qed

lemma reconcile_user_inv:
  "\<forall>x u. us x = Some u \<longrightarrow> user_inv u \<Longrightarrow>
   reconcile_user_post_relationships pd us x = Some u \<Longrightarrow> user_inv u"
  by (auto simp: reconcile_apply user_inv_fold_add_post)

lemma load_posts_frame:
  "load_posts_from_database now w = Some (n, w') \<Longrightarrow>
     comments_dict w' = comments_dict w \<and> comment_seq w' = comment_seq w \<and> db w' = db w \<and>
     users w' = users w \<and> fm_initialized w' = fm_initialized w"
  by (auto simp: load_posts_from_database_def find_all_def split: if_splits prod.splits)

lemma load_comments_frame:
  "load_comments_from_database now w = Some (n, w') \<Longrightarrow>
     posts_dict w' = posts_dict w \<and> post_seq w' = post_seq w \<and> db w' = db w \<and>
     users w' = users w \<and> fm_initialized w' = fm_initialized w"
  by (auto simp: load_comments_from_database_def find_all_def split: if_splits prod.splits)

lemma initialize_mem_inv:
  assumes inv: "mem_inv w"
  shows "mem_inv (snd (initialize now w))"
proof (cases "fm_initialized w")
  case True
  with inv show ?thesis by (simp add: initialize_def)
next
  case False
  let ?w1 = "w\<lparr>post_seq := initialize_counter now (find_max_id (db_up (db w)) (db_posts (db w))) (post_seq w),
                comment_seq := initialize_counter now (find_max_id (db_up (db w)) (db_comments (db w))) (comment_seq w),
                posts_dict := [], comments_dict := []\<rparr>"
  from inv have i1: "mem_inv ?w1" by (simp add: mem_inv_def dict_values_def)
  show ?thesis
  proof (cases "load_posts_from_database now ?w1")
    case None
    with False i1 show ?thesis by (simp add: initialize_def Let_def mem_inv_def)
  next
    case (Some r2)
    obtain n w2 where r2: "r2 = (n, w2)" by (cases r2)
    with Some have l2: "load_posts_from_database now ?w1 = Some (n, w2)" by simp
    from load_posts_inv [OF l2] i1 have p2: "\<forall>p \<in> set (dict_values (posts_dict w2)). post_inv p"
      by (simp add: mem_inv_def)
    from load_posts_frame [OF l2] i1 p2 have i2: "mem_inv w2" and e2: "comments_dict w2 = []"
      by (simp_all add: mem_inv_def)
    show ?thesis
    proof (cases "load_comments_from_database now w2")
      case None
      with False l2 i2 show ?thesis by (simp add: initialize_def Let_def mem_inv_def)
    next
      case (Some r3)
      obtain m w3 where r3: "r3 = (m, w3)" by (cases r3)
      with Some have l3: "load_comments_from_database now w2 = Some (m, w3)" by simp
      from load_comments_inv [OF l3 e2] i2 have c3: "\<forall>c \<in> set (dict_values (comments_dict w3)). comment_inv c"
        by (simp add: mem_inv_def)
      from load_comments_frame [OF l3] i2 c3 have i3: "mem_inv w3"
        by (simp add: mem_inv_def)
      then have "mem_inv (w3\<lparr>users := reconcile_user_post_relationships (posts_dict w3) (users w3),
                             fm_initialized := True\<rparr>)"
        by (simp add: mem_inv_def reconcile_user_inv [of "users w3"])
      with False l2 l3 show ?thesis by (simp add: initialize_def Let_def)
    qed
  qed
qed

lemma force_reinitialize_mem_inv: "mem_inv w \<Longrightarrow> mem_inv (snd (force_reinitialize now w))"
  using initialize_mem_inv [of "w\<lparr>fm_initialized := False\<rparr>" now]
  by (simp add: force_reinitialize_def mem_inv_def)

lemma ensure_initialized_mem_inv: "mem_inv w \<Longrightarrow> mem_inv (ensure_initialized now w)"
  using initialize_mem_inv [of w now] by (simp add: ensure_initialized_def)

end
