(* ===== verification/Time_Display.thy ===== *)
theory Time_Display
  imports Prelude
begin

text \<open>
  The time display of the post items: \<open>ForumManager._format_time_display\<close>
  (src/app/services/https/ForumManager.py) formats a timestamp with
  \<open>strftime("%m-%d %H:%M")\<close>, which reads the month, day, hour and minute fields of the
  datetime. A timestamp of the model is wall-clock ticks (milliseconds since
  1970-01-01 00:00 on the value's own clock, see \<open>datetime\<close> in the prelude), so the fields
  are computed the way CPython's datetime module does: the day number becomes a proleptic
  Gregorian date by \<open>_ord2ymd\<close> (Lib/_pydatetime.py), whose inverse is \<open>_ymd2ord\<close>.
  The main lemmas: \<open>ord2ymd\<close> is a right inverse of \<open>ymd2ord\<close> on every integer and
  yields a valid month and day; the display is the zero-padded fields of the wall clock.
\<close>

text \<open>The tables and helpers of the datetime module: \<open>_DAYS_IN_MONTH\<close>,
  \<open>_DAYS_BEFORE_MONTH\<close>, \<open>_is_leap\<close>, \<open>_days_before_year\<close>, \<open>_days_before_month\<close>,
  \<open>_days_in_month\<close>, \<open>_ymd2ord\<close>.\<close>

definition days_in_month_tbl :: "int list" where
  "days_in_month_tbl = [-1, 31, 28, 31, 30, 31, 30, 31, 31, 30, 31, 30, 31]"

definition days_before_month_tbl :: "int list" where
  "days_before_month_tbl = [-1, 0, 31, 59, 90, 120, 151, 181, 212, 243, 273, 304, 334]"

definition is_leap :: "int \<Rightarrow> bool" where
  "is_leap y \<longleftrightarrow> y mod 4 = 0 \<and> (y mod 100 \<noteq> 0 \<or> y mod 400 = 0)"

definition days_before_year :: "int \<Rightarrow> int" where
  "days_before_year y = (let y1 = y - 1 in y1 * 365 + y1 div 4 - y1 div 100 + y1 div 400)"

definition days_before_month :: "int \<Rightarrow> int \<Rightarrow> int" where
  "days_before_month y m = days_before_month_tbl ! nat m + (if m > 2 \<and> is_leap y then 1 else 0)"

definition days_in_month :: "int \<Rightarrow> int \<Rightarrow> int" where
  "days_in_month y m = (if m = 2 \<and> is_leap y then 29 else days_in_month_tbl ! nat m)"

definition ymd2ord :: "int \<Rightarrow> int \<Rightarrow> int \<Rightarrow> int" where
  "ymd2ord y m d = days_before_year y + days_before_month y m + d"

text \<open>\<open>_ord2ymd\<close>: the month estimate \<open>(n + 50) >> 5\<close> and its correction, then the
  400/100/4/1-year cycle decomposition of the day number.\<close>

definition month_of_day :: "bool \<Rightarrow> int \<Rightarrow> int \<times> int" where
  "month_of_day leapyear n =
     (let month = (n + 50) div 32;
          preceding = days_before_month_tbl ! nat month + (if month > 2 \<and> leapyear then 1 else 0)
      in if preceding > n
         then (let month' = month - 1;
                   preceding' = preceding - (days_in_month_tbl ! nat month' + (if month' = 2 \<and> leapyear then 1 else 0))
               in (month', n - preceding' + 1))
         else (month, n - preceding + 1))"

definition ord2ymd :: "int \<Rightarrow> int \<times> int \<times> int" where
  "ord2ymd n0 =
     (let n = n0 - 1;
          n400 = n div 146097; n = n mod 146097;
          year = n400 * 400 + 1;
          n100 = n div 36524; n = n mod 36524;
          n4 = n div 1461; n = n mod 1461;
          n1 = n div 365; n = n mod 365;
          year = year + n100 * 100 + n4 * 4 + n1
      in if n1 = 4 \<or> n100 = 4 then (year - 1, 12, 31)
         else (let (month, day) = month_of_day (n1 = 3 \<and> (n4 \<noteq> 24 \<or> n100 = 3)) n in (year, month, day)))"

text \<open>\<open>"%02d"\<close>: the decimal digits, left-padded with zeros to two characters.\<close>

definition zero_pad2 :: "int \<Rightarrow> string" where
  "zero_pad2 n = (let s = show_int n in replicate (2 - length s) (CHR ''0'') @ s)"

text \<open>
  The fields \<open>strftime\<close> reads: the wall ticks (milliseconds since 1970-01-01 00:00 on the
  value's own clock) split into the proleptic Gregorian date (day 719163 is 1970-01-01) and
  the time of day.
\<close>

definition datetime_fields :: "datetime \<Rightarrow> int \<times> int \<times> int \<times> int \<times> int" where
  "datetime_fields t =
     (let (y, m, d) = ord2ymd (dt_wall t div 86400000 + 719163);
          ms = dt_wall t mod 86400000
      in (y, m, d, ms div 3600000, ms mod 3600000 div 60000))"

definition format_time_display :: "datetime option \<Rightarrow> string" where
  "format_time_display dt =
     (case dt of
        None \<Rightarrow> ''''
      | Some t \<Rightarrow>
          (let (_, m, d, hh, mi) = datetime_fields t
           in zero_pad2 m @ ''-'' @ zero_pad2 d @ '' '' @ zero_pad2 hh @ '':'' @ zero_pad2 mi))"

definition digit_char :: "char \<Rightarrow> bool" where
  "digit_char c \<longleftrightarrow> 48 \<le> (of_char c :: nat) \<and> (of_char c :: nat) \<le> 57"

subsection \<open>Lemmas\<close>

lemma month_of_day_table:
  "\<forall>n \<in> set [0..364]. \<forall>l \<in> {False, True}.
     (let (m, d) = month_of_day l n
      in 1 \<le> m \<and> m \<le> 12 \<and> 1 \<le> d \<and> d \<le> (if m = 2 \<and> l then 29 else days_in_month_tbl ! nat m) \<and>
         days_before_month_tbl ! nat m + (if m > 2 \<and> l then 1 else 0) + d = n + 1)"
  by code_simp

lemma month_of_day_ok:
  assumes "0 \<le> n" "n \<le> 364" and "month_of_day l n = (m, d)"
  shows "1 \<le> m \<and> m \<le> 12 \<and> 1 \<le> d \<and> d \<le> (if m = 2 \<and> l then 29 else days_in_month_tbl ! nat m) \<and>
         days_before_month_tbl ! nat m + (if m > 2 \<and> l then 1 else 0) + d = n + 1"
proof -
  from assms(1,2) have "n \<in> set [0..364]" by simp
  with month_of_day_table have "\<forall>l \<in> {False, True}.
     (let (m, d) = month_of_day l n
      in 1 \<le> m \<and> m \<le> 12 \<and> 1 \<le> d \<and> d \<le> (if m = 2 \<and> l then 29 else days_in_month_tbl ! nat m) \<and>
         days_before_month_tbl ! nat m + (if m > 2 \<and> l then 1 else 0) + d = n + 1)" by blast
  with assms(3) show ?thesis by (cases l) auto
qed

lemma div_mod_unique_int:
  "0 \<le> r \<Longrightarrow> r < (k::int) \<Longrightarrow> (k * q + r) div k = q \<and> (k * q + r) mod k = r"
  by (simp add: add.commute div_pos_pos_trivial mod_pos_pos_trivial)

lemma days_before_year_decomp:
  assumes "0 \<le> b" "b \<le> 3" "0 \<le> c" "c \<le> 24" "0 \<le> e" "e \<le> 3"
  shows "days_before_year (400 * a + 100 * b + 4 * c + e + 1) = 146097 * a + 36524 * b + 1461 * c + 365 * e"
proof -
  let ?y1 = "400 * a + 100 * b + 4 * c + e"
  have d4: "?y1 div 4 = 100 * a + 25 * b + c"
    using div_mod_unique_int [of e 4 "100 * a + 25 * b + c"] assms by (simp add: algebra_simps)
  have d100: "?y1 div 100 = 4 * a + b"
    using div_mod_unique_int [of "4 * c + e" 100 "4 * a + b"] assms by (simp add: algebra_simps)
  have d400: "?y1 div 400 = a"
    using div_mod_unique_int [of "100 * b + 4 * c + e" 400 a] assms by (simp add: algebra_simps)
  have "days_before_year (?y1 + 1) = ?y1 * 365 + ?y1 div 4 - ?y1 div 100 + ?y1 div 400"
    by (simp only: days_before_year_def Let_def add_diff_cancel_right')
  then show ?thesis unfolding d4 d100 d400 by (simp add: ring_distribs)
qed

lemma mod_shift_int: "((k::int) * q + r) mod k = r mod k"
  by (simp add: add.commute)

lemma mod_pos_le_iff: "0 < x \<Longrightarrow> x \<le> (k::int) \<Longrightarrow> x mod k = 0 \<longleftrightarrow> x = k"
  by (cases "x = k") (simp_all add: mod_pos_pos_trivial)

lemma is_leap_decomp:
  assumes "0 \<le> b" "b \<le> 3" "0 \<le> c" "c \<le> 24" "0 \<le> e" "e \<le> 3"
  shows "is_leap (400 * a + 100 * b + 4 * c + e + 1) \<longleftrightarrow> e = 3 \<and> (c \<noteq> 24 \<or> b = 3)"
proof -
  let ?y = "400 * a + 100 * b + 4 * c + e + 1"
  have y4: "?y = 4 * (100 * a + 25 * b + c) + (e + 1)" by (simp add: algebra_simps)
  have "?y mod 4 = (e + 1) mod 4" by (subst y4) (rule mod_shift_int)
  then have m4: "?y mod 4 = 0 \<longleftrightarrow> e = 3" using mod_pos_le_iff [of "e + 1" 4] assms by simp
  show ?thesis
  proof (cases "e = 3")
    case True
    have y100: "?y = 100 * (4 * a + b) + 4 * (c + 1)" using True by (simp add: algebra_simps)
    have "?y mod 100 = (4 * (c + 1)) mod 100" by (subst y100) (rule mod_shift_int)
    then have m100: "?y mod 100 = 0 \<longleftrightarrow> c = 24" using mod_pos_le_iff [of "4 * (c + 1)" 100] assms by simp
    have y400: "?y = 400 * a + (100 * b + 4 * c + 4)" using True by (simp add: algebra_simps)
    have "?y mod 400 = (100 * b + 4 * c + 4) mod 400" by (subst y400) (rule mod_shift_int)
    then have "?y mod 400 = 0 \<longleftrightarrow> 100 * b + 4 * c + 4 = 400"
      using mod_pos_le_iff [of "100 * b + 4 * c + 4" 400] assms by simp
    also have "\<dots> \<longleftrightarrow> b = 3 \<and> c = 24" using assms by linarith
    finally show ?thesis using True m4 m100 by (auto simp: is_leap_def)
  next
    case False
    with m4 show ?thesis by (simp add: is_leap_def)
  qed
qed

lemma ord2ymd_decomp:
  obtains a b c e r4 where
    "n = 146097 * a + 36524 * b + 1461 * c + 365 * e + r4 + 1"
    "ord2ymd n =
       (if e = 4 \<or> b = 4 then (a * 400 + 1 + b * 100 + c * 4 + e - 1, 12, 31)
        else (let (month, day) = month_of_day (e = 3 \<and> (c \<noteq> 24 \<or> b = 3)) r4
              in (a * 400 + 1 + b * 100 + c * 4 + e, month, day)))"
    "0 \<le> r4" "r4 \<le> 364" "0 \<le> e" "e \<le> 4" "0 \<le> c" "c \<le> 24" "0 \<le> b" "b \<le> 4"
    "b = 4 \<Longrightarrow> c = 0 \<and> e = 0 \<and> r4 = 0" "e = 4 \<Longrightarrow> c \<noteq> 24 \<and> r4 = 0"
proof -
  define a where "a = (n - 1) div 146097"
  define r1 where "r1 = (n - 1) mod 146097"
  define b where "b = r1 div 36524"
  define r2 where "r2 = r1 mod 36524"
  define c where "c = r2 div 1461"
  define r3 where "r3 = r2 mod 1461"
  define e where "e = r3 div 365"
  define r4 where "r4 = r3 mod 365"
  have o: "ord2ymd n =
       (if e = 4 \<or> b = 4 then (a * 400 + 1 + b * 100 + c * 4 + e - 1, 12, 31)
        else (let (month, day) = month_of_day (e = 3 \<and> (c \<noteq> 24 \<or> b = 3)) r4
              in (a * 400 + 1 + b * 100 + c * 4 + e, month, day)))"
    unfolding ord2ymd_def Let_def a_def r1_def b_def r2_def c_def r3_def e_def r4_def ..
  have r1: "n - 1 = 146097 * a + r1" "0 \<le> r1" "r1 < 146097" by (simp_all add: a_def r1_def)
  have r2: "r1 = 36524 * b + r2" "0 \<le> r2" "r2 < 36524" by (simp_all add: b_def r2_def)
  have r3: "r2 = 1461 * c + r3" "0 \<le> r3" "r3 < 1461" by (simp_all add: c_def r3_def)
  have r4: "r3 = 365 * e + r4" "0 \<le> r4" "r4 < 365" by (simp_all add: e_def r4_def)
  have n: "n = 146097 * a + 36524 * b + 1461 * c + 365 * e + r4 + 1" using r1 r2 r3 r4 by linarith
  have "e \<le> 1460 div 365" unfolding e_def by (rule zdiv_mono1) (use r3 in simp_all)
  then have e: "0 \<le> e" "e \<le> 4" using r3 by (simp_all add: e_def)
  have "c \<le> 36523 div 1461" unfolding c_def by (rule zdiv_mono1) (use r2 in simp_all)
  then have c: "0 \<le> c" "c \<le> 24" using r2 by (simp_all add: c_def)
  have "b \<le> 146096 div 36524" unfolding b_def by (rule zdiv_mono1) (use r1 in simp_all)
  then have b: "0 \<le> b" "b \<le> 4" using r1 by (simp_all add: b_def)
  have b4: "c = 0 \<and> e = 0 \<and> r4 = 0" if "b = 4"
  proof -
    from that r1 r2 have "r2 = 0" by linarith
    then show ?thesis by (simp add: c_def r3_def e_def r4_def)
  qed
  have e4: "c \<noteq> 24 \<and> r4 = 0" if "e = 4" using that r2 r3 r4 by linarith
  show thesis by (rule that [OF n o]) (use r4 e c b b4 e4 in simp_all)
qed

lemma ord2ymd_roundtrip: "case ord2ymd n of (y, m, d) \<Rightarrow> ymd2ord y m d = n"
proof (rule ord2ymd_decomp [of n], goal_cases)
  case (1 a b c e r4)
  note n = 1(1) and o = 1(2) and bd = 1(3-10) and b4 = 1(11) and e4 = 1(12)
  consider (century) "b = 4" | (quad) "e = 4" "b \<noteq> 4" | (main) "b \<le> 3" "e \<le> 3" using bd by linarith
  then show ?thesis
  proof cases
    case century
    with b4 have z: "c = 0" "e = 0" "r4 = 0" by simp_all
    have "ymd2ord (400 * a + 100 * 3 + 4 * 24 + 3 + 1) 12 31 = n"
      using days_before_year_decomp [of 3 24 3 a] is_leap_decomp [of 3 24 3 a] n century z
      by (simp add: ymd2ord_def days_before_month_def days_before_month_tbl_def)
    with o century z show ?thesis by (simp add: mult.commute)
  next
    case quad
    with e4 have z: "c \<noteq> 24" "r4 = 0" by simp_all
    have "ymd2ord (400 * a + 100 * b + 4 * c + 3 + 1) 12 31 = n"
      using days_before_year_decomp [of b c 3 a] is_leap_decomp [of b c 3 a] n quad z bd
      by (simp add: ymd2ord_def days_before_month_def days_before_month_tbl_def)
    with o quad z show ?thesis by (simp add: algebra_simps)
  next
    case main
    let ?l = "e = 3 \<and> (c \<noteq> 24 \<or> b = 3)"
    obtain m d where md: "month_of_day ?l r4 = (m, d)" by fastforce
    from month_of_day_ok [OF bd(1,2) md]
    have "days_before_month_tbl ! nat m + (if m > 2 \<and> ?l then 1 else 0) + d = r4 + 1" by simp
    moreover have "is_leap (400 * a + 100 * b + 4 * c + e + 1) = ?l"
      using is_leap_decomp [of b c e a] main bd by simp
    moreover have "days_before_year (400 * a + 100 * b + 4 * c + e + 1) = 146097 * a + 36524 * b + 1461 * c + 365 * e"
      using days_before_year_decomp [of b c e a] main bd by simp
    ultimately have "ymd2ord (400 * a + 100 * b + 4 * c + e + 1) m d = n"
      using n by (simp add: ymd2ord_def days_before_month_def)
    with o main md show ?thesis by (simp add: algebra_simps)
  qed
qed

lemma ord2ymd_bounds:
  assumes "ord2ymd n = (y, m, d)"
  shows "1 \<le> m \<and> m \<le> 12 \<and> 1 \<le> d \<and> d \<le> days_in_month y m"
proof (rule ord2ymd_decomp [of n], goal_cases)
  case (1 a b c e r4)
  note o = 1(2) and bd = 1(3-10)
  show ?case
  proof (cases "e = 4 \<or> b = 4")
    case True
    with o assms show ?thesis by (auto simp: days_in_month_def days_in_month_tbl_def)
  next
    case False
    let ?l = "e = 3 \<and> (c \<noteq> 24 \<or> b = 3)"
    from False o assms have md: "month_of_day ?l r4 = (m, d)" and y: "y = a * 400 + 1 + b * 100 + c * 4 + e"
      by (auto split: prod.splits)
    have "is_leap y = ?l" using is_leap_decomp [of b c e a] False bd y by (simp add: algebra_simps)
    with month_of_day_ok [OF bd(1,2) md] show ?thesis by (auto simp: days_in_month_def)
  qed
qed

lemma zero_pad2_digits:
  assumes "0 \<le> n" "n \<le> 99"
  shows "zero_pad2 n = [char_of (48 + nat n div 10), char_of (48 + nat n mod 10)]"
proof (cases "n < 10")
  case True
  have "CHR ''0'' = char_of (48::nat)" by code_simp
  with True assms show ?thesis by (simp add: zero_pad2_def show_int_def show_nat.simps)
next
  case False
  then have "\<not> nat n < 10" "nat n div 10 < 10" using assms by simp_all
  then show ?thesis using assms by (simp add: zero_pad2_def show_int_def show_nat.simps [of "nat n"] show_nat.simps [of "nat n div 10"])
qed

lemma days_in_month_le: "1 \<le> m \<Longrightarrow> m \<le> 12 \<Longrightarrow> days_in_month y m \<le> 31"
proof -
  assume "1 \<le> m" "m \<le> 12"
  then have "m \<in> set [1..12]" by simp
  moreover have "\<forall>k \<in> set [1..12]. days_in_month_tbl ! nat k \<le> 31" by code_simp
  ultimately show ?thesis by (auto simp: days_in_month_def)
qed

lemma of_char_digit: "k < 10 \<Longrightarrow> of_char (char_of (48 + k) :: char) = (48 + k :: nat)"
  by (simp add: of_char_of)

lemma char_digit_inj: "char_of (48 + k) = (char_of (48 + k') :: char) \<Longrightarrow> k < 10 \<Longrightarrow> k' < 10 \<Longrightarrow> k = (k'::nat)"
  using of_char_digit [of k] of_char_digit [of k'] by (metis add_left_cancel)

lemma zero_pad2_inj:
  assumes "0 \<le> a" "a \<le> 99" "0 \<le> b" "b \<le> 99" and "zero_pad2 a @ xs = zero_pad2 b @ ys"
  shows "a = b \<and> xs = ys"
proof -
  have da: "zero_pad2 a = [char_of (48 + nat a div 10), char_of (48 + nat a mod 10)]" by (rule zero_pad2_digits) (use assms in simp_all)
  have db: "zero_pad2 b = [char_of (48 + nat b div 10), char_of (48 + nat b mod 10)]" by (rule zero_pad2_digits) (use assms in simp_all)
  have e: "char_of (48 + nat a div 10) = (char_of (48 + nat b div 10) :: char)"
      "char_of (48 + nat a mod 10) = (char_of (48 + nat b mod 10) :: char)" "xs = ys"
    using assms(5) unfolding da db by (simp_all only: list.inject append_Cons append_Nil)
  have "nat a div 10 = nat b div 10" by (rule char_digit_inj [OF e(1)]) (use assms in simp_all)
  moreover have "nat a mod 10 = nat b mod 10" by (rule char_digit_inj [OF e(2)]) simp_all
  ultimately have "nat a = nat b" by (metis div_mod_decomp)
  with assms \<open>xs = ys\<close> show ?thesis by simp
qed

lemma datetime_fields_ok:
  assumes "datetime_fields t = (y, m, d, h, mi)"
  shows "ymd2ord y m d = dt_wall t div 86400000 + 719163 \<and>
         1 \<le> m \<and> m \<le> 12 \<and> 1 \<le> d \<and> d \<le> days_in_month y m \<and>
         0 \<le> h \<and> h \<le> 23 \<and> 0 \<le> mi \<and> mi \<le> 59 \<and>
         h * 3600000 + mi * 60000 \<le> dt_wall t mod 86400000 \<and>
         dt_wall t mod 86400000 < h * 3600000 + mi * 60000 + 60000"
proof -
  let ?D = "dt_wall t div 86400000 + 719163" and ?ms = "dt_wall t mod 86400000"
  from assms have o: "ord2ymd ?D = (y, m, d)" and hm: "h = ?ms div 3600000" "mi = ?ms mod 3600000 div 60000"
    by (auto simp: datetime_fields_def Let_def split: prod.splits)
  from ord2ymd_roundtrip [of ?D] o have "ymd2ord y m d = ?D" by simp
  moreover from ord2ymd_bounds [OF o] have "1 \<le> m \<and> m \<le> 12 \<and> 1 \<le> d \<and> d \<le> days_in_month y m" .
  moreover have "0 \<le> ?ms" "?ms < 86400000" by simp_all
  moreover have "?ms = 3600000 * h + ?ms mod 3600000" "0 \<le> ?ms mod 3600000" "?ms mod 3600000 < 3600000"
    unfolding hm by simp_all
  moreover have "?ms mod 3600000 = 60000 * mi + ?ms mod 3600000 mod 60000"
    "0 \<le> ?ms mod 3600000 mod 60000" "?ms mod 3600000 mod 60000 < 60000"
    unfolding hm by simp_all
  ultimately show ?thesis by linarith
qed

lemma format_time_display_fields:
  "\<exists>y m d h mi.
     format_time_display (Some t) = zero_pad2 m @ ''-'' @ zero_pad2 d @ '' '' @ zero_pad2 h @ '':'' @ zero_pad2 mi \<and>
     ymd2ord y m d = dt_wall t div 86400000 + 719163 \<and>
     1 \<le> m \<and> m \<le> 12 \<and> 1 \<le> d \<and> d \<le> days_in_month y m \<and>
     0 \<le> h \<and> h \<le> 23 \<and> 0 \<le> mi \<and> mi \<le> 59 \<and>
     h * 3600000 + mi * 60000 \<le> dt_wall t mod 86400000 \<and>
     dt_wall t mod 86400000 < h * 3600000 + mi * 60000 + 60000"
proof -
  obtain y m d h mi where f: "datetime_fields t = (y, m, d, h, mi)" by (cases "datetime_fields t") auto
  then have "format_time_display (Some t) = zero_pad2 m @ ''-'' @ zero_pad2 d @ '' '' @ zero_pad2 h @ '':'' @ zero_pad2 mi"
    by (simp add: format_time_display_def)
  with datetime_fields_ok [OF f] show ?thesis by blast
qed

lemma minute_of_day:
  assumes "h * 3600000 + mi * 60000 \<le> ms" "ms < h * 3600000 + mi * 60000 + (60000::int)"
  shows "ms div 60000 = 60 * h + mi"
proof -
  have "ms = 60000 * (60 * h + mi) + (ms - 60000 * (60 * h + mi))" by simp
  moreover have "0 \<le> ms - 60000 * (60 * h + mi)" "ms - 60000 * (60 * h + mi) < 60000" using assms by simp_all
  ultimately show ?thesis using div_mod_unique_int [of "ms - 60000 * (60 * h + mi)" 60000 "60 * h + mi"] by simp
qed

lemma time_display_minute:
  assumes "format_time_display (Some t) = format_time_display (Some t')"
  shows "dt_wall t mod 86400000 div 60000 = dt_wall t' mod 86400000 div 60000"
proof -
  from format_time_display_fields [of t] obtain y m d h mi where
    a: "format_time_display (Some t) = zero_pad2 m @ ''-'' @ zero_pad2 d @ '' '' @ zero_pad2 h @ '':'' @ zero_pad2 mi"
    and a2: "1 \<le> m \<and> m \<le> 12 \<and> 1 \<le> d \<and> d \<le> days_in_month y m \<and> 0 \<le> h \<and> h \<le> 23 \<and> 0 \<le> mi \<and> mi \<le> 59 \<and>
      h * 3600000 + mi * 60000 \<le> dt_wall t mod 86400000 \<and> dt_wall t mod 86400000 < h * 3600000 + mi * 60000 + 60000"
    by blast
  from format_time_display_fields [of t'] obtain y' m' d' h' mi' where
    b: "format_time_display (Some t') = zero_pad2 m' @ ''-'' @ zero_pad2 d' @ '' '' @ zero_pad2 h' @ '':'' @ zero_pad2 mi'"
    and b2: "1 \<le> m' \<and> m' \<le> 12 \<and> 1 \<le> d' \<and> d' \<le> days_in_month y' m' \<and> 0 \<le> h' \<and> h' \<le> 23 \<and> 0 \<le> mi' \<and> mi' \<le> 59 \<and>
      h' * 3600000 + mi' * 60000 \<le> dt_wall t' mod 86400000 \<and> dt_wall t' mod 86400000 < h' * 3600000 + mi' * 60000 + 60000"
    by blast
  have "d \<le> 31" "d' \<le> 31" using a2 b2 days_in_month_le [of m y] days_in_month_le [of m' y'] by simp_all
  have bd: "0 \<le> m" "m \<le> 99" "0 \<le> m'" "m' \<le> 99" "0 \<le> d" "d \<le> 99" "0 \<le> d'" "d' \<le> 99"
    "0 \<le> h" "h \<le> 99" "0 \<le> h'" "h' \<le> 99" "0 \<le> mi" "mi \<le> 99" "0 \<le> mi'" "mi' \<le> 99"
    using a2 b2 \<open>d \<le> 31\<close> \<open>d' \<le> 31\<close> by simp_all
  from assms a b have "zero_pad2 m @ ''-'' @ zero_pad2 d @ '' '' @ zero_pad2 h @ '':'' @ zero_pad2 mi =
                       zero_pad2 m' @ ''-'' @ zero_pad2 d' @ '' '' @ zero_pad2 h' @ '':'' @ zero_pad2 mi'" by (simp only:)
  from conjunct2 [OF zero_pad2_inj [OF bd(1-4) this]]
  have "zero_pad2 d @ '' '' @ zero_pad2 h @ '':'' @ zero_pad2 mi = zero_pad2 d' @ '' '' @ zero_pad2 h' @ '':'' @ zero_pad2 mi'"
    by (simp only: same_append_eq)
  from conjunct2 [OF zero_pad2_inj [OF bd(5-8) this]]
  have "zero_pad2 h @ '':'' @ zero_pad2 mi = zero_pad2 h' @ '':'' @ zero_pad2 mi'"
    by (simp only: same_append_eq)
  from zero_pad2_inj [OF bd(9-12) this]
  have "h = h' \<and> zero_pad2 mi @ [] = zero_pad2 mi' @ []"
    by (simp only: same_append_eq append_Nil2)
  with zero_pad2_inj [OF bd(13-16)] have "h = h' \<and> mi = mi'" by blast
  with a2 b2 minute_of_day [of h mi "dt_wall t mod 86400000"] minute_of_day [of h' mi' "dt_wall t' mod 86400000"]
  show ?thesis by simp
qed

lemma zero_pad2_shape:
  assumes "0 \<le> n" "n \<le> 99"
  shows "length (zero_pad2 n) = 2 \<and> list_all digit_char (zero_pad2 n)"
proof -
  have "nat n div 10 < 10" "nat n mod 10 < 10" using assms by simp_all
  with zero_pad2_digits [OF assms] show ?thesis
    by (simp add: digit_char_def of_char_digit)
qed

end
