(* ===== verification/Forum_Ops.thy ===== *)
theory Forum_Ops
  imports Forum_State Time_Display
begin

text \<open>
  The eight handlers of src/app/services/https/ForumManager.py that the API exposes, each a
  function from the clock, its arguments and the world to its result and the new world.
  Every handler but \<open>get_post_comments\<close> starts with the lazy guard
  \<open>ensure_initialized\<close>, whose effect stays even when a later step fails. A handler's
  outer \<open>try\<close> turns a raised exception into a failure result: such a result is returned
  with the state reached when the exception was raised (memory mutations are not undone).
  A failure carries the handler's message (\<open>Msg\<close>) or stands for \<open>str(e)\<close> of a caught
  exception (\<open>Raised\<close>). A post item carries its \<open>time_display\<close>, computed by
  \<open>format_time_display\<close> of theory \<open>Time_Display\<close>.
\<close>

datatype failure = Msg string | Raised

datatype like_result = LikeOk string int bool | LikeFail failure

datatype comment_result = CommentOk int | CommentFail failure

record post_item =
  pi_post_id :: int
  pi_post_content :: string
  pi_post_type :: string
  pi_creator_user_id :: user_id
  pi_creator_user_name :: string
  pi_media_files :: "media_file list"
  pi_like_count :: int
  pi_comment_count :: int
  pi_view_count :: int
  pi_is_liked :: bool
  pi_post_category :: string
  pi_tags :: "string list"
  pi_created_at :: "datetime option"
  pi_time_display :: string

record posts_page =
  pp_success :: bool
  pp_posts :: "post_item list"
  pp_has_more :: bool

datatype detail_result = DetailOk post_item | DetailFail failure

record comment_item =
  ci_comment_id :: int
  ci_comment_content :: string
  ci_commenter_user_id :: user_id
  ci_commenter_user_name :: string
  ci_like_count :: int
  ci_is_liked :: bool
  ci_created_at :: "datetime option"

record comments_page =
  cp_success :: bool
  cp_comments :: "comment_item list"
  cp_has_more :: bool

subsection \<open>Shared pieces of the handlers\<close>

text \<open>The projection every post listing builds, with \<open>is_liked\<close> from the viewer's stored set.\<close>

definition post_item :: "int list \<Rightarrow> post \<Rightarrow> post_item" where
  "post_item liked p =
     \<lparr>pi_post_id = post.post_id p, pi_post_content = post_content p, pi_post_type = post_type p,
      pi_creator_user_id = creator_user_id p, pi_creator_user_name = creator_user_name p,
      pi_media_files = media_files p, pi_like_count = post.like_count p,
      pi_comment_count = comment_count p, pi_view_count = view_count p,
      pi_is_liked = (post.post_id p \<in> set liked), pi_post_category = post_category p,
      pi_tags = tags p, pi_created_at = post.created_at p,
      pi_time_display = format_time_display (post.created_at p)\<rparr>"

text \<open>
  \<open>find_one("users", {"_id": u})\<close> and \<open>set(user_doc.get("liked_post_ids", []))\<close>:
  \<open>None\<close> when the query raises, the empty list when the viewer has no document.
\<close>

definition viewer_liked :: "world \<Rightarrow> user_id \<Rightarrow> int list option" where
  "viewer_liked w u =
     (case find_one (db_up (db w)) (db_users (db w)) u of
        None \<Rightarrow> None
      | Some None \<Rightarrow> Some []
      | Some (Some d) \<Rightarrow> Some (ud_liked_post_ids d))"

definition published_posts :: "world \<Rightarrow> post list" where
  "published_posts w = filter (\<lambda>p. post_status p = ''published'') (dict_values (posts_dict w))"

text \<open>
  Sort keys: \<open>_ensure_aware_datetime(created_at) or datetime.min\<close> read as an instant,
  \<open>None\<close> standing for \<open>datetime.min\<close> (below every instant); the hot key is the tuple
  \<open>(like_count, comment_count, time)\<close>, compared lexicographically.
\<close>

definition time_key :: "post \<Rightarrow> int option" where
  "time_key p = map_option dt_instant (ensure_aware_datetime (post.created_at p))"

definition hot_key :: "post \<Rightarrow> int \<times> int \<times> int option" where
  "hot_key p = (post.like_count p, comment_count p, time_key p)"

definition page_bounds :: "int \<Rightarrow> int \<Rightarrow> int \<times> int" where
  "page_bounds page page_size = (let skip = max 0 ((page - 1) * page_size) in (skip, skip + page_size))"

subsection \<open>Posts\<close>

definition create_post ::
  "int \<Rightarrow> user_id \<Rightarrow> string \<Rightarrow> string \<Rightarrow> string \<Rightarrow> string list option \<Rightarrow> media_file list option \<Rightarrow>
   world \<Rightarrow> int option \<times> world" where
  "create_post now creator content ptype category tgs media w =
     (let w1 = ensure_initialized now w in
      case users w1 creator of
        None \<Rightarrow> (None, w1)
      | Some u \<Rightarrow>
          (case Post_init (post_seq w1) now (user_id u) (py_or_str (telegram_user_name u) (user_id u))
                  content (py_or_str (Some ptype) ''text'') category (Some (py_get tgs []))
                  (Some (py_get media [])) of
             Inl _ \<Rightarrow> (None, w1)
           | Inr (p, s') \<Rightarrow>
               (let pid = post.post_id p;
                    w2 = w1\<lparr>post_seq := s', posts_dict := dict_set (posts_dict w1) pid p,
                            users := (users w1)(creator \<mapsto> add_post pid u)\<rparr>
                in case users_add_to_set (db w2) (user_id u) PostIds pid of
                     None \<Rightarrow> (Some pid, w2)
                   | Some (_, d') \<Rightarrow> (Some pid, w2\<lparr>db := d'\<rparr>))))"

definition get_posts_list :: "int \<Rightarrow> user_id \<Rightarrow> string \<Rightarrow> int \<Rightarrow> int \<Rightarrow> world \<Rightarrow> posts_page \<times> world" where
  "get_posts_list now u sort_type page page_size w =
     (let w1 = ensure_initialized now w;
          (ps, w2) = (if published_posts w1 = []
                      then (let w' = snd (force_reinitialize now w1) in (published_posts w', w'))
                      else (published_posts w1, w1));
          sorted = (if sort_type = ''hot'' then py_sort_desc hot_key ps else py_sort_desc time_key ps);
          (skip, end_index) = page_bounds page page_size;
          page_posts = py_slice sorted skip end_index
      in case viewer_liked w2 u of
           None \<Rightarrow> (\<lparr>pp_success = False, pp_posts = [], pp_has_more = False\<rparr>, w2)
         | Some liked \<Rightarrow>
             (\<lparr>pp_success = True, pp_posts = map (post_item liked) page_posts,
               pp_has_more = (end_index < int (length sorted))\<rparr>, w2))"

definition toggle_post_like :: "int \<Rightarrow> user_id \<Rightarrow> int \<Rightarrow> string \<Rightarrow> world \<Rightarrow> like_result \<times> world" where
  "toggle_post_like now u pid action w =
     (let w1 = ensure_initialized now w in
      case dict_get (posts_dict w1) pid of
        None \<Rightarrow> (LikeFail (Msg ''post not found''), w1)
      | Some p \<Rightarrow>
          (if action = ''like'' then
             (let p' = post_like now u p;
                  w2 = w1\<lparr>posts_dict := dict_set (posts_dict w1) pid p'\<rparr>
              in case users_add_to_set (db w2) u LikedPostIds pid of
                   None \<Rightarrow> (LikeFail Raised, w2)
                 | Some (n, d') \<Rightarrow>
                     (let w3 = w2\<lparr>db := d'\<rparr>;
                          w4 = (if 0 < n then (case users w3 u of
                                                 None \<Rightarrow> w3
                                               | Some usr \<Rightarrow> w3\<lparr>users := (users w3)(u \<mapsto> add_liked_post pid usr)\<rparr>)
                                else w3)
                      in (LikeOk action (post.like_count p') True, w4)))
           else
             (let p' = post_unlike now u p;
                  w2 = w1\<lparr>posts_dict := dict_set (posts_dict w1) pid p'\<rparr>
              in case users_pull (db w2) u LikedPostIds pid of
                   None \<Rightarrow> (LikeFail Raised, w2)
                 | Some (n, d') \<Rightarrow>
                     (let w3 = w2\<lparr>db := d'\<rparr>;
                          w4 = (if 0 < n then (case users w3 u of
                                                 None \<Rightarrow> w3
                                               | Some usr \<Rightarrow> w3\<lparr>users := (users w3)(u \<mapsto> remove_liked_post pid usr)\<rparr>)
                                else w3)
                      in (LikeOk action (post.like_count p') False, w4)))))"

text \<open>\<open>search_posts\<close>: case-insensitive substring match on the content or any tag, newest first.\<close>

definition post_matches :: "string \<Rightarrow> post \<Rightarrow> bool" where
  "post_matches q p \<longleftrightarrow>
     py_in_str (py_lower q) (py_lower (post_content p)) \<or>
     list_ex (\<lambda>t. py_in_str (py_lower q) (py_lower t)) (tags p)"

definition search_posts :: "int \<Rightarrow> user_id \<Rightarrow> string \<Rightarrow> int \<Rightarrow> int \<Rightarrow> world \<Rightarrow> posts_page \<times> world" where
  "search_posts now u q page page_size w =
     (let w1 = ensure_initialized now w;
          matched = filter (post_matches q) (published_posts w1);
          (skip, end_index) = page_bounds page page_size;
          sorted = py_sort_desc time_key matched;
          page_posts = py_slice sorted skip end_index
      in case viewer_liked w1 u of
           None \<Rightarrow> (\<lparr>pp_success = False, pp_posts = [], pp_has_more = False\<rparr>, w1)
         | Some liked \<Rightarrow>
             (\<lparr>pp_success = True, pp_posts = map (post_item liked) page_posts,
               pp_has_more = (end_index < int (length matched))\<rparr>, w1))"

definition get_post_detail :: "int \<Rightarrow> user_id \<Rightarrow> int \<Rightarrow> world \<Rightarrow> detail_result \<times> world" where
  "get_post_detail now u pid w =
     (let w1 = ensure_initialized now w in
      case dict_get (posts_dict w1) pid of
        None \<Rightarrow> (DetailFail (Msg ''post not found''), w1)
      | Some p \<Rightarrow>
          (case viewer_liked w1 u of
             None \<Rightarrow> (DetailFail (Msg ''internal error''), w1)
           | Some liked \<Rightarrow> (DetailOk (post_item liked p), w1)))"

subsection \<open>Comments\<close>

definition create_comment :: "int \<Rightarrow> user_id \<Rightarrow> int \<Rightarrow> string \<Rightarrow> world \<Rightarrow> comment_result \<times> world" where
  "create_comment now u pid content w =
     (let w1 = ensure_initialized now w in
      case users w1 u of
        None \<Rightarrow> (CommentFail (Msg ''user not found''), w1)
      | Some usr \<Rightarrow>
          (case dict_get (posts_dict w1) pid of
             None \<Rightarrow> (CommentFail (Msg ''post not found''), w1)
           | Some p \<Rightarrow>
               (case Comment_init (comment_seq w1) now (user_id usr)
                       (py_or_str (telegram_user_name usr) (user_id usr)) (Some pid) content of
                  Inl _ \<Rightarrow> (CommentFail Raised, w1)
                | Inr (c, s') \<Rightarrow>
                    (let cid = comment_id c;
                         p' = p\<lparr>comment_ids := comment_ids p @ [cid], comment_count := comment_count p + 1,
                                updated_at := Some (utc_now now)\<rparr>
                     in (CommentOk cid,
                         w1\<lparr>comment_seq := s', comments_dict := dict_set (comments_dict w1) cid c,
                            posts_dict := dict_set (posts_dict w1) pid p'\<rparr>)))))"

text \<open>
  \<open>post_comments.sort(key=lambda x: x.created_at)\<close> compares the timestamps themselves:
  with two or more comments it raises unless all are aware or all are naive (\<open>None\<close>
  compares with nothing). When it does not raise, aware values order by instant and naive
  ones by wall clock, which \<open>dt_instant\<close> gives in both cases.
\<close>

definition py_dt_sortable :: "datetime option list \<Rightarrow> bool" where
  "py_dt_sortable ds \<longleftrightarrow>
     length ds < 2 \<or> list_all is_aware ds \<or> list_all (\<lambda>d. d \<noteq> None \<and> \<not> is_aware d) ds"

definition comment_item :: "user_id \<Rightarrow> comment \<Rightarrow> comment_item" where
  "comment_item u c =
     \<lparr>ci_comment_id = comment_id c, ci_comment_content = comment_content c,
      ci_commenter_user_id = commenter_user_id c, ci_commenter_user_name = commenter_user_name c,
      ci_like_count = comment.like_count c, ci_is_liked = (u \<in> set (comment.liked_user_ids c)),
      ci_created_at = comment.created_at c\<rparr>"

definition get_post_comments :: "int \<Rightarrow> user_id \<Rightarrow> int \<Rightarrow> int \<Rightarrow> world \<Rightarrow> comments_page" where
  "get_post_comments pid u page page_size w =
     (let (skip, end_index) = page_bounds page page_size;
          pcs = filter (\<lambda>c. comment.post_id c = Some pid \<and> comment_status c = ''published'')
                       (dict_values (comments_dict w))
      in if \<not> py_dt_sortable (map comment.created_at pcs)
         then \<lparr>cp_success = False, cp_comments = [], cp_has_more = False\<rparr>
         else
           (let sorted = sort_key (\<lambda>c. map_option dt_instant (comment.created_at c)) pcs
            in \<lparr>cp_success = True, cp_comments = map (comment_item u) (py_slice sorted skip end_index),
                cp_has_more = (end_index < int (length sorted))\<rparr>))"

definition toggle_comment_like :: "int \<Rightarrow> user_id \<Rightarrow> int \<Rightarrow> string \<Rightarrow> world \<Rightarrow> like_result \<times> world" where
  "toggle_comment_like now u cid action w =
     (let w1 = ensure_initialized now w in
      case dict_get (comments_dict w1) cid of
        None \<Rightarrow> (LikeFail (Msg ''comment not found''), w1)
      | Some c \<Rightarrow>
          (let c' = (if action = ''like'' then comment_like u c else comment_unlike u c)
           in (LikeOk action (comment.like_count c') (action = ''like''),
               w1\<lparr>comments_dict := dict_set (comments_dict w1) cid c'\<rparr>)))"

subsection \<open>Invariant of the core\<close>

text \<open>
  \<open>core_inv\<close>: both dictionaries keyed and the memory invariant; \<open>seqs_le\<close>: neither
  sequencer went backwards.
\<close>

definition core_inv :: "world \<Rightarrow> bool" where
  "core_inv w \<longleftrightarrow> posts_keyed w \<and> comments_keyed w \<and> mem_inv w"

definition seqs_le :: "world \<Rightarrow> world \<Rightarrow> bool" where
  "seqs_le w w' \<longleftrightarrow> seq_le (post_seq w) (post_seq w') \<and> seq_le (comment_seq w) (comment_seq w')"

text \<open>The user registry after a like toggle: each entry is the old one, possibly with the post
  added to or removed from its liked list.\<close>

definition users_like_step :: "int \<Rightarrow> (user_id \<rightharpoonup> user) \<Rightarrow> (user_id \<rightharpoonup> user) \<Rightarrow> bool" where
  "users_like_step pid us us' \<longleftrightarrow>
     (\<forall>x v. us' x = Some v \<longrightarrow> (\<exists>v0. us x = Some v0 \<and> v \<in> {v0, add_liked_post pid v0, remove_liked_post pid v0}))"

subsection \<open>Each handler keeps the invariant\<close>

lemma seqs_le_refl [simp]: "seqs_le w w"
  by (simp add: seqs_le_def)

lemma seqs_le_trans: "seqs_le a b \<Longrightarrow> seqs_le b c \<Longrightarrow> seqs_le a c"
  by (auto simp: seqs_le_def intro: seq_le_trans)

lemma ensure_initialized_core:
  "core_inv w \<Longrightarrow> core_inv (ensure_initialized now w) \<and> seqs_le w (ensure_initialized now w)"
  using ensure_initialized_keyed [of w now] ensure_initialized_mem_inv [of w now]
  by (simp add: core_inv_def seqs_le_def)

lemma mem_inv_set_post: "mem_inv w \<Longrightarrow> post_inv p \<Longrightarrow> mem_inv (w\<lparr>posts_dict := dict_set (posts_dict w) k p\<rparr>)"
  by (auto simp: mem_inv_def dest: dict_values_set_elem)

lemma mem_inv_set_comment:
  "mem_inv w \<Longrightarrow> comment_inv c \<Longrightarrow> mem_inv (w\<lparr>comments_dict := dict_set (comments_dict w) k c\<rparr>)"
  by (auto simp: mem_inv_def dest: dict_values_set_elem)

lemma mem_inv_set_user: "mem_inv w \<Longrightarrow> user_inv u \<Longrightarrow> mem_inv (w\<lparr>users := (users w)(x \<mapsto> u)\<rparr>)"
  by (auto simp: mem_inv_def)

lemma mem_inv_db:
  "mem_inv w \<Longrightarrow> db_posts d = db_posts (db w) \<Longrightarrow> db_comments d = db_comments (db w) \<Longrightarrow> mem_inv (w\<lparr>db := d\<rparr>)"
  by (simp add: mem_inv_def)

lemma mem_inv_get_post: "mem_inv w \<Longrightarrow> dict_get (posts_dict w) k = Some p \<Longrightarrow> post_inv p"
  by (auto simp: mem_inv_def dest: dict_get_Some_in)

lemma mem_inv_get_comment: "mem_inv w \<Longrightarrow> dict_get (comments_dict w) k = Some c \<Longrightarrow> comment_inv c"
  by (auto simp: mem_inv_def dest: dict_get_Some_in)

lemma mem_inv_get_user: "mem_inv w \<Longrightarrow> users w x = Some u \<Longrightarrow> user_inv u"
  by (simp add: mem_inv_def)

lemma toggle_comment_like_core:
  assumes "toggle_comment_like now u cid action w = (r, w')" and "core_inv w"
  shows "core_inv w' \<and> seqs_le w w'"
proof -
  let ?w1 = "ensure_initialized now w"
  from ensure_initialized_core [OF assms(2)] have i1: "core_inv ?w1" and s1: "seqs_le w ?w1" by simp_all
  show ?thesis
  proof (cases "dict_get (comments_dict ?w1) cid")
    case None
    with assms(1) i1 s1 show ?thesis by (simp add: toggle_comment_like_def Let_def)
  next
    case (Some c)
    let ?c' = "if action = ''like'' then comment_like u c else comment_unlike u c"
    from i1 Some have "comment_id c = cid" "cid \<le> counter (comment_seq ?w1)" "comment_inv c"
      by (auto simp: core_inv_def dest: keyed_get mem_inv_get_comment)
    then have "comment_id ?c' = cid" "comment_inv ?c'"
      by (simp_all add: comment_like_inv comment_unlike_inv)
    with i1 \<open>cid \<le> counter (comment_seq ?w1)\<close>
    have "core_inv (?w1\<lparr>comments_dict := dict_set (comments_dict ?w1) cid ?c'\<rparr>)"
      by (auto simp: core_inv_def intro: keyed_set mem_inv_set_comment)
    moreover from assms(1) Some have "w' = ?w1\<lparr>comments_dict := dict_set (comments_dict ?w1) cid ?c'\<rparr>"
      by (simp add: toggle_comment_like_def Let_def)
    ultimately show ?thesis using s1 by (simp add: seqs_le_def)
  qed
qed

lemma create_post_None: "create_post now c ct ty cat tg m w = (None, w') \<Longrightarrow> w' = ensure_initialized now w"
  by (auto simp: create_post_def Let_def split: option.splits sum.splits)

lemma create_post_SomeE:
  assumes "create_post now c ct ty cat tg m w = (Some pid, w')"
  obtains u p s' where "users (ensure_initialized now w) c = Some u"
    "Post_init (post_seq (ensure_initialized now w)) now (user_id u) (py_or_str (telegram_user_name u) (user_id u))
       ct (py_or_str (Some ty) ''text'') cat (Some (py_get tg [])) (Some (py_get m [])) = Inr (p, s')"
    "pid = post.post_id p"
    "posts_dict w' = dict_set (posts_dict (ensure_initialized now w)) pid p" "post_seq w' = s'"
    "comments_dict w' = comments_dict (ensure_initialized now w)"
    "comment_seq w' = comment_seq (ensure_initialized now w)"
    "users w' = (users (ensure_initialized now w))(c \<mapsto> add_post pid u)"
    "db_posts (db w') = db_posts (db (ensure_initialized now w))"
    "db_comments (db w') = db_comments (db (ensure_initialized now w))"
proof -
  let ?w1 = "ensure_initialized now w"
  obtain u where u: "users ?w1 c = Some u"
    using assms by (cases "users ?w1 c") (simp_all add: create_post_def Let_def)
  let ?pi = "Post_init (post_seq ?w1) now (user_id u) (py_or_str (telegram_user_name u) (user_id u))
       ct (py_or_str (Some ty) ''text'') cat (Some (py_get tg [])) (Some (py_get m []))"
  obtain p s' where pi: "?pi = Inr (p, s')"
    using assms u by (cases ?pi) (auto simp: create_post_def Let_def)
  let ?w2 = "?w1\<lparr>post_seq := s', posts_dict := dict_set (posts_dict ?w1) (post.post_id p) p,
                 users := (users ?w1)(c \<mapsto> add_post (post.post_id p) u)\<rparr>"
  show thesis
  proof (cases "users_add_to_set (db ?w2) (user_id u) PostIds (post.post_id p)")
    case None
    with u pi have "create_post now c ct ty cat tg m w = (Some (post.post_id p), ?w2)"
      by (simp add: create_post_def Let_def)
    then have "(Some pid, w') = (Some (post.post_id p), ?w2)" by (simp only: assms)
    then have "pid = post.post_id p" "w' = ?w2" by (simp_all only: prod.inject option.inject)
    with u pi show thesis by (intro that) auto
  next
    case (Some r)
    obtain n d' where r: "r = (n, d')" by (cases r)
    with u pi Some have "create_post now c ct ty cat tg m w = (Some (post.post_id p), ?w2\<lparr>db := d'\<rparr>)"
      by (simp add: create_post_def Let_def)
    then have "(Some pid, w') = (Some (post.post_id p), ?w2\<lparr>db := d'\<rparr>)" by (simp only: assms)
    then have "pid = post.post_id p" "w' = ?w2\<lparr>db := d'\<rparr>" by (simp_all only: prod.inject option.inject)
    moreover from Some r have "db_posts d' = db_posts (db ?w2) \<and> db_comments d' = db_comments (db ?w2)"
      by (auto dest: users_add_to_set_frame)
    ultimately show thesis using u pi by (intro that) auto
  qed
qed

lemma create_post_core:
  assumes cp: "create_post now c ct ty cat tg m w = (r, w')" and inv: "core_inv w"
  shows "core_inv w' \<and> seqs_le w w' \<and>
         (\<forall>pid. r = Some pid \<longrightarrow>
            pid = counter (post_seq (ensure_initialized now w)) + 1 \<and> pid = counter (post_seq w') \<and>
            initialized (post_seq w') \<and>
            dict_keys (posts_dict w') = dict_keys (posts_dict (ensure_initialized now w)) @ [pid])"
proof (cases r)
  case None
  with cp have "w' = ensure_initialized now w" by (simp add: create_post_None)
  with ensure_initialized_core [OF inv] None show ?thesis by simp
next
  case (Some pid)
  let ?w1 = "ensure_initialized now w"
  from ensure_initialized_core [OF inv] have i1: "core_inv ?w1" and s1: "seqs_le w ?w1" by simp_all
  from cp [unfolded Some] obtain u p s' where u: "users ?w1 c = Some u"
    and pi: "Post_init (post_seq ?w1) now (user_id u) (py_or_str (telegram_user_name u) (user_id u))
       ct (py_or_str (Some ty) ''text'') cat (Some (py_get tg [])) (Some (py_get m [])) = Inr (p, s')"
    and pid: "pid = post.post_id p" and w': "posts_dict w' = dict_set (posts_dict ?w1) pid p" "post_seq w' = s'"
      "comments_dict w' = comments_dict ?w1" "comment_seq w' = comment_seq ?w1"
      "users w' = (users ?w1)(c \<mapsto> add_post pid u)"
      "db_posts (db w') = db_posts (db ?w1)" "db_comments (db w') = db_comments (db ?w1)"
    by (rule create_post_SomeE)
  from Post_init_Inr [OF pi] pid have p1: "pid = counter (post_seq ?w1) + 1" "s' = post_seq ?w1\<lparr>counter := pid\<rparr>"
    "initialized (post_seq ?w1)" by simp_all
  from Post_init_inv [OF pi] have p2: "post_inv p" "length (tags p) \<le> 3" by simp_all
  from i1 have "posts_keyed ?w1" by (simp add: core_inv_def)
  from keyed_fresh [OF this] p1 have fresh: "pid \<notin> set (dict_keys (posts_dict ?w1))" by simp
  from i1 have "posts_keyed (?w1\<lparr>post_seq := s'\<rparr>)"
    by (auto simp: core_inv_def p1 intro: keyed_mono)
  with pid p1 p2 w' have k: "posts_keyed w'"
    by (auto intro: keyed_set)
  from i1 w' have kc: "comments_keyed w'" by (simp add: core_inv_def)
  from i1 u have "user_inv (add_post pid u)"
    by (auto simp: core_inv_def intro: user_inv_ops mem_inv_get_user)
  with i1 p2 w' have "mem_inv w'"
    by (auto simp: core_inv_def mem_inv_def dest: dict_values_set_elem mem_inv_get_user)
  with k kc have "core_inv w'" by (simp add: core_inv_def)
  moreover from s1 p1 w' have "seqs_le w w'"
    by (auto simp: seqs_le_def seq_le_def intro: seq_le_trans)
  moreover from fresh w' p1 have "dict_keys (posts_dict w') = dict_keys (posts_dict ?w1) @ [pid]"
    by (simp add: dict_set_keys_new)
  ultimately show ?thesis using Some p1 w' by simp
qed

lemma toggle_post_like_cases:
  assumes "toggle_post_like now u pid action w = (r, w')"
  shows "w' = ensure_initialized now w \<or>
    (\<exists>p. dict_get (posts_dict (ensure_initialized now w)) pid = Some p \<and>
       posts_dict w' = dict_set (posts_dict (ensure_initialized now w)) pid
                         (if action = ''like'' then post_like now u p else post_unlike now u p) \<and>
       post_seq w' = post_seq (ensure_initialized now w) \<and>
       comments_dict w' = comments_dict (ensure_initialized now w) \<and>
       comment_seq w' = comment_seq (ensure_initialized now w) \<and>
       db_posts (db w') = db_posts (db (ensure_initialized now w)) \<and>
       db_comments (db w') = db_comments (db (ensure_initialized now w)) \<and>
       users_like_step pid (users (ensure_initialized now w)) (users w'))"
  using assms
  by (auto simp: toggle_post_like_def Let_def users_like_step_def
           split: option.splits if_splits prod.splits dest: users_add_to_set_frame users_pull_frame)

lemma users_like_step_inv:
  "users_like_step pid us us' \<Longrightarrow> \<forall>x u. us x = Some u \<longrightarrow> user_inv u \<Longrightarrow> us' x = Some v \<Longrightarrow> user_inv v"
  unfolding users_like_step_def by (fastforce intro: user_inv_ops)

lemma toggle_post_like_core:
  assumes tp: "toggle_post_like now u pid action w = (r, w')" and inv: "core_inv w"
  shows "core_inv w' \<and> seqs_le w w'"
proof -
  let ?w1 = "ensure_initialized now w"
  from ensure_initialized_core [OF inv] have i1: "core_inv ?w1" and s1: "seqs_le w ?w1" by simp_all
  from toggle_post_like_cases [OF tp] show ?thesis
  proof
    assume "w' = ?w1"
    with i1 s1 show ?thesis by simp
  next
    assume "\<exists>p. dict_get (posts_dict ?w1) pid = Some p \<and>
       posts_dict w' = dict_set (posts_dict ?w1) pid (if action = ''like'' then post_like now u p else post_unlike now u p) \<and>
       post_seq w' = post_seq ?w1 \<and> comments_dict w' = comments_dict ?w1 \<and> comment_seq w' = comment_seq ?w1 \<and>
       db_posts (db w') = db_posts (db ?w1) \<and> db_comments (db w') = db_comments (db ?w1) \<and>
       users_like_step pid (users ?w1) (users w')"
    then obtain p where g: "dict_get (posts_dict ?w1) pid = Some p"
      and w': "posts_dict w' = dict_set (posts_dict ?w1) pid (if action = ''like'' then post_like now u p else post_unlike now u p)"
        "post_seq w' = post_seq ?w1" "comments_dict w' = comments_dict ?w1" "comment_seq w' = comment_seq ?w1"
        "db_posts (db w') = db_posts (db ?w1)" "db_comments (db w') = db_comments (db ?w1)"
        "users_like_step pid (users ?w1) (users w')"
      by blast
    let ?p' = "if action = ''like'' then post_like now u p else post_unlike now u p"
    from i1 g have "post.post_id p = pid" "pid \<le> counter (post_seq ?w1)" "length (tags p) \<le> 3" "post_inv p"
      by (auto simp: core_inv_def dest: keyed_get mem_inv_get_post)
    then have p': "post.post_id ?p' = pid" "length (tags ?p') \<le> 3" "post_inv ?p'"
      by (simp_all add: post_like_inv post_unlike_inv)
    with i1 w' \<open>pid \<le> counter (post_seq ?w1)\<close> have "posts_keyed w'" "comments_keyed w'"
      by (auto simp: core_inv_def intro: keyed_set)
    moreover from i1 w' p' have "mem_inv w'"
      by (auto simp: core_inv_def mem_inv_def dest: dict_values_set_elem
               intro: users_like_step_inv [of pid "users ?w1" "users w'"])
    ultimately show ?thesis using s1 w' by (simp add: core_inv_def seqs_le_def)
  qed
qed

lemma create_comment_cases:
  assumes "create_comment now u pid content w = (r, w')"
  shows "w' = ensure_initialized now w \<or>
    (\<exists>usr p c s'. users (ensure_initialized now w) u = Some usr \<and>
       dict_get (posts_dict (ensure_initialized now w)) pid = Some p \<and>
       Comment_init (comment_seq (ensure_initialized now w)) now (user_id usr)
         (py_or_str (telegram_user_name usr) (user_id usr)) (Some pid) content = Inr (c, s') \<and>
       r = CommentOk (comment_id c) \<and>
       w' = (ensure_initialized now w)\<lparr>comment_seq := s',
              comments_dict := dict_set (comments_dict (ensure_initialized now w)) (comment_id c) c,
              posts_dict := dict_set (posts_dict (ensure_initialized now w)) pid
                 (p\<lparr>comment_ids := comment_ids p @ [comment_id c], comment_count := comment_count p + 1,
                     updated_at := Some (utc_now now)\<rparr>)\<rparr>)"
  using assms
  by (auto simp: create_comment_def Let_def split: option.splits sum.splits prod.splits)

lemma create_comment_core:
  assumes cc: "create_comment now u pid content w = (r, w')" and inv: "core_inv w"
  shows "core_inv w' \<and> seqs_le w w'"
proof -
  let ?w1 = "ensure_initialized now w"
  from ensure_initialized_core [OF inv] have i1: "core_inv ?w1" and s1: "seqs_le w ?w1" by simp_all
  from create_comment_cases [OF cc] show ?thesis
  proof
    assume "w' = ?w1"
    with i1 s1 show ?thesis by simp
  next
    assume "\<exists>usr p c s'. users ?w1 u = Some usr \<and> dict_get (posts_dict ?w1) pid = Some p \<and>
       Comment_init (comment_seq ?w1) now (user_id usr)
         (py_or_str (telegram_user_name usr) (user_id usr)) (Some pid) content = Inr (c, s') \<and>
       r = CommentOk (comment_id c) \<and>
       w' = ?w1\<lparr>comment_seq := s', comments_dict := dict_set (comments_dict ?w1) (comment_id c) c,
              posts_dict := dict_set (posts_dict ?w1) pid
                 (p\<lparr>comment_ids := comment_ids p @ [comment_id c], comment_count := comment_count p + 1,
                     updated_at := Some (utc_now now)\<rparr>)\<rparr>"
    then obtain usr p c s' where "users ?w1 u = Some usr" and g: "dict_get (posts_dict ?w1) pid = Some p"
      and ci: "Comment_init (comment_seq ?w1) now (user_id usr)
         (py_or_str (telegram_user_name usr) (user_id usr)) (Some pid) content = Inr (c, s')"
      and "r = CommentOk (comment_id c)"
      and w': "w' = ?w1\<lparr>comment_seq := s', comments_dict := dict_set (comments_dict ?w1) (comment_id c) c,
              posts_dict := dict_set (posts_dict ?w1) pid
                 (p\<lparr>comment_ids := comment_ids p @ [comment_id c], comment_count := comment_count p + 1,
                     updated_at := Some (utc_now now)\<rparr>)\<rparr>"
      by blast
    from Comment_init_Inr [OF ci] have c1: "comment_id c = counter (comment_seq ?w1) + 1"
      "s' = comment_seq ?w1\<lparr>counter := counter (comment_seq ?w1) + 1\<rparr>" "comment_inv c" by simp_all
    from i1 g have "post.post_id p = pid" "pid \<le> counter (post_seq ?w1)" "length (tags p) \<le> 3" "post_inv p"
      by (auto simp: core_inv_def dest: keyed_get mem_inv_get_post)
    then have "posts_keyed w'" "post_inv (p\<lparr>comment_ids := comment_ids p @ [comment_id c],
                 comment_count := comment_count p + 1, updated_at := Some (utc_now now)\<rparr>)"
      using i1 w' by (auto simp: core_inv_def post_inv_def intro: keyed_set)
    moreover have "comments_keyed w'"
    proof -
      from i1 c1 have "keyed comment_id (\<lambda>_. True) s' (comments_dict ?w1)"
        by (auto simp: core_inv_def intro: keyed_mono)
      then have "keyed comment_id (\<lambda>_. True) s' (dict_set (comments_dict ?w1) (comment_id c) c)"
        using c1 by (intro keyed_set) auto
      with w' show ?thesis by simp
    qed
    moreover note i1 c1 w'
    ultimately have "core_inv w'"
      by (auto simp: core_inv_def mem_inv_def dest: dict_values_set_elem)
    with s1 c1 w' show ?thesis by (auto simp: seqs_le_def seq_le_def intro: seq_le_trans)
  qed
qed

lemma force_reinitialize_core:
  "core_inv w \<Longrightarrow> core_inv (snd (force_reinitialize now w)) \<and> seqs_le w (snd (force_reinitialize now w))"
  using force_reinitialize_keyed [of w now] force_reinitialize_mem_inv [of w now]
  by (simp add: core_inv_def seqs_le_def)

lemma get_posts_list_state:
  "get_posts_list now u st pg ps w = (r, w') \<Longrightarrow>
     w' = ensure_initialized now w \<or> w' = snd (force_reinitialize now (ensure_initialized now w))"
  by (auto simp: get_posts_list_def Let_def split: if_splits prod.splits option.splits)

lemma get_posts_list_core:
  "get_posts_list now u st pg ps w = (r, w') \<Longrightarrow> core_inv w \<Longrightarrow> core_inv w' \<and> seqs_le w w'"
  using ensure_initialized_core [of w now] force_reinitialize_core [of "ensure_initialized now w" now]
  by (auto dest!: get_posts_list_state intro: seqs_le_trans)

lemma search_posts_state: "search_posts now u q pg ps w = (r, w') \<Longrightarrow> w' = ensure_initialized now w"
  by (auto simp: search_posts_def Let_def split: prod.splits option.splits)

lemma get_post_detail_state: "get_post_detail now u pid w = (r, w') \<Longrightarrow> w' = ensure_initialized now w"
  by (auto simp: get_post_detail_def Let_def split: option.splits)

end
