(* ===== verification/Flush.thy ===== *)
theory Flush
  imports Forum_Ops
begin

text \<open>
  The bulk flush \<open>ForumManager.save_to_database\<close> (src/app/services/https/ForumManager.py):
  reconcile the user relations, then upsert every cached post and every cached comment, in
  dictionary order, counting the writes that did not raise; the flush reports success when
  every write succeeded. The per-entity upsert is the same code as the entities' own
  \<open>save_to_database\<close> (\<open>post_save_to_database\<close>, \<open>comment_save_to_database\<close>), run
  inside a loop that catches each failure and continues.
\<close>

fun flush_loop :: "('v \<Rightarrow> database \<Rightarrow> bool \<times> database) \<Rightarrow> 'v list \<Rightarrow> database \<Rightarrow> nat \<Rightarrow> nat \<times> database" where
  "flush_loop save [] d n = (n, d)"
| "flush_loop save (v # vs) d n =
     (let (ok, d') = save v d in flush_loop save vs d' (if ok then Suc n else n))"

definition save_to_database :: "world \<Rightarrow> bool \<times> world" where
  "save_to_database w =
     (let us = reconcile_user_post_relationships (posts_dict w) (users w);
          total = length (posts_dict w) + length (comments_dict w);
          (n1, d1) = flush_loop post_save_to_database (dict_values (posts_dict w)) (db w) 0;
          (n2, d2) = flush_loop comment_save_to_database (dict_values (comments_dict w)) d1 n1
      in (n2 = total, w\<lparr>users := us, db := d2\<rparr>))"

subsection \<open>The flush loop\<close>

text \<open>
  Writing a list of entities keyed by \<open>key\<close> into a collection, one \<open>dict_set\<close> each:
  what a successful flush leaves in the store.
\<close>

definition write_all :: "('v \<Rightarrow> 'k) \<Rightarrow> ('v \<Rightarrow> 'd) \<Rightarrow> 'v list \<Rightarrow> ('k, 'd) pydict \<Rightarrow> ('k, 'd) pydict" where
  "write_all key doc vs c = fold (\<lambda>v c. dict_set c (key v) (doc v)) vs c"

lemma write_all_other:
  "k \<notin> key ` set vs \<Longrightarrow> dict_get (write_all key doc vs c) k = dict_get c k"
  by (induction vs arbitrary: c) (auto simp: write_all_def dict_get_set)

lemma write_all_member:
  "distinct (map key vs) \<Longrightarrow> v \<in> set vs \<Longrightarrow> dict_get (write_all key doc vs c) (key v) = Some (doc v)"
proof (induction vs arbitrary: c)
  case Nil
  then show ?case by simp
next
  case (Cons x vs)
  show ?case
  proof (cases "v = x")
    case True
    with Cons.prems have "key v \<notin> key ` set vs" by auto
    then have "dict_get (write_all key doc vs (dict_set c (key x) (doc x))) (key v) =
               dict_get (dict_set c (key x) (doc x)) (key v)"
      by (rule write_all_other)
    with True show ?thesis by (simp add: write_all_def dict_get_set)
  next
    case False
    with Cons show ?thesis by (simp add: write_all_def)
  qed
qed

lemma flush_loop_posts:
  "flush_loop post_save_to_database ps d n = (n', d') \<Longrightarrow>
     db_comments d' = db_comments d \<and> db_users d' = db_users d \<and> db_up d' = db_up d \<and>
     (db_up d \<longrightarrow> n' = n + length ps \<and>
        db_posts d' = write_all post.post_id (\<lambda>p. snd (post_to_dict p)) ps (db_posts d)) \<and>
     (\<not> db_up d \<longrightarrow> n' = n \<and> d' = d)"
proof (induction ps arbitrary: d n)
  case Nil
  then show ?case by (simp add: write_all_def)
next
  case (Cons p ps)
  obtain ok d1 where s: "post_save_to_database p d = (ok, d1)" by fastforce
  from post_save_ok [OF s] post_save_frame [OF s]
  have "ok = db_up d" "ok \<longrightarrow> db_posts d1 = dict_set (db_posts d) (post.post_id p) (snd (post_to_dict p))"
    "\<not> ok \<longrightarrow> d1 = d" "db_comments d1 = db_comments d" "db_users d1 = db_users d" "db_up d1 = db_up d"
    by simp_all
  note f = this
  show ?case
  proof (cases ok)
    case True
    with Cons.prems s have "flush_loop post_save_to_database ps d1 (Suc n) = (n', d')" by simp
    from Cons.IH [OF this] True f show ?thesis by (auto simp: write_all_def)
  next
    case False
    with Cons.prems s f have "flush_loop post_save_to_database ps d n = (n', d')" by simp
    from Cons.IH [OF this] False f show ?thesis by (auto simp: write_all_def)
  qed
qed

lemma flush_loop_comments:
  "flush_loop comment_save_to_database cs d n = (n', d') \<Longrightarrow>
     db_posts d' = db_posts d \<and> db_users d' = db_users d \<and> db_up d' = db_up d \<and>
     (db_up d \<longrightarrow> n' = n + length cs \<and>
        db_comments d' = write_all comment_id (\<lambda>c. snd (comment_to_dict c)) cs (db_comments d)) \<and>
     (\<not> db_up d \<longrightarrow> n' = n \<and> d' = d)"
proof (induction cs arbitrary: d n)
  case Nil
  then show ?case by (simp add: write_all_def)
next
  case (Cons c cs)
  obtain ok d1 where s: "comment_save_to_database c d = (ok, d1)" by fastforce
  from comment_save_ok [OF s] comment_save_frame [OF s]
  have "ok = db_up d" "ok \<longrightarrow> db_comments d1 = dict_set (db_comments d) (comment_id c) (snd (comment_to_dict c))"
    "\<not> ok \<longrightarrow> d1 = d" "db_posts d1 = db_posts d" "db_users d1 = db_users d" "db_up d1 = db_up d"
    by simp_all
  note f = this
  show ?case
  proof (cases ok)
    case True
    with Cons.prems s have "flush_loop comment_save_to_database cs d1 (Suc n) = (n', d')" by simp
    from Cons.IH [OF this] True f show ?thesis by (auto simp: write_all_def)
  next
    case False
    with Cons.prems s f have "flush_loop comment_save_to_database cs d n = (n', d')" by simp
    from Cons.IH [OF this] False f show ?thesis by (auto simp: write_all_def)
  qed
qed

subsection \<open>The flush\<close>

lemma save_to_database_up:
  assumes "db_up (db w)"
  shows "save_to_database w =
           (True, w\<lparr>users := reconcile_user_post_relationships (posts_dict w) (users w),
                    db := (db w)\<lparr>db_posts := write_all post.post_id (\<lambda>p. snd (post_to_dict p))
                                                 (dict_values (posts_dict w)) (db_posts (db w)),
                                 db_comments := write_all comment_id (\<lambda>c. snd (comment_to_dict c))
                                                 (dict_values (comments_dict w)) (db_comments (db w))\<rparr>\<rparr>)"
proof -
  obtain n1 d1 where l1: "flush_loop post_save_to_database (dict_values (posts_dict w)) (db w) 0 = (n1, d1)"
    by fastforce
  obtain n2 d2 where l2: "flush_loop comment_save_to_database (dict_values (comments_dict w)) d1 n1 = (n2, d2)"
    by fastforce
  note f1 = flush_loop_posts [OF l1] and f2 = flush_loop_comments [OF l2]
  from assms f1 f2 have "n2 = length (posts_dict w) + length (comments_dict w)"
    by (simp add: dict_values_def)
  moreover from assms f1 f2 have "d2 = (db w)\<lparr>db_posts := write_all post.post_id (\<lambda>p. snd (post_to_dict p))
                                                 (dict_values (posts_dict w)) (db_posts (db w)),
                                 db_comments := write_all comment_id (\<lambda>c. snd (comment_to_dict c))
                                                 (dict_values (comments_dict w)) (db_comments (db w))\<rparr>"
    by simp
  ultimately show ?thesis using l1 l2 by (simp add: save_to_database_def Let_def)
qed

lemma save_to_database_down:
  assumes "\<not> db_up (db w)"
  shows "save_to_database w =
           (posts_dict w = [] \<and> comments_dict w = [],
            w\<lparr>users := reconcile_user_post_relationships (posts_dict w) (users w)\<rparr>)"
proof -
  obtain n1 d1 where l1: "flush_loop post_save_to_database (dict_values (posts_dict w)) (db w) 0 = (n1, d1)"
    by fastforce
  obtain n2 d2 where l2: "flush_loop comment_save_to_database (dict_values (comments_dict w)) d1 n1 = (n2, d2)"
    by fastforce
  note f1 = flush_loop_posts [OF l1] and f2 = flush_loop_comments [OF l2]
  from assms f1 f2 have "n2 = 0" "d2 = db w" by simp_all
  with l1 l2 show ?thesis by (simp add: save_to_database_def Let_def)
qed

subsection \<open>The flush keeps the invariant\<close>

lemma post_to_dict_doc_inv: "post_inv p \<Longrightarrow> post_doc_inv (snd (post_to_dict p))"
  by (simp add: post_to_dict_def post_doc_inv_def post_inv_def py_get_def o_def)

lemma comment_to_dict_doc_inv: "comment_inv c \<Longrightarrow> comment_doc_inv (snd (comment_to_dict c))"
  by (simp add: comment_to_dict_def comment_doc_inv_def comment_inv_def py_get_def o_def)

lemma write_all_all:
  "\<forall>(k, d) \<in> set c. Q d \<Longrightarrow> \<forall>v \<in> set vs. Q (doc v) \<Longrightarrow> \<forall>(k, d) \<in> set (write_all key doc vs c). Q d"
proof (induction vs arbitrary: c)
  case Nil
  then show ?case by (simp add: write_all_def)
next
  case (Cons v vs)
  from Cons.prems have "\<forall>(k, d) \<in> set (dict_set c (key v) (doc v)). Q d"
    by (auto dest: dict_set_mem)
  with Cons.IH Cons.prems show ?case by (simp add: write_all_def)
qed

lemma save_to_database_core:
  assumes sv: "save_to_database w = (ok, w')" and inv: "core_inv w"
  shows "core_inv w' \<and> seqs_le w w' \<and> posts_dict w' = posts_dict w \<and> comments_dict w' = comments_dict w"
proof -
  let ?us = "reconcile_user_post_relationships (posts_dict w) (users w)"
  from inv have us: "\<forall>x u. ?us x = Some u \<longrightarrow> user_inv u"
    by (auto simp: core_inv_def mem_inv_def intro: reconcile_user_inv [of "users w"])
  show ?thesis
  proof (cases "db_up (db w)")
    case True
    let ?dp = "write_all post.post_id (\<lambda>p. snd (post_to_dict p)) (dict_values (posts_dict w)) (db_posts (db w))"
    let ?dc = "write_all comment_id (\<lambda>c. snd (comment_to_dict c)) (dict_values (comments_dict w)) (db_comments (db w))"
    from sv save_to_database_up [OF True] have w': "w' = w\<lparr>users := ?us, db := (db w)\<lparr>db_posts := ?dp, db_comments := ?dc\<rparr>\<rparr>"
      by simp
    from inv have "\<forall>(k, d) \<in> set ?dp. post_doc_inv d"
      by (intro write_all_all) (auto simp: core_inv_def mem_inv_def intro: post_to_dict_doc_inv)
    moreover from inv have "\<forall>(k, d) \<in> set ?dc. comment_doc_inv d"
      by (intro write_all_all) (auto simp: core_inv_def mem_inv_def intro: comment_to_dict_doc_inv)
    ultimately show ?thesis using inv us w' by (simp add: core_inv_def mem_inv_def seqs_le_def)
  next
    case False
    from sv save_to_database_down [OF False] have "w' = w\<lparr>users := ?us\<rparr>" by simp
    with inv us show ?thesis by (simp add: core_inv_def mem_inv_def seqs_le_def)
  qed
qed

subsection \<open>Flush, then hydrate\<close>

text \<open>
  A flush into an empty store writes one document per cached entity, in dictionary order;
  a fresh process hydrating from that store reads every document back as the entity it
  was written from, provided its key is truthy and its timestamps are already aware
  (hydration makes naive ones aware).
\<close>

lemma write_all_fresh:
  "distinct (map key vs) \<Longrightarrow> set (map key vs) \<inter> set (dict_keys c) = {} \<Longrightarrow>
   write_all key doc vs c = c @ map (\<lambda>v. (key v, doc v)) vs"
proof (induction vs arbitrary: c)
  case Nil
  then show ?case by (simp add: write_all_def)
next
  case (Cons v vs)
  from Cons.prems have "key v \<notin> set (dict_keys c)" by auto
  then have "dict_set c (key v) (doc v) = c @ [(key v, doc v)]" by (rule dict_set_fresh)
  moreover from Cons.prems have "set (map key vs) \<inter> set (dict_keys (c @ [(key v, doc v)])) = {}"
    by (auto simp: dict_keys_def)
  ultimately show ?case using Cons by (simp add: write_all_def)
qed

lemma keyed_snd_fst: "\<forall>(k, v) \<in> set m. key v = k \<Longrightarrow> map key (map snd m) = map fst m"
  by (induction m) auto

lemma keyed_map_values: "keyed key P s m \<Longrightarrow> map (\<lambda>v. (key v, v)) (dict_values m) = m"
proof -
  assume "keyed key P s m"
  then have "\<forall>x \<in> set m. (key (snd x), snd x) = x" by (auto simp: keyed_def)
  then show ?thesis by (simp add: dict_values_def map_idI)
qed

lemma keyed_distinct_keys: "keyed key P s m \<Longrightarrow> distinct (map key (dict_values m))"
proof -
  assume k: "keyed key P s m"
  then have "map key (map snd m) = map fst m" by (intro keyed_snd_fst) (auto simp: keyed_def)
  then have eq: "map key (dict_values m) = dict_keys m" by (simp only: dict_values_def dict_keys_def)
  from k have "distinct (dict_keys m)" by (simp add: keyed_def dict_wf_def)
  then show ?thesis by (subst eq)
qed

text \<open>The loading loop over documents written from entities that read back as themselves.\<close>

lemma load_loop_readback:
  assumes "\<forall>v \<in> set vs. key v \<noteq> 0 \<and> (\<forall>s. initialized s \<longrightarrow> ld s (key v) (doc v) = Inr (v, f (key v) s))"
    and "\<forall>k s. initialized s \<longrightarrow> initialized (f k s)"
    and "distinct (map key vs)" and "set (map key vs) \<inter> set (dict_keys m) = {}" and "initialized s"
  shows "snd (snd (load_loop ld (map (\<lambda>v. (key v, doc v)) vs) n s m)) = m @ map (\<lambda>v. (key v, v)) vs"
  using assms
proof (induction vs arbitrary: n s m)
  case Nil
  then show ?case by simp
next
  case (Cons v vs)
  from Cons.prems have ld: "ld s (key v) (doc v) = Inr (v, f (key v) s)" and k0: "key v \<noteq> 0" by auto
  from Cons.prems have "key v \<notin> set (dict_keys m)" by auto
  then have m': "dict_set m (key v) v = m @ [(key v, v)]" by (rule dict_set_fresh)
  from Cons.prems have "set (map key vs) \<inter> set (dict_keys (m @ [(key v, v)])) = {}"
    by (auto simp: dict_keys_def)
  with Cons.prems Cons.IH [where n = "Suc n" and s = "f (key v) s" and m = "m @ [(key v, v)]"]
  have "snd (snd (load_loop ld (map (\<lambda>v. (key v, doc v)) vs) (Suc n) (f (key v) s) (m @ [(key v, v)]))) =
        m @ [(key v, v)] @ map (\<lambda>v. (key v, v)) vs" by simp
  with ld k0 m' show ?case by simp
qed

lemma load_post_to_dict:
  assumes "initialized s" "length (tags p) \<le> 3"
    "ensure_aware_datetime (post.created_at p) = post.created_at p"
    "ensure_aware_datetime (updated_at p) = updated_at p"
  shows "load_post now s (post.post_id p) (snd (post_to_dict p)) =
           Inr (p, advance_to (post.post_id p) (s\<lparr>counter := counter s + 1\<rparr>))"
proof -
  from assms(1) have n: "next_id s = Inr (counter s + 1, s\<lparr>counter := counter s + 1\<rparr>)"
    by (simp add: next_id_def)
  have t: "take 3 (tags p) = tags p" using assms(2) by simp
  show ?thesis
    using assms(3,4) n t
    by (cases p) (simp add: load_post_def Post_init_def post_to_dict_def py_get_def comp_def)
qed

lemma load_comment_to_dict:
  assumes "initialized s" "ensure_aware_datetime (comment.created_at c) = comment.created_at c"
  shows "load_comment now s (comment_id c) (snd (comment_to_dict c)) =
           Inr (c, advance_to (comment_id c) (s\<lparr>counter := counter s + 1\<rparr>))"
proof -
  from assms(1) have n: "next_id s = Inr (counter s + 1, s\<lparr>counter := counter s + 1\<rparr>)"
    by (simp add: next_id_def)
  show ?thesis
    using assms(2) n
    by (cases c) (simp add: load_comment_def Comment_init_def comment_to_dict_def py_get_def comp_def)
qed


lemma load_posts_result:
  "load_posts_from_database now w = Some (n, w') \<Longrightarrow>
     posts_dict w' = snd (snd (load_loop (load_post now) (db_posts (db w)) 0 (post_seq w) (posts_dict w)))"
  by (auto simp: load_posts_from_database_def find_all_def split: if_splits prod.splits)

lemma load_comments_result:
  "load_comments_from_database now w = Some (n, w') \<Longrightarrow>
     comments_dict w' = snd (snd (load_loop (load_comment now) (db_comments (db w)) 0 (comment_seq w) (comments_dict w)))"
  by (auto simp: load_comments_from_database_def find_all_def split: if_splits prod.splits)

lemma initialize_loaded:
  assumes nf: "\<not> fm_initialized w" and up: "db_up (db w)"
  shows "posts_dict (snd (initialize now w)) =
           snd (snd (load_loop (load_post now) (db_posts (db w)) 0
                       (initialize_counter now (find_max_id True (db_posts (db w))) (post_seq w)) [])) \<and>
         comments_dict (snd (initialize now w)) =
           snd (snd (load_loop (load_comment now) (db_comments (db w)) 0
                       (initialize_counter now (find_max_id True (db_comments (db w))) (comment_seq w)) []))"
proof -
  let ?w1 = "w\<lparr>post_seq := initialize_counter now (find_max_id (db_up (db w)) (db_posts (db w))) (post_seq w),
                comment_seq := initialize_counter now (find_max_id (db_up (db w)) (db_comments (db w))) (comment_seq w),
                posts_dict := [], comments_dict := []\<rparr>"
  from up obtain n w2 where l2: "load_posts_from_database now ?w1 = Some (n, w2)"
    using load_posts_up [of ?w1 now] by auto
  with up have "db_up (db w2)" by (simp add: load_posts_db)
  then obtain m w3 where l3: "load_comments_from_database now w2 = Some (m, w3)"
    using load_comments_up by blast
  have r: "snd (initialize now w) = w3\<lparr>users := reconcile_user_post_relationships (posts_dict w3) (users w3),
                                       fm_initialized := True\<rparr>"
    using nf l2 l3 by (simp add: initialize_def Let_def)
  from load_posts_result [OF l2] load_posts_frame [OF l2] load_comments_result [OF l3] load_comments_frame [OF l3] up
  show ?thesis by (simp add: r)
qed

lemma save_to_database_fresh_store:
  assumes inv: "core_inv w" and up: "db_up (db w)"
    and empty: "db_posts (db w) = []" "db_comments (db w) = []"
  shows "db (snd (save_to_database w)) =
           (db w)\<lparr>db_posts := map (\<lambda>p. (post.post_id p, snd (post_to_dict p))) (dict_values (posts_dict w)),
                  db_comments := map (\<lambda>c. (comment_id c, snd (comment_to_dict c))) (dict_values (comments_dict w))\<rparr>"
proof -
  from inv have kp: "posts_keyed w" and kc: "comments_keyed w" by (simp_all add: core_inv_def)
  show ?thesis
    using save_to_database_up [OF up] empty keyed_distinct_keys [OF kp] keyed_distinct_keys [OF kc]
    by (simp add: write_all_fresh dict_keys_def)
qed

lemma flush_hydrate_posts:
  assumes inv: "core_inv w" and up: "db_up (db w)"
    and empty: "db_posts (db w) = []" "db_comments (db w) = []"
    and rd: "\<forall>p \<in> set (dict_values (posts_dict w)). post.post_id p \<noteq> 0 \<and>
               ensure_aware_datetime (post.created_at p) = post.created_at p \<and>
               ensure_aware_datetime (updated_at p) = updated_at p"
  shows "posts_dict (snd (initialize now (start_world us (db (snd (save_to_database w)))))) = posts_dict w"
proof -
  let ?ps = "dict_values (posts_dict w)" and ?cs = "dict_values (comments_dict w)"
  let ?doc = "\<lambda>p. snd (post_to_dict p)"
  from inv have kp: "posts_keyed w" and kc: "comments_keyed w" by (simp_all add: core_inv_def)
  let ?d = "(db w)\<lparr>db_posts := map (\<lambda>p. (post.post_id p, ?doc p)) ?ps,
                     db_comments := map (\<lambda>c. (comment_id c, snd (comment_to_dict c))) ?cs\<rparr>"
  from save_to_database_fresh_store [OF inv up empty] have d: "db (snd (save_to_database w)) = ?d" by simp
  have l: "snd (snd (load_loop (load_post now) (map (\<lambda>p. (post.post_id p, ?doc p)) ?ps) 0 s [])) = posts_dict w"
    if "initialized s" for s
  proof -
    have "\<forall>p \<in> set ?ps. post.post_id p \<noteq> 0 \<and> (\<forall>s. initialized s \<longrightarrow>
            load_post now s (post.post_id p) (?doc p) = Inr (p, advance_to (post.post_id p) (s\<lparr>counter := counter s + 1\<rparr>)))"
      using rd keyed_values [OF kp] by (auto intro: load_post_to_dict)
    from load_loop_readback [where f = "\<lambda>k s. advance_to k (s\<lparr>counter := counter s + 1\<rparr>)" and m = "[]"
      and ld = "load_post now" and key = post.post_id and doc = ?doc and vs = ?ps, OF this _ keyed_distinct_keys [OF kp] _ that]
    show ?thesis by (simp add: keyed_map_values [OF kp] dict_keys_def)
  qed
  have "\<not> fm_initialized (start_world us ?d)" "db_up (db (start_world us ?d))"
    using up by (simp_all add: start_world_def)
  from initialize_loaded [OF this, of now] l d
  show ?thesis by (simp add: start_world_def)
qed


lemma flush_hydrate_comments:
  assumes inv: "core_inv w" and up: "db_up (db w)"
    and empty: "db_posts (db w) = []" "db_comments (db w) = []"
    and rd: "\<forall>c \<in> set (dict_values (comments_dict w)). comment_id c \<noteq> 0 \<and>
               ensure_aware_datetime (comment.created_at c) = comment.created_at c"
  shows "comments_dict (snd (initialize now (start_world us (db (snd (save_to_database w)))))) = comments_dict w"
proof -
  let ?ps = "dict_values (posts_dict w)" and ?cs = "dict_values (comments_dict w)"
  let ?doc = "\<lambda>c. snd (comment_to_dict c)"
  from inv have kp: "posts_keyed w" and kc: "comments_keyed w" by (simp_all add: core_inv_def)
  let ?d = "(db w)\<lparr>db_posts := map (\<lambda>p. (post.post_id p, snd (post_to_dict p))) ?ps,
                     db_comments := map (\<lambda>c. (comment_id c, ?doc c)) ?cs\<rparr>"
  from save_to_database_fresh_store [OF inv up empty] have d: "db (snd (save_to_database w)) = ?d" by simp
  have l: "snd (snd (load_loop (load_comment now) (map (\<lambda>c. (comment_id c, ?doc c)) ?cs) 0 s [])) = comments_dict w"
    if "initialized s" for s
  proof -
    have "\<forall>c \<in> set ?cs. comment_id c \<noteq> 0 \<and> (\<forall>s. initialized s \<longrightarrow>
            load_comment now s (comment_id c) (?doc c) = Inr (c, advance_to (comment_id c) (s\<lparr>counter := counter s + 1\<rparr>)))"
      using rd by (auto intro: load_comment_to_dict)
    from load_loop_readback [where f = "\<lambda>k s. advance_to k (s\<lparr>counter := counter s + 1\<rparr>)" and m = "[]"
      and ld = "load_comment now" and key = comment_id and doc = ?doc and vs = ?cs, OF this _ keyed_distinct_keys [OF kc] _ that]
    show ?thesis by (simp add: keyed_map_values [OF kc] dict_keys_def)
  qed
  have "\<not> fm_initialized (start_world us ?d)" "db_up (db (start_world us ?d))"
    using up by (simp_all add: start_world_def)
  from initialize_loaded [OF this, of now] l d
  show ?thesis by (simp add: start_world_def)
qed

end
