(* ===== verification/System.thy ===== *)
theory System
  imports Flush
begin

text \<open>
  The forum core as one state machine: the requests the API layer forwards
  (src/app/api/v1/ForumManager.py routes each one to the handler of the same name), the
  lifecycle calls the application and the maintenance scripts make (\<open>initialize\<close>,
  \<open>force_reinitialize\<close>, \<open>get_memory_status\<close>, the scheduled \<open>save_to_database\<close>),
  and the environment's storage outages and recoveries. \<open>exec_op\<close> runs one request to
  completion (the cooperative scheduler never interleaves two in-memory mutations), and
  \<open>run\<close> a sequence of requests, each with its clock reading.
\<close>

datatype op =
    CreatePost user_id string string string "string list option" "media_file list option"
  | GetPostsList user_id string int int
  | TogglePostLike user_id int string
  | SearchPosts user_id string int int
  | GetPostDetail user_id int
  | CreateComment user_id int string
  | GetPostComments int user_id int int
  | ToggleCommentLike user_id int string
  | Initialize
  | ForceReinitialize
  | GetMemoryStatus
  | SaveToDatabase
  | SetStorage bool

datatype response =
    RPost "int option"
  | RPage posts_page
  | RLike like_result
  | RDetail detail_result
  | RComment comment_result
  | RComments comments_page
  | RBool bool
  | RStatus memory_status

fun exec_op :: "int \<Rightarrow> op \<Rightarrow> world \<Rightarrow> response \<times> world" where
  "exec_op now (CreatePost c ct ty cat tg m) w = (let (r, w') = create_post now c ct ty cat tg m w in (RPost r, w'))"
| "exec_op now (GetPostsList u st pg ps) w = (let (r, w') = get_posts_list now u st pg ps w in (RPage r, w'))"
| "exec_op now (TogglePostLike u pid a) w = (let (r, w') = toggle_post_like now u pid a w in (RLike r, w'))"
| "exec_op now (SearchPosts u q pg ps) w = (let (r, w') = search_posts now u q pg ps w in (RPage r, w'))"
| "exec_op now (GetPostDetail u pid) w = (let (r, w') = get_post_detail now u pid w in (RDetail r, w'))"
| "exec_op now (CreateComment u pid ct) w = (let (r, w') = create_comment now u pid ct w in (RComment r, w'))"
| "exec_op now (GetPostComments pid u pg ps) w = (RComments (get_post_comments pid u pg ps w), w)"
| "exec_op now (ToggleCommentLike u cid a) w = (let (r, w') = toggle_comment_like now u cid a w in (RLike r, w'))"
| "exec_op now Initialize w = (let (r, w') = initialize now w in (RBool r, w'))"
| "exec_op now ForceReinitialize w = (let (r, w') = force_reinitialize now w in (RBool r, w'))"
| "exec_op now GetMemoryStatus w = (RStatus (get_memory_status w), w)"
| "exec_op now SaveToDatabase w = (let (r, w') = save_to_database w in (RBool r, w'))"
| "exec_op now (SetStorage b) w = (RBool b, w\<lparr>db := (db w)\<lparr>db_up := b\<rparr>\<rparr>)"

fun run :: "(int \<times> op) list \<Rightarrow> world \<Rightarrow> response list \<times> world" where
  "run [] w = ([], w)"
| "run ((now, o') # ops) w =
     (let (r, w') = exec_op now o' w; (rs, w'') = run ops w' in (r # rs, w''))"

text \<open>The identifiers of the posts a sequence of responses reports as created, in order.\<close>

fun created_post_ids :: "response list \<Rightarrow> int list" where
  "created_post_ids [] = []"
| "created_post_ids (RPost (Some pid) # rs) = pid # created_post_ids rs"
| "created_post_ids (_ # rs) = created_post_ids rs"

subsection \<open>Every step keeps the invariant\<close>

lemma exec_op_core:
  assumes "exec_op now o' w = (r, w')" and "core_inv w"
  shows "core_inv w' \<and> seqs_le w w'"
proof (cases o')
  case (CreatePost c ct ty cat tg m)
  with assms show ?thesis
    by (auto simp: Let_def split: prod.splits dest: create_post_core)
next
  case (GetPostsList u st pg ps)
  with assms show ?thesis by (auto split: prod.splits dest: get_posts_list_core)
next
  case (TogglePostLike u pid a)
  with assms show ?thesis by (auto split: prod.splits dest: toggle_post_like_core)
next
  case (SearchPosts u q pg ps)
  with assms ensure_initialized_core [of w now] show ?thesis
    by (auto split: prod.splits dest: search_posts_state)
next
  case (GetPostDetail u pid)
  with assms ensure_initialized_core [of w now] show ?thesis
    by (auto split: prod.splits dest: get_post_detail_state)
next
  case (CreateComment u pid ct)
  with assms show ?thesis by (auto split: prod.splits dest: create_comment_core)
next
  case (GetPostComments pid u pg ps)
  with assms show ?thesis by simp
next
  case (ToggleCommentLike u cid a)
  with assms show ?thesis by (auto split: prod.splits dest: toggle_comment_like_core)
next
  case Initialize
  with assms initialize_keyed [of w now] initialize_mem_inv [of w now] show ?thesis
    by (auto simp: core_inv_def seqs_le_def split: prod.splits)
next
  case ForceReinitialize
  with assms force_reinitialize_core [of w now] show ?thesis by (auto split: prod.splits)
next
  case GetMemoryStatus
  with assms show ?thesis by simp
next
  case SaveToDatabase
  with assms show ?thesis by (auto split: prod.splits dest: save_to_database_core)
next
  case (SetStorage b)
  with assms show ?thesis by (auto simp: core_inv_def mem_inv_def seqs_le_def)
qed

lemma run_core: "core_inv w \<Longrightarrow> run ops w = (rs, w') \<Longrightarrow> core_inv w' \<and> seqs_le w w'"
proof (induction ops arbitrary: w rs)
  case Nil
  then show ?case by simp
next
  case (Cons x ops)
  obtain now o' where x: "x = (now, o')" by (cases x)
  obtain r w1 where e: "exec_op now o' w = (r, w1)" by fastforce
  obtain rs1 w2 where r: "run ops w1 = (rs1, w2)" by fastforce
  from exec_op_core [OF e Cons.prems(1)] have c1: "core_inv w1" and s1: "seqs_le w w1" by simp_all
  from Cons.prems(2) x e r have "w2 = w'" by simp
  with Cons.IH [OF c1] r have "core_inv w' \<and> seqs_le w1 w'" by simp
  with s1 show ?case by (auto intro: seqs_le_trans)
qed

subsection \<open>Post identifiers over a run\<close>

lemma created_post_ids_Cons:
  "created_post_ids (r # rs) = (case r of RPost (Some pid) \<Rightarrow> pid # created_post_ids rs | _ \<Rightarrow> created_post_ids rs)"
  by (cases r) (auto split: option.splits)

lemma exec_op_created:
  assumes "exec_op now o' w = (RPost (Some pid), w')" and "core_inv w"
  shows "initialized (post_seq w') \<and> counter (post_seq w') = pid \<and>
         (initialized (post_seq w) \<longrightarrow> counter (post_seq w) < pid)"
proof -
  from assms(1) obtain c ct ty cat tg m where cp: "create_post now c ct ty cat tg m w = (Some pid, w')"
    by (cases o') (auto split: prod.splits)
  from create_post_core [OF cp assms(2)]
  have "pid = counter (post_seq (ensure_initialized now w)) + 1" "pid = counter (post_seq w')"
    "initialized (post_seq w')" by simp_all
  moreover from ensure_initialized_core [OF assms(2)] have "seqs_le w (ensure_initialized now w)" by simp
  ultimately show ?thesis by (auto simp: seqs_le_def seq_le_def)
qed

lemma run_created_post_ids:
  "core_inv w \<Longrightarrow>
     sorted_wrt (<) (created_post_ids (fst (run ops w))) \<and>
     (initialized (post_seq w) \<longrightarrow> (\<forall>i \<in> set (created_post_ids (fst (run ops w))). counter (post_seq w) < i))"
proof (induction ops arbitrary: w)
  case Nil
  then show ?case by simp
next
  case (Cons x ops)
  obtain now o' where x: "x = (now, o')" by (cases x)
  obtain r w1 where e: "exec_op now o' w = (r, w1)" by fastforce
  from exec_op_core [OF e Cons.prems] have c1: "core_inv w1" and s1: "seqs_le w w1" by simp_all
  note IH = Cons.IH [OF c1]
  have run: "fst (run (x # ops) w) = r # fst (run ops w1)"
    using x e by (simp split: prod.splits)
  show ?case
  proof (cases "\<exists>pid. r = RPost (Some pid)")
    case True
    then obtain pid where rp: "r = RPost (Some pid)" by blast
    from exec_op_created [OF e [unfolded rp] Cons.prems] IH
    show ?thesis by (fastforce simp: run rp created_post_ids_Cons)
  next
    case False
    then have "created_post_ids (r # rs) = created_post_ids rs" for rs
      by (auto simp: created_post_ids_Cons split: response.splits option.splits)
    with IH s1 show ?thesis by (fastforce simp: run seqs_le_def seq_le_def)
  qed
qed

end
