(* ===== verification/Forum_Facts.thy ===== *)
theory Forum_Facts
  imports System
begin

text \<open>
  Functional facts about the handlers of src/app/services/https/ForumManager.py that the
  properties of the root theory build on: the lazy guard leaves the store alone and
  succeeds whenever the store is up, what a like toggle does to the post it finds and to
  the stored relation, a like followed by an unlike, the fields of a freshly constructed
  post, the invariant after a whole run, and the shape of the listings: each page is a slice
  of the sorted candidates, mapped to items.
\<close>



text \<open>The time a listing item sorts by, read from its \<open>created_at\<close> as the handlers do.\<close>

definition item_time :: "post_item \<Rightarrow> int option" where
  "item_time i = map_option dt_instant (ensure_aware_datetime (pi_created_at i))"

lemma dict_set_same: "dict_get d k = Some v \<Longrightarrow> dict_set d k v = d"
  by (induction d k v rule: dict_set.induct) (auto simp: dict_get_def split: if_splits)

lemma initialize_db: "db (snd (initialize now w)) = db w"
  by (auto simp: initialize_def Let_def split: option.splits prod.splits
           dest!: load_posts_frame load_comments_frame)

lemma ensure_initialized_db [simp]: "db (ensure_initialized now w) = db w"
  by (simp add: ensure_initialized_def initialize_db)

lemma ensure_initialized_idem: "fm_initialized w \<Longrightarrow> ensure_initialized now w = w"
  by (simp add: ensure_initialized_def)

lemma ensure_initialized_up:
  "db_up (db w) \<Longrightarrow> fm_initialized (ensure_initialized now w)"
  using initialize_ok_iff [of w now] initialize_flag [of now w] by (auto simp: ensure_initialized_def)

lemma users_add_to_set_present:
  "db_up d \<Longrightarrow> \<forall>x. dict_get (db_users d) u = Some x \<longrightarrow> v \<in> set (ud_field f x) \<Longrightarrow>
     users_add_to_set d u f v = Some (0, d)"
  by (auto simp: users_add_to_set_def split: option.splits)

lemma toggle_like_ok:
  assumes "toggle_post_like now u pid ''like'' w = (LikeOk a n b, w')"
  shows "fm_initialized w' \<and> db_up (db w') \<and> a = ''like'' \<and> b \<and>
         (\<exists>p. dict_get (posts_dict (ensure_initialized now w)) pid = Some p \<and>
              dict_get (posts_dict w') pid = Some (post_like now u p) \<and> n = post.like_count (post_like now u p)) \<and>
         (\<forall>x. dict_get (db_users (db w')) u = Some x \<longrightarrow> pid \<in> set (ud_liked_post_ids x))"
proof -
  let ?w1 = "ensure_initialized now w"
  obtain p where g: "dict_get (posts_dict ?w1) pid = Some p"
    using assms by (cases "dict_get (posts_dict ?w1) pid") (simp_all add: toggle_post_like_def Let_def)
  obtain k d' where ua: "users_add_to_set (db w) u LikedPostIds pid = Some (k, d')"
    using assms g by (cases "users_add_to_set (db w) u LikedPostIds pid") (auto simp: toggle_post_like_def Let_def)
  from users_add_to_set_frame [OF ua] have up: "db_up (db w)" "db_up d'" by simp_all
  from assms g ua have w': "posts_dict w' = dict_set (posts_dict ?w1) pid (post_like now u p)" "db w' = d'"
    "fm_initialized w' = fm_initialized ?w1" and r: "a = ''like''" "b" "n = post.like_count (post_like now u p)"
    by (auto simp: toggle_post_like_def Let_def split: if_splits option.splits)
  have "\<forall>x. dict_get (db_users d') u = Some x \<longrightarrow> pid \<in> set (ud_liked_post_ids x)"
    using users_add_to_set_member [OF ua] by (simp add: ud_field_def)
  with w' r g up ensure_initialized_up [OF up(1), of now] show ?thesis by (simp add: dict_get_set)
qed


lemma toggle_post_like_found:
  assumes "dict_get (posts_dict (ensure_initialized now w)) pid = Some p"
    and "toggle_post_like now u pid a w = (r, w')"
  shows "posts_dict w' = dict_set (posts_dict (ensure_initialized now w)) pid
                           (if a = ''like'' then post_like now u p else post_unlike now u p) \<and>
         (r = LikeFail Raised \<or>
          r = LikeOk a (post.like_count (if a = ''like'' then post_like now u p else post_unlike now u p)) (a = ''like''))"
  using assms
  by (auto simp: toggle_post_like_def Let_def split: option.splits if_splits prod.splits)

lemma post_unlike_like:
  "post_inv p \<Longrightarrow> u \<notin> set (post.liked_user_ids p) \<Longrightarrow>
     post.liked_user_ids (post_unlike t2 u (post_like t1 u p)) = post.liked_user_ids p \<and>
     post.like_count (post_unlike t2 u (post_like t1 u p)) = post.like_count p"
  by (simp add: post_like_def post_unlike_def post_inv_def remove1_append)

lemma Post_init_fields:
  "Post_init s now c n ct ty cat tg m = Inr (p, s') \<Longrightarrow>
     post_content p = ct \<and> tags p = take 3 (py_get tg []) \<and> post.like_count p = 0 \<and>
     post.liked_user_ids p = [] \<and> post_status p = ''published''"
  by (auto simp: Post_init_def py_get_def split: sum.splits option.splits)

lemma core_inv_post_get:
  "core_inv w \<Longrightarrow> dict_get (posts_dict w) pid = Some p \<Longrightarrow>
     post_inv p \<and> post.post_id p = pid \<and> pid \<le> counter (post_seq w)"
  by (auto simp: core_inv_def dest: keyed_get mem_inv_get_post)

lemma run_core_snd: "core_inv w \<Longrightarrow> core_inv (snd (run ops w))"
  using run_core [of w ops "fst (run ops w)" "snd (run ops w)"] by simp

lemma create_comment_Ok:
  assumes "create_comment now u pid ct w = (CommentOk cid, w')"
  shows "\<exists>p c. dict_get (posts_dict (ensure_initialized now w)) pid = Some p \<and>
       cid = comment_id c \<and> cid = counter (comment_seq (ensure_initialized now w)) + 1 \<and>
       comment.post_id c = Some pid \<and> comment_content c = ct \<and>
       comments_dict w' = dict_set (comments_dict (ensure_initialized now w)) cid c \<and>
       posts_dict w' = dict_set (posts_dict (ensure_initialized now w)) pid
                 (p\<lparr>comment_ids := comment_ids p @ [cid], comment_count := comment_count p + 1,
                     updated_at := Some (utc_now now)\<rparr>)"
proof -
  let ?w1 = "ensure_initialized now w"
  obtain usr where "users ?w1 u = Some usr"
    using assms by (cases "users ?w1 u") (simp_all add: create_comment_def Let_def)
  moreover obtain p where "dict_get (posts_dict ?w1) pid = Some p"
    using assms by (cases "dict_get (posts_dict ?w1) pid") (auto simp: create_comment_def Let_def split: option.splits)
  moreover obtain c s' where ci: "Comment_init (comment_seq ?w1) now (user_id usr)
         (py_or_str (telegram_user_name usr) (user_id usr)) (Some pid) ct = Inr (c, s')"
    using assms calculation
    by (cases "Comment_init (comment_seq ?w1) now (user_id usr) (py_or_str (telegram_user_name usr) (user_id usr)) (Some pid) ct")
       (auto simp: create_comment_def Let_def)
  moreover from Comment_init_Inr [OF ci] have "comment_id c = counter (comment_seq ?w1) + 1" by simp
  moreover from ci have "comment.post_id c = Some pid \<and> comment_content c = ct"
    by (auto simp: Comment_init_def split: sum.splits)
  ultimately show ?thesis using assms by (auto simp: create_comment_def Let_def)
qed


subsection \<open>Listings\<close>

lemma py_slice_map: "map f (py_slice xs a b) = py_slice (map f xs) a b"
  by (simp add: py_slice_def Let_def take_map drop_map)

lemma sorted_wrt_py_slice: "sorted_wrt R xs \<Longrightarrow> sorted_wrt R (py_slice xs a b)"
  by (simp add: py_slice_def Let_def)

lemma py_slice_bound:
  "0 \<le> a \<Longrightarrow> 0 \<le> n \<Longrightarrow> length (py_slice xs a (a + n)) \<le> nat n"
  by (simp add: py_slice_length)

lemma page_bounds_shape: "page_bounds pg ps = (skip, e) \<Longrightarrow> 0 \<le> skip \<and> e = skip + ps"
  by (auto simp: page_bounds_def Let_def)

lemma get_posts_list_items:
  assumes "get_posts_list now u st pg ps w = (r, w')"
  shows "\<exists>liked. pp_posts r = [] \<or>
           pp_posts r = map (post_item liked)
             (py_slice (if st = ''hot'' then py_sort_desc hot_key (published_posts w') else py_sort_desc time_key (published_posts w'))
                (fst (page_bounds pg ps)) (snd (page_bounds pg ps)))"
  using assms by (auto simp: get_posts_list_def Let_def split: prod.splits option.splits if_splits)

lemma search_posts_items:
  assumes "search_posts now u q pg ps w = (r, w')"
  shows "\<exists>liked. pp_posts r = [] \<or>
           pp_posts r = map (post_item liked)
             (py_slice (py_sort_desc time_key (filter (post_matches q) (published_posts w')))
                (fst (page_bounds pg ps)) (snd (page_bounds pg ps)))"
  using assms by (auto simp: search_posts_def Let_def split: prod.splits option.splits)

lemma item_time_post_item: "item_time (post_item l p) = time_key p"
  unfolding item_time_def time_key_def post_item_def by simp

lemma item_hot_post_item:
  "(pi_like_count (post_item l p), pi_comment_count (post_item l p), item_time (post_item l p)) = hot_key p"
  by (simp only: item_time_post_item) (simp add: hot_key_def post_item_def)

lemma sorted_desc_page:
  "sorted_wrt (\<ge>) (map g (map (post_item l) (py_slice (py_sort_desc f xs) a b)))"
  if "\<And>p. g (post_item l p) = f p"
proof -
  have "map g (map (post_item l) (py_slice (py_sort_desc f xs) a b)) = py_slice (map f (py_sort_desc f xs)) a b"
    by (simp add: py_slice_map that comp_def)
  then show ?thesis by (simp add: sorted_wrt_py_slice py_sort_desc_sorted)
qed

lemma load_loop_keys:
  "set (dict_keys (snd (snd (load_loop ld ds n s m)))) \<subseteq> set (dict_keys m) \<union> fst ` set ds"
proof (induction ds arbitrary: n s m)
  case Nil
  then show ?case by simp
next
  case (Cons kd ds)
  obtain k d where kd: "kd = (k, d)" by fastforce
  show ?case
  proof (cases "k = 0")
    case True
    with Cons.IH [of n s m] kd show ?thesis by auto
  next
    case False
    show ?thesis
    proof (cases "ld s k d")
      case (Inl e)
      with Cons.IH [of n s m] kd False show ?thesis by auto
    next
      case (Inr r)
      obtain v s' where r: "r = (v, s')" by fastforce
      from Cons.IH [of "Suc n" s' "dict_set m k v"] kd False Inr r show ?thesis
        by (auto simp: dict_keys_set)
    qed
  qed
qed

subsection \<open>The initialization flag\<close>

lemma create_post_flag: "fm_initialized (snd (create_post now c ct ty cat tg m w)) = fm_initialized (ensure_initialized now w)"
  by (auto simp: create_post_def Let_def split: option.splits sum.splits prod.splits)

lemma toggle_post_like_flag: "fm_initialized (snd (toggle_post_like now u pid a w)) = fm_initialized (ensure_initialized now w)"
  by (auto simp: toggle_post_like_def Let_def split: option.splits prod.splits)

lemma create_comment_flag: "fm_initialized (snd (create_comment now u pid ct w)) = fm_initialized (ensure_initialized now w)"
  by (auto simp: create_comment_def Let_def split: option.splits sum.splits prod.splits)

lemma toggle_comment_like_flag: "fm_initialized (snd (toggle_comment_like now u cid a w)) = fm_initialized (ensure_initialized now w)"
  by (auto simp: toggle_comment_like_def Let_def split: option.splits prod.splits)

lemma initialize_up: "db_up (db w) \<Longrightarrow> fst (initialize now w) \<and> fm_initialized (snd (initialize now w))"
  using initialize_ok_iff [of w now] initialize_flag [of now w]
  by (cases "fm_initialized w") (simp_all add: initialize_def)

lemma post_matches_empty [simp]: "post_matches [] p"
  by (simp add: post_matches_def py_in_str_def py_lower_def)

subsection \<open>Paging through a listing\<close>

lemma py_slice_pages:
  assumes "0 < p"
  shows "concat (map (\<lambda>i. py_slice xs (int i * p) (int i * p + p)) [0..<k]) = take (k * nat p) xs"
proof (induction k)
  case 0
  then show ?case by simp
next
  case (Suc k)
  have "py_slice xs (int k * p) (int k * p + p) = take (nat p) (drop (k * nat p) xs)"
    using assms by (simp add: py_slice_nonneg nat_mult_distrib)
  moreover have "take (Suc k * nat p) xs = take (k * nat p) xs @ take (nat p) (drop (k * nat p) xs)"
    by (metis take_add mult_Suc add.commute)
  ultimately show ?case using Suc.IH by simp
qed

lemma get_posts_list_ready:
  assumes "fm_initialized w" "published_posts w \<noteq> []" "viewer_liked w u = Some liked"
  shows "get_posts_list now u st pg ps w =
           (\<lparr>pp_success = True,
             pp_posts = map (post_item liked)
               (py_slice (if st = ''hot'' then py_sort_desc hot_key (published_posts w) else py_sort_desc time_key (published_posts w))
                  (fst (page_bounds pg ps)) (snd (page_bounds pg ps))),
             pp_has_more = (snd (page_bounds pg ps) < int (length (published_posts w)))\<rparr>, w)"
  using assms by (simp add: get_posts_list_def ensure_initialized_idem split_def Let_def)

subsection \<open>The post counter after hydration\<close>

lemma load_post_seq:
  "initialized s \<Longrightarrow> \<exists>p. load_post now s k d = Inr (p, advance_to k (s\<lparr>counter := counter s + 1\<rparr>))"
  by (simp add: load_post_def Post_init_def next_id_def)

lemma load_loop_post_counter:
  "initialized s \<Longrightarrow>
     initialized (fst (snd (load_loop (load_post now) ds n s m))) \<and>
     counter (fst (snd (load_loop (load_post now) ds n s m))) =
       foldl (\<lambda>c k. max (c + 1) k) (counter s) (filter (\<lambda>k. k \<noteq> 0) (map fst ds))"
proof (induction ds arbitrary: n s m)
  case Nil
  then show ?case by simp
next
  case (Cons kd ds)
  obtain k d where kd: "kd = (k, d)" by fastforce
  show ?case
  proof (cases "k = 0")
    case True
    with Cons kd show ?thesis by simp
  next
    case False
    from load_post_seq [OF Cons.prems, of now k d] obtain p
      where l: "load_post now s k d = Inr (p, advance_to k (s\<lparr>counter := counter s + 1\<rparr>))" by blast
    have "initialized (advance_to k (s\<lparr>counter := counter s + 1\<rparr>))" using Cons.prems by simp
    from Cons.IH [OF this, of "Suc n" "dict_set m k p"] False kd l
    show ?thesis by (simp add: advance_to_def max.commute)
  qed
qed

lemma foldl_inflate_ge: "c + int (length ks) \<le> foldl (\<lambda>c k. max (c + 1) k) (c::int) ks"
proof (induction ks arbitrary: c)
  case Nil
  then show ?case by simp
next
  case (Cons k ks)
  from Cons.IH [of "max (c + 1) k"] show ?case by simp
qed

lemma load_posts_seq:
  "load_posts_from_database now w = Some (n, w') \<Longrightarrow>
     post_seq w' = fst (snd (load_loop (load_post now) (db_posts (db w)) 0 (post_seq w) (posts_dict w)))"
  by (auto simp: load_posts_from_database_def find_all_def split: if_splits prod.splits)

lemma initialize_post_seq:
  assumes nf: "\<not> fm_initialized w" and up: "db_up (db w)"
  shows "post_seq (snd (initialize now w)) =
           fst (snd (load_loop (load_post now) (db_posts (db w)) 0
                       (initialize_counter now (find_max_id True (db_posts (db w))) (post_seq w)) []))"
proof -
  let ?w1 = "w\<lparr>post_seq := initialize_counter now (find_max_id (db_up (db w)) (db_posts (db w))) (post_seq w),
                comment_seq := Comment_initialize_counter now (find_max_id (db_up (db w)) (db_comments (db w))) (comment_seq w),
                posts_dict := [], comments_dict := []\<rparr>"
  from up obtain n w2 where l2: "load_posts_from_database now ?w1 = Some (n, w2)"
    using load_posts_up [of ?w1 now] by auto
  with up have "db_up (db w2)" by (simp add: load_posts_db)
  then obtain m w3 where l3: "load_comments_from_database now w2 = Some (m, w3)"
    using load_comments_up by blast
  have r: "post_seq (snd (initialize now w)) = post_seq w3"
    using nf l2 l3 by (simp add: initialize_def Let_def)
  from load_posts_seq [OF l2] load_comments_frame [OF l3] up show ?thesis by (simp add: r)
qed

subsection \<open>The comments after hydration\<close>

lemma load_comment_ok:
  "initialized s \<Longrightarrow> \<exists>c s'. load_comment now s k d = Inr (c, s') \<and> initialized s'"
  by (simp add: load_comment_def Comment_init_def next_id_def)

lemma load_loop_comment_keys:
  "initialized s \<Longrightarrow>
     set (dict_keys (snd (snd (load_loop (load_comment now) ds n s m)))) =
       set (dict_keys m) \<union> {k \<in> fst ` set ds. k \<noteq> 0}"
proof (induction ds arbitrary: n s m)
  case Nil
  then show ?case by simp
next
  case (Cons kd ds)
  obtain k d where kd: "kd = (k, d)" by fastforce
  show ?case
  proof (cases "k = 0")
    case True
    with Cons kd show ?thesis by auto
  next
    case False
    from load_comment_ok [OF Cons.prems, of now k d] obtain c s'
      where l: "load_comment now s k d = Inr (c, s')" and i: "initialized s'" by blast
    from Cons.IH [OF i, of "Suc n" "dict_set m k c"] False kd l
    show ?thesis by (auto simp: dict_keys_set)
  qed
qed

lemma initialize_comment_keys:
  assumes "\<not> fm_initialized w" and "db_up (db w)"
  shows "set (dict_keys (comments_dict (snd (initialize now w)))) = {k \<in> set (dict_keys (db_comments (db w))). k \<noteq> 0}"
proof -
  from initialize_loaded [OF assms, of now]
  have "comments_dict (snd (initialize now w)) =
          snd (snd (load_loop (load_comment now) (db_comments (db w)) 0
                      (initialize_counter now (find_max_id True (db_comments (db w))) (comment_seq w)) []))" by simp
  with load_loop_comment_keys [OF initialize_counter_initialized] show ?thesis
    by (simp add: dict_keys_def)
qed

subsection \<open>Identities in the registry\<close>

lemma reconcile_one_user_id: "map_option user_id (reconcile_one us p k) = map_option user_id (us k)"
  by (simp add: reconcile_one_def add_post_def split: option.split)

lemma reconcile_user_id:
  "map_option user_id (reconcile_user_post_relationships pd us k) = map_option user_id (us k)"
proof -
  have "map_option user_id (fold (\<lambda>p us. reconcile_one us p) ps us k) = map_option user_id (us k)" for ps
    by (induction ps arbitrary: us) (simp_all add: reconcile_one_user_id)
  then show ?thesis by (simp add: reconcile_user_post_relationships_def)
qed

lemma ensure_initialized_user_id:
  "map_option user_id (users (ensure_initialized now w) k) = map_option user_id (users w k)"
  by (auto simp: ensure_initialized_def initialize_def Let_def reconcile_user_id
           split: option.splits prod.splits dest!: load_posts_frame load_comments_frame)

end
