(* ===== verification/Scripts.thy ===== *)
theory Scripts
  imports Forum_Facts
begin

text \<open>
  The two maintenance scripts, as operations on the forum state they import: 
  src/fix_memory_direct.py (initialize if needed, collect and patch the posts of the test
  user \<open>123456\<close>, then flush) and src/force_reset_memory.py (clear both caches and the
  user registry, reset the flags and both class counters). Run as standalone scripts they
  act on the singletons of their own process; the model describes what each does to the
  state it is given. The script then reads the user document of \<open>123456\<close> back from the
  store through a separate client and prints whether its \<open>post_ids\<close> agree with the collected
  posts; \<open>fix_read_back\<close> returns that printed verdict as a value. Python's \<open>==\<close> between a string and an integer is
  \<open>False\<close>; \<open>py_scalar_eq\<close> compares stored scalars with that rule.
\<close>

fun py_scalar_eq :: "scalar \<Rightarrow> scalar \<Rightarrow> bool" where
  "py_scalar_eq (SInt i) (SInt j) = (i = j)"
| "py_scalar_eq (SStr s) (SStr t) = (s = t)"
| "py_scalar_eq SNone SNone = True"
| "py_scalar_eq _ _ = False"

definition fix_target :: "post \<Rightarrow> bool" where
  "fix_target p \<longleftrightarrow> py_scalar_eq (SStr (creator_user_id p)) (SInt 123456)"

definition fix_memory_direct :: "int \<Rightarrow> world \<Rightarrow> (int list \<times> bool) \<times> world" where
  "fix_memory_direct now w =
     (let w1 = ensure_initialized now w;
          user_posts = sort (map post.post_id (filter fix_target (dict_values (posts_dict w1))));
          w2 = w1\<lparr>posts_dict := map (\<lambda>(k, p). (k, if fix_target p \<and> creator_user_name p = []
                                                   then p\<lparr>creator_user_name := ''test_user_123456''\<rparr> else p))
                                 (posts_dict w1)\<rparr>;
          (ok, w3) = save_to_database w2
      in ((user_posts, ok), w3))"

text \<open>
  The verdict the script prints after the flush: the read raised (\<open>CheckFailed\<close>), no user
  document was found (nothing printed), aligned, or not aligned with the missing and the
  extra identifiers.
\<close>

datatype fix_report = CheckFailed | NoUserDoc | Aligned | NotAligned "int list" "int list"

text \<open>
  \<open>db.users.find_one({"_id": 123456})\<close> on the store's user collection: the integer key
  never equals a string identity (the store compares \<open>_id\<close> values with their types); then
  \<open>set(final_post_ids) == set(user_posts)\<close> and the two set differences.
\<close>

definition fix_read_back :: "database \<Rightarrow> int list \<Rightarrow> fix_report" where
  "fix_read_back d user_posts =
     (if \<not> db_up d then CheckFailed
      else case filter (\<lambda>(k, _). py_scalar_eq (SStr k) (SInt 123456)) (db_users d) of
             [] \<Rightarrow> NoUserDoc
           | (_, ud) # _ \<Rightarrow>
               (let final = ud_post_ids ud
                in if set final = set user_posts then Aligned
                   else NotAligned (sorted_list_of_set (set user_posts - set final))
                                   (sorted_list_of_set (set final - set user_posts))))"

text \<open>The whole script: the repair and flush, then the read-back of the flushed store.\<close>

definition fix_script :: "int \<Rightarrow> world \<Rightarrow> (int list \<times> bool \<times> fix_report) \<times> world" where
  "fix_script now w =
     (let ((user_posts, ok), w') = fix_memory_direct now w
      in ((user_posts, ok, fix_read_back (db w') user_posts), w'))"

definition force_reset_memory :: "world \<Rightarrow> world" where
  "force_reset_memory w =
     w\<lparr>posts_dict := [], comments_dict := [], fm_initialized := False, users := Map.empty,
       post_seq := \<lparr>counter = 0, initialized = False\<rparr>, comment_seq := \<lparr>counter = 0, initialized = False\<rparr>\<rparr>"

subsection \<open>Lemmas\<close>

lemma fix_target_never: "\<not> fix_target p"
  by (simp add: fix_target_def)

lemma force_reset_memory_restart: "force_reset_memory w = start_world Map.empty (db w)"
  by (simp add: force_reset_memory_def start_world_def seq_init_def)

lemma save_to_database_db_up: "db_up (db (snd (save_to_database w))) = db_up (db w)"
  by (cases "db_up (db w)") (simp_all add: save_to_database_up save_to_database_down)

lemma fix_read_back_no_doc: "fix_read_back d ups = (if db_up d then NoUserDoc else CheckFailed)"
proof -
  have "filter (\<lambda>(k, _). py_scalar_eq (SStr k) (SInt 123456)) xs = []" for xs :: "(user_id \<times> user_doc) list"
    by (induction xs) auto
  then show ?thesis by (simp add: fix_read_back_def)
qed

lemma fix_memory_direct_db_up: "db_up (db (snd (fix_memory_direct now w))) = db_up (db w)"
  by (simp add: fix_memory_direct_def Let_def split_def save_to_database_db_up)

end
