(* ===== verification/Api.thy ===== *)
theory Api
  imports Forum_Facts Scripts
begin

text \<open>
  The HTTP layer: the FastAPI routes of src/app/api/v1/ForumManager.py and the pydantic
  models of src/app/schemas/ForumManager.py they validate requests and responses with.
  A route first validates its request (a failure is FastAPI's 422 answer and never reaches
  the core), calls the handler of the same name, then builds the response model from the
  handler's result; a validation error there is caught by the route's \<open>except\<close> and
  becomes \<open>HTTPException(500)\<close>. Identifiers declared \<open>int\<close> are validated in pydantic's
  lax mode: a JSON integer, or a string of decimal digits with an optional sign.
\<close>

datatype json_int = JInt int | JStr string

definition is_digit :: "char \<Rightarrow> bool" where
  "is_digit c \<longleftrightarrow> (let n = (of_char c :: nat) in 48 \<le> n \<and> n \<le> 57)"

definition digits_value :: "string \<Rightarrow> int" where
  "digits_value ds = foldl (\<lambda>n c. 10 * n + (int (of_char c) - 48)) 0 ds"

definition parse_unsigned :: "string \<Rightarrow> int option" where
  "parse_unsigned ds = (if ds \<noteq> [] \<and> list_all is_digit ds then Some (digits_value ds) else None)"

definition parse_int_string :: "string \<Rightarrow> int option" where
  "parse_int_string s =
     (case s of
        [] \<Rightarrow> None
      | c # cs \<Rightarrow>
          if c = CHR ''-'' then map_option uminus (parse_unsigned cs)
          else if c = CHR ''+'' then parse_unsigned cs
          else parse_unsigned s)"

fun pyd_int :: "json_int \<Rightarrow> int option" where
  "pyd_int (JInt i) = Some i"
| "pyd_int (JStr s) = parse_int_string s"

text \<open>\<open>CreatorInfo(user_id: int, ...)\<close>, built from a stored identity string.\<close>

definition creator_info_ok :: "user_id \<Rightarrow> bool" where
  "creator_info_ok u \<longleftrightarrow> parse_int_string u \<noteq> None"

definition post_item_ok :: "post_item \<Rightarrow> bool" where
  "post_item_ok i \<longleftrightarrow> creator_info_ok (pi_creator_user_id i)"

definition comment_item_ok :: "comment_item \<Rightarrow> bool" where
  "comment_item_ok i \<longleftrightarrow> creator_info_ok (ci_commenter_user_id i)"

datatype api_body =
    ApiPosts bool "post_item list" bool
  | ApiCreated bool "int option" string
  | ApiLike like_result
  | ApiComment comment_result
  | ApiDetail detail_result
  | ApiComments bool "comment_item list" bool

datatype http = HttpOk api_body | Http422 | Http500

text \<open>The requests, with the defaults of the pydantic models for omitted fields.\<close>

datatype api_request =
    GetPostsListReq json_int string int int
  | CreatePostReq json_int string string "string option" "string list" "media_file list"
  | SearchPostsReq json_int string int int
  | TogglePostLikeReq json_int int string
  | CreateCommentReq json_int int string
  | GetPostDetailReq json_int int
  | GetPostCommentsReq int json_int int int
  | ToggleCommentLikeReq json_int int string

definition detail_ok :: "detail_result \<Rightarrow> bool" where
  "detail_ok r = (case r of DetailOk i \<Rightarrow> post_item_ok i | DetailFail _ \<Rightarrow> True)"

fun api_call :: "int \<Rightarrow> api_request \<Rightarrow> world \<Rightarrow> http \<times> world" where
  "api_call now (GetPostsListReq uid st pg ps) w =
     (case pyd_int uid of
        None \<Rightarrow> (Http422, w)
      | Some u \<Rightarrow>
          if pg < 1 \<or> ps < 1 \<or> 100 < ps then (Http422, w)
          else (let (r, w') = get_posts_list now (show_int u) st pg ps w
                in (if list_all post_item_ok (pp_posts r)
                    then HttpOk (ApiPosts (pp_success r) (pp_posts r) (pp_has_more r)) else Http500, w')))"
| "api_call now (CreatePostReq cid ct ty cat tg m) w =
     (case pyd_int cid of
        None \<Rightarrow> (Http422, w)
      | Some c \<Rightarrow>
          (let (r, w') = create_post now (show_int c) ct ty (py_or_str cat '''') (Some tg) (Some m) w
           in (case r of
                 None \<Rightarrow> HttpOk (ApiCreated False None ''post creation failed'')
               | Some pid \<Rightarrow>
                   if pid = 0 then HttpOk (ApiCreated False None ''post creation failed'')
                   else HttpOk (ApiCreated True (Some pid) ''post created''), w')))"
| "api_call now (SearchPostsReq uid q pg ps) w =
     (case pyd_int uid of
        None \<Rightarrow> (Http422, w)
      | Some u \<Rightarrow>
          (let (r, w') = search_posts now (show_int u) q pg ps w
           in (if list_all post_item_ok (pp_posts r)
               then HttpOk (ApiPosts (pp_success r) (pp_posts r) (pp_has_more r)) else Http500, w')))"
| "api_call now (TogglePostLikeReq uid pid a) w =
     (case pyd_int uid of
        None \<Rightarrow> (Http422, w)
      | Some u \<Rightarrow> (let (r, w') = toggle_post_like now (show_int u) pid a w in (HttpOk (ApiLike r), w')))"
| "api_call now (CreateCommentReq uid pid ct) w =
     (case pyd_int uid of
        None \<Rightarrow> (Http422, w)
      | Some u \<Rightarrow> (let (r, w') = create_comment now (show_int u) pid ct w in (HttpOk (ApiComment r), w')))"
| "api_call now (GetPostDetailReq uid pid) w =
     (case pyd_int uid of
        None \<Rightarrow> (Http422, w)
      | Some u \<Rightarrow>
          (let (r, w') = get_post_detail now (show_int u) pid w
           in (if detail_ok r then HttpOk (ApiDetail r) else Http500, w')))"
| "api_call now (GetPostCommentsReq pid uid pg ps) w =
     (case pyd_int uid of
        None \<Rightarrow> (Http422, w)
      | Some u \<Rightarrow>
          (let r = get_post_comments pid (show_int u) pg ps w
           in (if list_all comment_item_ok (cp_comments r)
               then HttpOk (ApiComments (cp_success r) (cp_comments r) (cp_has_more r)) else Http500, w)))"
| "api_call now (ToggleCommentLikeReq uid cid a) w =
     (case pyd_int uid of
        None \<Rightarrow> (Http422, w)
      | Some u \<Rightarrow> (let (r, w') = toggle_comment_like now (show_int u) cid a w in (HttpOk (ApiLike r), w')))"

text \<open>The core operation a request becomes once its identifiers are validated.\<close>

fun core_op :: "api_request \<Rightarrow> op option" where
  "core_op (GetPostsListReq uid st pg ps) =
     (case pyd_int uid of None \<Rightarrow> None
      | Some u \<Rightarrow> if pg < 1 \<or> ps < 1 \<or> 100 < ps then None else Some (GetPostsList (show_int u) st pg ps))"
| "core_op (CreatePostReq cid ct ty cat tg m) =
     map_option (\<lambda>c. CreatePost (show_int c) ct ty (py_or_str cat '''') (Some tg) (Some m)) (pyd_int cid)"
| "core_op (SearchPostsReq uid q pg ps) = map_option (\<lambda>u. SearchPosts (show_int u) q pg ps) (pyd_int uid)"
| "core_op (TogglePostLikeReq uid pid a) = map_option (\<lambda>u. TogglePostLike (show_int u) pid a) (pyd_int uid)"
| "core_op (CreateCommentReq uid pid ct) = map_option (\<lambda>u. CreateComment (show_int u) pid ct) (pyd_int uid)"
| "core_op (GetPostDetailReq uid pid) = map_option (\<lambda>u. GetPostDetail (show_int u) pid) (pyd_int uid)"
| "core_op (GetPostCommentsReq pid uid pg ps) = map_option (\<lambda>u. GetPostComments pid (show_int u) pg ps) (pyd_int uid)"
| "core_op (ToggleCommentLikeReq uid cid a) = map_option (\<lambda>u. ToggleCommentLike (show_int u) cid a) (pyd_int uid)"

fun req_user :: "api_request \<Rightarrow> json_int" where
  "req_user (GetPostsListReq uid st pg ps) = uid"
| "req_user (CreatePostReq cid ct ty cat tg m) = cid"
| "req_user (SearchPostsReq uid q pg ps) = uid"
| "req_user (TogglePostLikeReq uid pid a) = uid"
| "req_user (CreateCommentReq uid pid ct) = uid"
| "req_user (GetPostDetailReq uid pid) = uid"
| "req_user (GetPostCommentsReq pid uid pg ps) = uid"
| "req_user (ToggleCommentLikeReq uid cid a) = uid"

fun api_run :: "(int \<times> api_request) list \<Rightarrow> world \<Rightarrow> http list \<times> world" where
  "api_run [] w = ([], w)"
| "api_run ((now, req) # reqs) w =
     (let (h, w') = api_call now req w; (hs, w'') = api_run reqs w' in (h # hs, w''))"

fun api_ops :: "(int \<times> api_request) list \<Rightarrow> (int \<times> op) list" where
  "api_ops [] = []"
| "api_ops ((now, req) # reqs) =
     (case core_op req of None \<Rightarrow> api_ops reqs | Some o' \<Rightarrow> (now, o') # api_ops reqs)"

subsection \<open>Lemmas\<close>

lemma api_call_refines:
  "snd (api_call now req w) = (case core_op req of None \<Rightarrow> w | Some o' \<Rightarrow> snd (exec_op now o' w))"
  by (cases req) (auto split: option.splits prod.splits simp: Let_def)

lemma digits_value_snoc: "digits_value (ds @ [c]) = 10 * digits_value ds + (int (of_char c) - 48)"
  by (simp add: digits_value_def)

lemma show_nat_digits: "show_nat n \<noteq> [] \<and> list_all is_digit (show_nat n) \<and> digits_value (show_nat n) = int n"
proof (induction n rule: show_nat.induct)
  case (1 n)
  show ?case
  proof (cases "n < 10")
    case True
    then have "of_char (char_of (48 + n) :: char) = (48 + n :: nat)" by (simp add: of_char_of)
    with True show ?thesis by (simp add: show_nat.simps is_digit_def digits_value_def)
  next
    case False
    have m: "of_char (char_of (48 + n mod 10) :: char) = (48 + n mod 10 :: nat)"
      by (simp add: of_char_of)
    have "n = 10 * (n div 10) + n mod 10" by simp
    then have "int n = 10 * int (n div 10) + int (n mod 10)" by (metis of_nat_add of_nat_mult of_nat_numeral)
    with 1 [OF False] False m show ?thesis
      by (simp add: show_nat.simps [of n] is_digit_def digits_value_snoc)
  qed
qed

lemma show_nat_head: "hd (show_nat n) \<noteq> CHR ''-'' \<and> hd (show_nat n) \<noteq> CHR ''+''"
proof -
  from show_nat_digits [of n] have "is_digit (hd (show_nat n))" by (cases "show_nat n") auto
  then show ?thesis by (auto simp: is_digit_def)
qed

lemma parse_show_int: "parse_int_string (show_int i) = Some i"
proof -
  obtain c cs where sn: "show_nat (nat \<bar>i\<bar>) = c # cs"
    using show_nat_digits [of "nat \<bar>i\<bar>"] by (cases "show_nat (nat \<bar>i\<bar>)") auto
  from show_nat_head [of "nat \<bar>i\<bar>"] sn have c: "c \<noteq> CHR ''-''" "c \<noteq> CHR ''+''" by simp_all
  from show_nat_digits [of "nat \<bar>i\<bar>"] have p: "parse_unsigned (show_nat (nat \<bar>i\<bar>)) = Some \<bar>i\<bar>"
    by (simp add: parse_unsigned_def)
  show ?thesis
  proof (cases "i < 0")
    case True
    with p show ?thesis by (simp add: show_int_def parse_int_string_def)
  next
    case False
    with p sn c show ?thesis by (simp add: show_int_def parse_int_string_def)
  qed
qed

lemma api_call_invalid_user: "pyd_int (req_user req) = None \<Longrightarrow> api_call now req w = (Http422, w)"
  by (cases req) simp_all

lemma api_run_refines: "snd (api_run reqs w) = snd (run (api_ops reqs) w)"
proof (induction reqs arbitrary: w)
  case Nil
  then show ?case by simp
next
  case (Cons x reqs)
  obtain now req where x: "x = (now, req)" by fastforce
  have "snd (api_run (x # reqs) w) = snd (api_run reqs (snd (api_call now req w)))"
    by (simp add: x split: prod.splits)
  also have "\<dots> = snd (run (api_ops reqs) (snd (api_call now req w)))" by (rule Cons.IH)
  also have "\<dots> = snd (run (api_ops (x # reqs)) w)"
    by (simp add: x api_call_refines split: option.splits prod.splits)
  finally show ?case .
qed

end
