(* ===== verification/Seeding_Async.thy ===== *)
theory Seeding_Async
  imports Sequencer
begin

text \<open>
  The seeding of the identifier sequencer is a coroutine: \<open>Post.initialize_counter\<close>
  (src/app/objects/Post.py, and its copy in Comment.py) checks \<open>_initialized\<close> (line 26),
  then suspends at \<open>await Database.find(...)\<close> (line 30), and after resuming writes the counter
  and the flag (lines 31-43) without looking at the flag again. Requests run on one event
  loop, so two requests that find a cold cache can both pass the check before either
  writes. This theory models that suspension point: a task's seeding is two steps,
  \<open>Begin\<close> (the check) and \<open>Resume\<close> (the write after the query answered), and a draw of an
  identifier (the first lines of \<open>Post.__init__\<close>) is a third kind of step; a schedule is
  a list of such steps. Run without interleaving, \<open>Begin\<close> then \<open>Resume\<close> is exactly the
  atomic \<open>initialize_counter\<close> of the sequential model.
\<close>

datatype seed_phase = Idle | Awaiting | Finished

record seed_state =
  sq :: seq
  tasks :: "nat \<Rightarrow> seed_phase"
  drawn :: "int list"

datatype seed_event = Begin nat | Resume nat "int option option" | Draw

text \<open>Lines 31-43 of \<open>initialize_counter\<close>: the write once the query has answered.\<close>

definition seed_resume :: "int \<Rightarrow> int option option \<Rightarrow> seq \<Rightarrow> seq" where
  "seed_resume now_ms q s =
     (case q of
        None \<Rightarrow> s\<lparr>counter := now_ms, initialized := True\<rparr>
      | Some None \<Rightarrow> s\<lparr>counter := 0, initialized := True\<rparr>
      | Some (Some m) \<Rightarrow> s\<lparr>counter := m, initialized := True\<rparr>)"

fun seed_step :: "int \<Rightarrow> seed_event \<Rightarrow> seed_state \<Rightarrow> seed_state" where
  "seed_step now (Begin t) st =
     st\<lparr>tasks := (tasks st)(t := (if initialized (sq st) then Finished else Awaiting))\<rparr>"
| "seed_step now (Resume t q) st =
     (if tasks st t = Awaiting
      then st\<lparr>sq := seed_resume now q (sq st), tasks := (tasks st)(t := Finished)\<rparr>
      else st)"
| "seed_step now Draw st =
     (case next_id (sq st) of
        Inl _ \<Rightarrow> st
      | Inr (i, s') \<Rightarrow> st\<lparr>sq := s', drawn := drawn st @ [i]\<rparr>)"

definition seed_run :: "int \<Rightarrow> seed_event list \<Rightarrow> seed_state \<Rightarrow> seed_state" where
  "seed_run now evs st = fold (seed_step now) evs st"

definition seed_start :: seed_state where
  "seed_start = \<lparr>sq = seq_init, tasks = (\<lambda>_. Idle), drawn = []\<rparr>"

subsection \<open>Lemmas\<close>

text \<open>Without interleaving, a task's two seeding steps are the atomic \<open>initialize_counter\<close>.\<close>

lemma seed_steps_atomic:
  "tasks st t = Idle \<Longrightarrow> sq (seed_run now [Begin t, Resume t q] st) = initialize_counter now q (sq st)"
  by (cases "initialized (sq st)")
     (simp_all add: seed_run_def seed_resume_def initialize_counter_def split: option.split)

end
