(* ===== verification/Spec2Isabelle.thy ===== *)
theory Spec2Isabelle
  imports Api Seeding_Async
begin

text \<open>
  \<^bold>\<open>A verification library for the forum core of Campus_friendship_miniapp_backend.\<close>

  \<^bold>\<open>The program.\<close> The forum core is a write-behind cache (src/app/services/https/ForumManager.py,
  class \<open>ForumManager\<close>, a process-wide singleton) between the API handlers
  (src/app/api/v1/ForumManager.py) and a document store. It keeps two dictionaries
  (\<open>posts_dict\<close>, \<open>comments_dict\<close>) of entity objects (src/app/objects/Post.py,
  src/app/objects/Comment.py), hydrates them from the store once (\<open>initialize\<close>), serves
  every read and write from memory, writes a user's relation lists (src/app/objects/User.py)
  to the store best-effort, and is flushed to the store in bulk (\<open>save_to_database\<close>).
  Identifiers come from a per-class counter seeded from the largest stored key.

  \<^bold>\<open>The theories, leaves first.\<close>
  \<^item> \<open>Prelude\<close>: the Python built-ins the code relies on: \<open>dict\<close> as an association list
    in insertion order (\<open>dict_get\<close>, \<open>dict_set\<close>), slicing (\<open>py_slice\<close>),
    \<open>sort(key, reverse=True)\<close> (\<open>py_sort_desc\<close>, CPython's reverse/stable-sort/reverse),
    \<open>str.lower\<close>, substring, \<open>str()\<close>, timestamps with an optional UTC offset.
  \<^item> \<open>Sequencer\<close>: the class attributes \<open>_post_counter\<close>/\<open>_comment_counter\<close> and
    \<open>_initialized\<close> as a record \<open>seq\<close>; \<open>initialize_counter\<close> (Post.py) and its copy
    \<open>Comment_initialize_counter\<close> (Comment.py), \<open>next_id\<close> (first lines of both constructors), \<open>advance_to\<close> (the
    \<open>max\<close> of hydration). Lemmas: freshness of a drawn identifier, seeding is idempotent,
    the counter never decreases (\<open>seq_le\<close>).
  \<^item> \<open>Post\<close>, \<open>Comment\<close>, \<open>User\<close>: the entity records, their constructors, \<open>to_dict\<close>
    documents and in-memory mutators, with the count/set parity \<open>post_inv\<close>,
    \<open>comment_inv\<close> and the duplicate-freedom \<open>user_inv\<close> that every mutator keeps.
  \<^item> \<open>Storage\<close>: the store (app/core/database.py is not in the repository, so this follows
    the specification's interface): three keyed collections and an availability flag, the
    queries the core issues, and the entities' own persistence methods.
  \<^item> \<open>Forum_State\<close>: the state of the whole core as a record \<open>world\<close> (the singleton's
    dictionaries and flag, both sequencers, the user registry \<open>UserManagement\<close> as a map,
    the store), hydration (\<open>load_post\<close>, \<open>load_comment\<close> and their shared loop
    \<open>load_loop\<close>, \<open>reconcile_user_post_relationships\<close>, \<open>initialize\<close>,
    \<open>force_reinitialize\<close>, the lazy guard \<open>ensure_initialized\<close>). Lemmas: the key
    discipline \<open>keyed\<close> (no duplicate key, key = identifier, key \<open>\<le>\<close> counter) and the
    entity invariant \<open>mem_inv\<close> are kept by hydration; \<open>initialize\<close> is idempotent.
  \<^item> \<open>Time_Display\<close>: \<open>_format_time_display\<close>, \<open>strftime("%m-%d %H:%M")\<close> of a
    timestamp's wall-clock fields, computed as CPython's datetime module does
    (\<open>ord2ymd\<close> is \<open>_ord2ymd\<close>, \<open>ymd2ord\<close> is \<open>_ymd2ord\<close>; the module is a library, modelled
    from its source). Lemmas: \<open>ymd2ord\<close> inverts \<open>ord2ymd\<close> on every integer (the
    400/100/4/1-year decomposition, and the month table checked for every day of a year),
    \<open>ord2ymd\<close> gives a valid month and day, and equal displays mean equal minute of day.
  \<^item> \<open>Forum_Ops\<close>: the eight request handlers (\<open>create_post\<close>, \<open>get_posts_list\<close>,
    \<open>toggle_post_like\<close>, \<open>search_posts\<close>, \<open>get_post_detail\<close>, \<open>create_comment\<close>,
    \<open>get_post_comments\<close>, \<open>toggle_comment_like\<close>) with their result types, and the proof
    that each keeps \<open>core_inv\<close> (keyed dictionaries and \<open>mem_inv\<close>) and never moves a
    sequencer back (\<open>seqs_le\<close>). Post items carry their \<open>time_display\<close>.
  \<^item> \<open>Flush\<close>: \<open>save_to_database\<close>, the bulk upsert; its result in closed form with the
    store up and down, and the round trip: flush into an empty store, hydrate a fresh
    process from it, and the cache is what it was.
  \<^item> \<open>System\<close>: the core as a state machine: a datatype \<open>op\<close> of the requests and
    lifecycle calls plus the environment's storage outages, \<open>exec_op\<close> one step, \<open>run\<close>
    a sequence; the invariant over every run and the strict increase of created post
    identifiers.
  \<^item> \<open>Forum_Facts\<close>: functional lemmas on the handlers the properties below share: the lazy
    guard and the initialization flag each handler leaves, a like toggle on a found post, freshly constructed posts and comments, and the
    listings (a page is a slice of a sorted list, \<open>item_time\<close> the key an item sorts by).
  \<^item> \<open>Scripts\<close>: the maintenance scripts src/fix_memory_direct.py (\<open>fix_memory_direct\<close>,
    the repair and flush; \<open>fix_script\<close>, the whole script with the read-back of the store and
    its printed verdict \<open>fix_report\<close>) and src/force_reset_memory.py (\<open>force_reset_memory\<close>), as operations on
    the forum state they import.
  \<^item> \<open>Api\<close>: the HTTP layer (src/app/api/v1/ForumManager.py with the pydantic models of
    src/app/schemas/ForumManager.py): \<open>api_call\<close> validates a request (\<open>Http422\<close>), runs the
    handler, and validates the response (\<open>Http500\<close> on a validation error); \<open>core_op\<close>
    translates a validated request to the core operation, and \<open>api_run_refines\<close> shows that a
    sequence of requests is the core run of those operations (a refinement by simulation);
    \<open>post_item_ok\<close> and \<open>creator_info_ok\<close> are the constraints of the declared response
    models that the core's results can violate.
  \<^item> \<open>Seeding_Async\<close>: the one suspension point of \<open>initialize_counter\<close> made explicit:
    a seeding is a check step and a resume step (\<open>seed_resume\<close>), a draw is a third kind of
    step, and a schedule of such steps of several tasks runs by \<open>seed_run\<close>; without
    interleaving a task's two steps are the atomic \<open>initialize_counter\<close>.

  \<^bold>\<open>The properties\<close> (this theory): each \<open>C\<close>n block states one property in words;
  every theorem with a hypothesis is followed by a witness that applies it to a concrete
  state built from \<open>demo_world\<close> (two resident users, an empty store that is up),
  evaluated by \<open>code_simp\<close>. \<open>lazy_op\<close> names the requests whose handler begins with
  the lazy guard.

  \<^bold>\<open>Modelling choices.\<close> Python's unbounded integers are \<open>int\<close>. Mutation of objects held
  in a dictionary is a \<open>dict_set\<close> of the updated record under the same key (each object is
  held by exactly one dictionary, so no aliasing is lost). Every store call raises while the
  store is down; the model returns \<open>None\<close> there and each handler's \<open>try\<close> becomes a
  branch. The clock is an argument \<open>now\<close> of each operation, in milliseconds since the
  epoch; a timestamp's wall ticks use the same unit. Each request is one atomic step of
  \<open>exec_op\<close>, i.e. the model covers requests that run one after the other. The handlers
  are \<open>async\<close> and do suspend between memory writes: \<open>initialize_counter\<close> between its
  flag check and its write (Post.py lines 26-33, likewise Comment.py), \<open>initialize\<close>
  between seeding the counters and loading the dictionaries, \<open>toggle_post_like\<close> between
  updating the post and the store's user document. Interleavings of concurrent requests are
  therefore not covered by the sequential properties; theory \<open>Seeding_Async\<close> models the
  first of these suspension points and C36 shows that two interleaved cold-start seedings
  hand out one identifier twice. \<open>str.lower\<close> is modelled on ASCII letters only
  (\<open>py_lower\<close>), so C16's case-insensitivity is ASCII case-insensitivity; Python also
  lowercases other letters. The store's user collection is keyed by identity strings, the
  key type the core writes (\<open>str(user_id)\<close>); documents stored under other key types, such
  as the integer key 123456 of the e2e test scripts, are outside the model, and so is what the
  read-back of src/fix_memory_direct.py (\<open>fix_read_back\<close>) would find among them. The user
  registry is modelled as the map that \<open>UserManagement.user_list\<close> is assumed to be; its
  source is not in the repository, so \<open>force_reset_memory\<close> clearing it to the empty map
  follows the script. Loops over lists are structural recursion; no loop of the core
  can fail to terminate, so no fuel is needed, and no property is stated about termination:
  every operation is a total function of the model, and the only open-ended loop of the
  deployment (the scheduler that triggers the flush) is outside the repository.

  \<^bold>\<open>Properties by group.\<close> C1-C13: identifiers, creation, likes, the flush/hydrate round
  trip and hydration (C13: the counter after hydration in closed form, at least one step
  above the seed per loaded post); C14-C20: listings, search, comments and the flush;
  C21-C25: findings on the handlers (each a theorem about the code as written); C26-C28:
  the HTTP layer (a post created through the API validates in every listing; string
  identities are rejected; a string creator makes the listing answer 500); C29: the repair
  script repairs nothing; C30: the empty search is the latest listing (an equivalence of two
  handlers); C31: lazily guarded requests leave the cache initialized; C32-C34: the time
  display (the wall-clock date and time, the fixed width, and a finding: the offset of an
  aware value is not converted to UTC); C35: paging through a listing neither skips nor
  repeats a post; C36: the interleaved seeding race.

  \<^bold>\<open>Not modelled.\<close> Logging and printing (the scripts' printed verdicts are returned as
  values instead); the branch of \<open>_format_time_display\<close> that parses a non-datetime with
  \<open>fromisoformat\<close> (the core only holds datetime values or None); the smoke and e2e test
  scripts, HTTP clients of a running server (src/tests); the user registry
  \<open>UserManagement\<close> beyond the lookup the core uses (app/services/https/UserManagement.py is
  not in the repository, so its own operations, and its reload after src/force_reset_memory.py
  clears it, cannot be modelled from code); parsing of ISO strings in
  \<open>_ensure_aware_datetime\<close> (the store returns datetime values); pydantic's acceptance of
  whitespace and underscores in integer strings; response validation of fields the core
  always fills with the declared types; the scheduler that triggers the flush.
\<close>

text \<open>Example data for the witnesses.\<close>

definition empty_post_doc :: post_doc where
  "empty_post_doc =
     \<lparr>pd_post_content = None, pd_post_type = None, pd_creator_user_id = None,
      pd_creator_user_name = None, pd_media_files = None, pd_like_count = None,
      pd_comment_count = None, pd_view_count = None, pd_liked_user_ids = None,
      pd_comment_ids = None, pd_post_category = None, pd_tags = None, pd_post_status = None,
      pd_created_at = None, pd_updated_at = None\<rparr>"

definition db_three_posts :: database where
  "db_three_posts =
     \<lparr>db_up = True, db_posts = [(1, empty_post_doc), (2, empty_post_doc), (3, empty_post_doc)],
      db_comments = [], db_users = []\<rparr>"

definition demo_users :: "user_id \<rightharpoonup> user" where
  "demo_users = [''u1'' \<mapsto> User_init (Some ''alice'') None ''u1'', ''u2'' \<mapsto> User_init None None ''u2'']"

definition demo_db :: database where
  "demo_db = \<lparr>db_up = True, db_posts = [], db_comments = [],
     db_users = [(''u1'', \<lparr>ud_post_ids = [], ud_liked_post_ids = []\<rparr>),
                 (''u2'', \<lparr>ud_post_ids = [], ud_liked_post_ids = []\<rparr>)]\<rparr>"

definition demo_world :: world where
  "demo_world = start_world demo_users demo_db"

definition demo_two_posts :: "(int \<times> op) list" where
  "demo_two_posts = [(1, CreatePost ''u1'' ''a'' ''text'' '''' None None), (2, CreatePost ''u2'' ''b'' ''text'' '''' None None)]"

definition demo_like_ops :: "(int \<times> op) list" where
  "demo_like_ops = [(1, CreatePost ''u1'' ''a'' ''text'' '''' None None), (2, TogglePostLike ''u2'' 1 ''like''),
     (3, TogglePostLike ''u2'' 1 ''like''), (4, TogglePostLike ''u1'' 1 ''unlike'')]"

definition demo_posted :: world where
  "demo_posted = snd (run [(1, CreatePost ''u1'' ''a'' ''text'' '''' None None)] demo_world)"

definition demo_liked :: world where
  "demo_liked = snd (toggle_post_like 2 ''u2'' 1 ''like'' demo_posted)"

definition demo_three :: world where
  "demo_three = snd (run [(1, CreatePost ''u1'' ''Hello'' ''text'' '''' None None),
                          (2, CreatePost ''u2'' ''bye'' ''text'' '''' (Some [''Go'']) None),
                          (3, CreatePost ''u1'' ''go home'' ''text'' '''' None None),
                          (4, TogglePostLike ''u2'' 1 ''like'')] demo_world)"

definition demo_down :: world where
  "demo_down = snd (exec_op 3 (SetStorage False) demo_posted)"

definition demo_outage :: world where
  "demo_outage = snd (run [(1000, SetStorage False), (1001, CreatePost ''u1'' ''lost'' ''text'' '''' None None),
                           (1002, SetStorage True)] demo_world)"

definition demo_deleted :: world where
  "demo_deleted = demo_posted\<lparr>posts_dict := map (\<lambda>(k, p). (k, p\<lparr>post_status := ''deleted''\<rparr>)) (posts_dict demo_posted)\<rparr>"

definition empty_comment_doc :: comment_doc where
  "empty_comment_doc = \<lparr>cd_post_id = Some 1, cd_comment_content = None, cd_commenter_user_id = None,
     cd_commenter_user_name = None, cd_like_count = None, cd_liked_user_ids = None, cd_comment_status = None,
     cd_created_at = None\<rparr>"

definition demo_stored_db :: database where
  "demo_stored_db = demo_db\<lparr>db_posts := [(1, empty_post_doc)], db_comments := [(1, empty_comment_doc)]\<rparr>"

definition demo_untimed :: world where
  "demo_untimed = snd (run [(1, Initialize), (2, CreateComment ''u2'' 1 ''hi'')] (start_world demo_users demo_stored_db))"

text \<open>
  The requests whose handler starts with the lazy guard \<open>if not ForumManager._initialized:
  await self.initialize()\<close> (and the two lifecycle calls): all but the comment listing, the
  status report, the flush and the storage switch.
\<close>

fun lazy_op :: "op \<Rightarrow> bool" where
  "lazy_op (GetPostComments _ _ _ _) = False"
| "lazy_op GetMemoryStatus = False"
| "lazy_op SaveToDatabase = False"
| "lazy_op (SetStorage _) = False"
| "lazy_op _ = True"

definition demo_offset_time :: datetime where
  "demo_offset_time = DateTime 1704069000000 (Some 28800000)"

lemma demo_world_core: "core_inv demo_world"
  by (simp add: demo_world_def start_world_def demo_users_def demo_db_def core_inv_def mem_inv_def
                user_inv_init dict_values_def)

lemma demo_posted_core: "core_inv demo_posted"
  unfolding demo_posted_def by (rule run_core_snd [OF demo_world_core])

section \<open>Properties\<close>

text \<open>
  C1. From any state satisfying the core invariant, the identifiers of the posts a run of requests reports as created are strictly increasing, and all exceed the post counter of the start state once it is seeded: no identifier is ever handed out twice.
\<close>

theorem post_ids_strictly_increase:
  assumes "core_inv w"
  shows "sorted_wrt (<) (created_post_ids (fst (run ops w))) \<and>
         (initialized (post_seq w) \<longrightarrow> (\<forall>i \<in> set (created_post_ids (fst (run ops w))). counter (post_seq w) < i))"
  using run_created_post_ids [OF assms] by simp

theorem post_ids_strictly_increase_witness:
  "core_inv demo_world \<and> created_post_ids (fst (run demo_two_posts demo_world)) = [1, 2] \<and>
   sorted_wrt (<) (created_post_ids (fst (run demo_two_posts demo_world)))"
proof -
  have "created_post_ids (fst (run demo_two_posts demo_world)) = [1, 2]" by code_simp
  with post_ids_strictly_increase [OF demo_world_core] demo_world_core show ?thesis by blast
qed

text \<open>
  C2. A successful \<open>create_post\<close> returns an identifier that was not a key of the cache, appends exactly that key to the post dictionary, stores a post with the given content, at most the first three tags, no likes and status \<open>published\<close>, and records the identifier in the creator's authored posts.
\<close>

theorem create_post_fresh_and_stored:
  assumes "core_inv w" and "create_post now c ct ty cat tg m w = (Some pid, w')"
  shows "pid \<notin> set (dict_keys (posts_dict (ensure_initialized now w))) \<and>
         dict_keys (posts_dict w') = dict_keys (posts_dict (ensure_initialized now w)) @ [pid] \<and>
         (\<exists>p. dict_get (posts_dict w') pid = Some p \<and> post_content p = ct \<and> tags p = take 3 (py_get tg []) \<and>
              post.like_count p = 0 \<and> post.liked_user_ids p = [] \<and> post_status p = ''published'') \<and>
         (\<exists>u. users w' c = Some u \<and> pid \<in> set (post_ids u))"
proof -
  let ?w1 = "ensure_initialized now w"
  from create_post_core [OF assms(2,1)]
  have pid: "pid = counter (post_seq ?w1) + 1"
    and keys: "dict_keys (posts_dict w') = dict_keys (posts_dict ?w1) @ [pid]" by simp_all
  from ensure_initialized_core [OF assms(1)] have "posts_keyed ?w1" by (simp add: core_inv_def)
  from keyed_fresh [OF this] pid have fresh: "pid \<notin> set (dict_keys (posts_dict ?w1))" by simp
  from assms(2) obtain u p s' where "users ?w1 c = Some u"
    and pi: "Post_init (post_seq ?w1) now (user_id u) (py_or_str (telegram_user_name u) (user_id u))
       ct (py_or_str (Some ty) ''text'') cat (Some (py_get tg [])) (Some (py_get m [])) = Inr (p, s')"
    and "pid = post.post_id p" "posts_dict w' = dict_set (posts_dict ?w1) pid p"
    and "users w' = (users ?w1)(c \<mapsto> add_post pid u)"
    by (rule create_post_SomeE)
  with Post_init_fields [OF pi] fresh keys show ?thesis
    by (auto simp: dict_get_set add_post_member py_get_def)
qed

theorem create_post_fresh_and_stored_witness:
  "core_inv demo_world \<and>
   fst (create_post 1 ''u1'' ''hi'' ''text'' '''' (Some [''a'', ''b'', ''c'', ''d'']) None demo_world) = Some 1 \<and>
   (\<exists>p. dict_get (posts_dict (snd (create_post 1 ''u1'' ''hi'' ''text'' '''' (Some [''a'', ''b'', ''c'', ''d'']) None demo_world))) 1 = Some p \<and>
        tags p = [''a'', ''b'', ''c''])"
proof -
  have f: "fst (create_post 1 ''u1'' ''hi'' ''text'' '''' (Some [''a'', ''b'', ''c'', ''d'']) None demo_world) = Some 1"
    by code_simp
  then have "create_post 1 ''u1'' ''hi'' ''text'' '''' (Some [''a'', ''b'', ''c'', ''d'']) None demo_world =
             (Some 1, snd (create_post 1 ''u1'' ''hi'' ''text'' '''' (Some [''a'', ''b'', ''c'', ''d'']) None demo_world))"
    by (metis prod.collapse)
  from create_post_fresh_and_stored [OF demo_world_core this] f demo_world_core show ?thesis
    by (auto simp: py_get_def)
qed

text \<open>
  C3. After any run of requests from a state satisfying the core invariant, every cached post and comment has a duplicate-free liker list whose cardinality is its like count, and every post's comment count is the length of its comment list.
\<close>

theorem like_count_matches_likers:
  assumes "core_inv w"
  shows "(\<forall>p \<in> set (dict_values (posts_dict (snd (run ops w)))).
            distinct (post.liked_user_ids p) \<and> post.like_count p = int (card (set (post.liked_user_ids p))) \<and>
            comment_count p = int (length (comment_ids p))) \<and>
         (\<forall>c \<in> set (dict_values (comments_dict (snd (run ops w)))).
            distinct (comment.liked_user_ids c) \<and> comment.like_count c = int (card (set (comment.liked_user_ids c))))"
proof -
  from run_core [OF assms, of ops "fst (run ops w)" "snd (run ops w)"] have "core_inv (snd (run ops w))" by simp
  then show ?thesis
    by (auto simp: core_inv_def mem_inv_def post_inv_def comment_inv_def distinct_card)
qed

theorem like_count_matches_likers_witness:
  "post.like_count (hd (dict_values (posts_dict (snd (run demo_like_ops demo_world))))) =
     int (card (set (post.liked_user_ids (hd (dict_values (posts_dict (snd (run demo_like_ops demo_world)))))))) \<and>
   post.like_count (hd (dict_values (posts_dict (snd (run demo_like_ops demo_world))))) = 1"
proof -
  have ne: "dict_values (posts_dict (snd (run demo_like_ops demo_world))) \<noteq> []" by code_simp
  have one: "post.like_count (hd (dict_values (posts_dict (snd (run demo_like_ops demo_world))))) = 1" by code_simp
  from like_count_matches_likers [OF demo_world_core, of demo_like_ops] hd_in_set [OF ne] one
  show ?thesis by blast
qed

text \<open>
  C4. Liking is idempotent: once \<open>toggle_post_like\<close> with action \<open>like\<close> has succeeded, liking the same post again by the same user returns the same result and changes nothing at all.
\<close>

theorem like_is_idempotent:
  assumes "toggle_post_like t1 u pid ''like'' w = (LikeOk a n b, w1)"
  shows "toggle_post_like t2 u pid ''like'' w1 = (LikeOk a n b, w1)"
proof -
  from toggle_like_ok [OF assms] obtain p where
    i: "fm_initialized w1" "db_up (db w1)" "a = ''like''" "b"
    and g: "dict_get (posts_dict w1) pid = Some (post_like t1 u p)" "n = post.like_count (post_like t1 u p)"
    and m: "\<forall>x. dict_get (db_users (db w1)) u = Some x \<longrightarrow> pid \<in> set (ud_liked_post_ids x)"
    by blast
  have "u \<in> set (post.liked_user_ids (post_like t1 u p))" by (simp add: post_like_liked)
  then have "post_like t2 u (post_like t1 u p) = post_like t1 u p" by (simp add: post_like_def)
  moreover have "users_add_to_set (db w1) u LikedPostIds pid = Some (0, db w1)"
    using i(2) m by (intro users_add_to_set_present) (simp_all add: ud_field_def)
  ultimately show ?thesis
    using i g by (simp add: toggle_post_like_def ensure_initialized_idem dict_set_same)
qed

theorem like_is_idempotent_witness:
  "fst (toggle_post_like 2 ''u2'' 1 ''like'' demo_posted) = LikeOk ''like'' 1 True \<and>
   toggle_post_like 3 ''u2'' 1 ''like'' demo_liked = (LikeOk ''like'' 1 True, demo_liked)"
proof -
  have f: "fst (toggle_post_like 2 ''u2'' 1 ''like'' demo_posted) = LikeOk ''like'' 1 True" by code_simp
  then have "toggle_post_like 2 ''u2'' 1 ''like'' demo_posted = (LikeOk ''like'' 1 True, demo_liked)"
    unfolding demo_liked_def by (metis prod.collapse)
  from like_is_idempotent [OF this, of 3] f show ?thesis by simp
qed

text \<open>
  C5. Round trip: flushing a cache that satisfies the core invariant into an empty store that is up, then hydrating a fresh process from that store, rebuilds exactly the same post and comment dictionaries (for entities with truthy keys and aware or absent timestamps).
\<close>

theorem flush_then_hydrate_restores_cache:
  assumes "core_inv w" and "db_up (db w)" and "db_posts (db w) = []" and "db_comments (db w) = []"
    and "\<forall>p \<in> set (dict_values (posts_dict w)). post.post_id p \<noteq> 0 \<and>
           ensure_aware_datetime (post.created_at p) = post.created_at p \<and>
           ensure_aware_datetime (updated_at p) = updated_at p"
    and "\<forall>c \<in> set (dict_values (comments_dict w)). comment_id c \<noteq> 0 \<and>
           ensure_aware_datetime (comment.created_at c) = comment.created_at c"
  shows "posts_dict (snd (initialize now (start_world us (db (snd (save_to_database w)))))) = posts_dict w \<and>
         comments_dict (snd (initialize now (start_world us (db (snd (save_to_database w)))))) = comments_dict w"
  using flush_hydrate_posts [OF assms(1-5)] flush_hydrate_comments [OF assms(1-4,6)] by simp

theorem flush_then_hydrate_restores_cache_witness:
  "posts_dict (snd (initialize 9 (start_world demo_users
      (db (snd (save_to_database (snd (run [(1, CreatePost ''u1'' ''a'' ''text'' '''' (Some [''t'']) None),
                                            (2, CreateComment ''u2'' 1 ''c'')] demo_world)))))))) =
   posts_dict (snd (run [(1, CreatePost ''u1'' ''a'' ''text'' '''' (Some [''t'']) None),
                         (2, CreateComment ''u2'' 1 ''c'')] demo_world)) \<and>
   dict_keys (posts_dict (snd (run [(1, CreatePost ''u1'' ''a'' ''text'' '''' (Some [''t'']) None),
                         (2, CreateComment ''u2'' 1 ''c'')] demo_world))) = [1]"
proof -
  let ?w = "snd (run [(1, CreatePost ''u1'' ''a'' ''text'' '''' (Some [''t'']) None),
                      (2, CreateComment ''u2'' 1 ''c'')] demo_world)"
  from run_core_snd [OF demo_world_core] have c: "core_inv ?w" .
  have up: "db_up (db ?w)" "db_posts (db ?w) = []" "db_comments (db ?w) = []" by code_simp+
  have k: "dict_keys (posts_dict ?w) = [1]" by code_simp
  have p: "\<forall>p \<in> set (dict_values (posts_dict ?w)). post.post_id p \<noteq> 0 \<and>
           ensure_aware_datetime (post.created_at p) = post.created_at p \<and>
           ensure_aware_datetime (updated_at p) = updated_at p" by code_simp
  have q: "\<forall>c \<in> set (dict_values (comments_dict ?w)). comment_id c \<noteq> 0 \<and>
           ensure_aware_datetime (comment.created_at c) = comment.created_at c" by code_simp
  from flush_then_hydrate_restores_cache [OF c up p q, of 9 demo_users] k show ?thesis by simp
qed

text \<open>
  C6. Calling \<open>initialize\<close> a second time, with no \<open>force_reinitialize\<close> in between, changes nothing: the outcome and the whole state equal those after the first call, whether the first call succeeded or failed.
\<close>

theorem initialize_twice_unchanged:
  "initialize t2 (snd (initialize t1 w)) = initialize t1 w"
  using initialize_idempotent [of t2 t1 w] by simp

text \<open>
  C7. A like followed by an unlike by a user who had not liked the post restores its liker list and its like count.
\<close>

theorem like_then_unlike_restores:
  assumes "core_inv w" and "dict_get (posts_dict (ensure_initialized t1 w)) pid = Some p"
    and "u \<notin> set (post.liked_user_ids p)"
    and "toggle_post_like t1 u pid ''like'' w = (LikeOk a n b, w1)"
    and "toggle_post_like t2 u pid ''unlike'' w1 = (r2, w2)"
  shows "\<exists>p2. dict_get (posts_dict w2) pid = Some p2 \<and>
              post.liked_user_ids p2 = post.liked_user_ids p \<and> post.like_count p2 = post.like_count p"
proof -
  from ensure_initialized_core [OF assms(1)] core_inv_post_get assms(2) have inv: "post_inv p" by blast
  from toggle_post_like_found [OF assms(2,4)]
  have w1: "posts_dict w1 = dict_set (posts_dict (ensure_initialized t1 w)) pid (post_like t1 u p)" by simp
  from toggle_like_ok [OF assms(4)] have "fm_initialized w1" by simp
  then have e: "ensure_initialized t2 w1 = w1" by (rule ensure_initialized_idem)
  have g: "dict_get (posts_dict (ensure_initialized t2 w1)) pid = Some (post_like t1 u p)"
    by (simp add: e w1 dict_get_set)
  from toggle_post_like_found [OF g assms(5)] e
  have "posts_dict w2 = dict_set (posts_dict w1) pid (post_unlike t2 u (post_like t1 u p))" by simp
  with post_unlike_like [OF inv assms(3)] show ?thesis by (simp add: dict_get_set)
qed

theorem like_then_unlike_restores_witness:
  "\<exists>p2. dict_get (posts_dict (snd (toggle_post_like 3 ''u2'' 1 ''unlike''
          (snd (toggle_post_like 2 ''u2'' 1 ''like''
             (snd (run [(1, CreatePost ''u1'' ''a'' ''text'' '''' None None)] demo_world))))))) 1 = Some p2 \<and>
        post.liked_user_ids p2 = [] \<and> post.like_count p2 = 0"
proof -
  let ?w = "snd (run [(1, CreatePost ''u1'' ''a'' ''text'' '''' None None)] demo_world)"
  from run_core_snd [OF demo_world_core] have c: "core_inv ?w" .
  let ?p = "the (dict_get (posts_dict (ensure_initialized 2 ?w)) 1)"
  have g: "dict_get (posts_dict (ensure_initialized 2 ?w)) 1 = Some ?p" by code_simp
  have u: "''u2'' \<notin> set (post.liked_user_ids ?p)" by code_simp
  have f: "fst (toggle_post_like 2 ''u2'' 1 ''like'' ?w) = LikeOk ''like'' 1 True" by code_simp
  then have l: "toggle_post_like 2 ''u2'' 1 ''like'' ?w = (LikeOk ''like'' 1 True, snd (toggle_post_like 2 ''u2'' 1 ''like'' ?w))"
    by (metis prod.collapse)
  have z: "post.liked_user_ids ?p = [] \<and> post.like_count ?p = 0" by code_simp
  from like_then_unlike_restores [OF c g u l prod.collapse [symmetric]] z show ?thesis by simp
qed

text \<open>
  C8. On a post present in the cache, \<open>toggle_post_like\<close> adds the user to the liker set for action \<open>like\<close> and removes the user for any other action string, keeps the like count equal to the set's cardinality, and returns either that count or, when the store is unreachable, a failure (with the memory change kept).
\<close>

theorem toggle_post_like_sets:
  assumes "core_inv w" and "dict_get (posts_dict (ensure_initialized now w)) pid = Some p"
    and "toggle_post_like now u pid a w = (r, w')"
  shows "\<exists>p'. dict_get (posts_dict w') pid = Some p' \<and>
           set (post.liked_user_ids p') =
             (if a = ''like'' then insert u (set (post.liked_user_ids p)) else set (post.liked_user_ids p) - {u}) \<and>
           post.like_count p' = int (card (set (post.liked_user_ids p'))) \<and>
           (r = LikeFail Raised \<or> r = LikeOk a (post.like_count p') (a = ''like''))"
proof -
  from ensure_initialized_core [OF assms(1)] core_inv_post_get assms(2) have inv: "post_inv p" by blast
  let ?p' = "if a = ''like'' then post_like now u p else post_unlike now u p"
  from toggle_post_like_found [OF assms(2,3)]
  have "dict_get (posts_dict w') pid = Some ?p'" "r = LikeFail Raised \<or> r = LikeOk a (post.like_count ?p') (a = ''like'')"
    by (simp_all add: dict_get_set)
  moreover have "post_inv ?p'" using inv by (simp add: post_like_inv post_unlike_inv)
  then have "post.like_count ?p' = int (card (set (post.liked_user_ids ?p')))"
    by (simp add: post_inv_def distinct_card)
  moreover have "set (post.liked_user_ids ?p') =
             (if a = ''like'' then insert u (set (post.liked_user_ids p)) else set (post.liked_user_ids p) - {u})"
    using inv by (simp add: post_like_liked post_unlike_liked post_inv_def)
  ultimately show ?thesis by (intro exI [of _ ?p'] conjI) assumption+
qed

theorem toggle_post_like_sets_witness:
  "\<exists>p'. dict_get (posts_dict demo_liked) 1 = Some p' \<and>
        set (post.liked_user_ids p') = {''u2''} \<and> post.like_count p' = 1"
proof -
  have c: "core_inv demo_posted" unfolding demo_posted_def by (rule run_core_snd [OF demo_world_core])
  let ?p = "the (dict_get (posts_dict (ensure_initialized 2 demo_posted)) 1)"
  have g: "dict_get (posts_dict (ensure_initialized 2 demo_posted)) 1 = Some ?p" by code_simp
  have z: "post.liked_user_ids ?p = []" by code_simp
  have t: "toggle_post_like 2 ''u2'' 1 ''like'' demo_posted =
           (fst (toggle_post_like 2 ''u2'' 1 ''like'' demo_posted), demo_liked)"
    unfolding demo_liked_def by (simp only: prod.collapse)
  from toggle_post_like_sets [OF c g t, unfolded if_P [OF refl]] obtain p' where
    "dict_get (posts_dict demo_liked) 1 = Some p'"
    "set (post.liked_user_ids p') = insert ''u2'' (set (post.liked_user_ids ?p))"
    "post.like_count p' = int (card (set (post.liked_user_ids p')))"
    by blast
  with z show ?thesis by auto
qed

text \<open>
  C9. Error path: \<open>create_comment\<close> on a post identifier absent from the cache fails with \<open>user not found\<close> or \<open>post not found\<close> and leaves the state as the lazy initialization left it; no comment identifier is drawn.
\<close>

theorem create_comment_missing_post:
  assumes "dict_get (posts_dict (ensure_initialized now w)) pid = None"
  shows "create_comment now u pid ct w =
           (CommentFail (Msg (if users (ensure_initialized now w) u = None then ''user not found'' else ''post not found'')),
            ensure_initialized now w)"
  using assms by (simp add: create_comment_def Let_def split: option.split)

theorem create_comment_missing_post_witness:
  "create_comment 1 ''u2'' 7 ''hi'' demo_world = (CommentFail (Msg ''post not found''), ensure_initialized 1 demo_world) \<and>
   comment_seq (ensure_initialized 1 demo_world) = \<lparr>counter = 0, initialized = True\<rparr>"
proof -
  have n: "dict_get (posts_dict (ensure_initialized 1 demo_world)) 7 = None" by code_simp
  have u: "users (ensure_initialized 1 demo_world) ''u2'' \<noteq> None" by code_simp
  have s: "comment_seq (ensure_initialized 1 demo_world) = \<lparr>counter = 0, initialized = True\<rparr>" by code_simp
  from create_comment_missing_post [OF n, of "''u2''" "''hi''"] u s show ?thesis by simp
qed

text \<open>
  C10. A successful \<open>create_comment\<close> draws the next comment identifier (fresh in the cache), stores a comment pointing to the post with the given content, and appends the identifier to the post's comment list, incrementing its comment count.
\<close>

theorem create_comment_attaches:
  assumes "core_inv w" and "create_comment now u pid ct w = (CommentOk cid, w')"
  shows "cid = counter (comment_seq (ensure_initialized now w)) + 1 \<and>
         cid \<notin> set (dict_keys (comments_dict (ensure_initialized now w))) \<and>
         (\<exists>p c. dict_get (posts_dict (ensure_initialized now w)) pid = Some p \<and>
            dict_get (comments_dict w') cid = Some c \<and> comment.post_id c = Some pid \<and> comment_content c = ct \<and>
            dict_get (posts_dict w') pid =
              Some (p\<lparr>comment_ids := comment_ids p @ [cid], comment_count := comment_count p + 1,
                      updated_at := Some (utc_now now)\<rparr>))"
proof -
  let ?w1 = "ensure_initialized now w"
  from create_comment_Ok [OF assms(2)] obtain p c where
    "dict_get (posts_dict ?w1) pid = Some p" "cid = comment_id c" "cid = counter (comment_seq ?w1) + 1"
    "comment.post_id c = Some pid" "comment_content c = ct"
    "comments_dict w' = dict_set (comments_dict ?w1) cid c"
    "posts_dict w' = dict_set (posts_dict ?w1) pid
                 (p\<lparr>comment_ids := comment_ids p @ [cid], comment_count := comment_count p + 1,
                     updated_at := Some (utc_now now)\<rparr>)"
    by blast
  moreover from ensure_initialized_core [OF assms(1)] have "comments_keyed ?w1" by (simp add: core_inv_def)
  then have "cid \<notin> set (dict_keys (comments_dict ?w1))" if "cid = counter (comment_seq ?w1) + 1"
    using that by (simp add: keyed_fresh)
  ultimately show ?thesis by (auto simp: dict_get_set)
qed

theorem create_comment_attaches_witness:
  "fst (create_comment 2 ''u2'' 1 ''nice'' demo_posted) = CommentOk 1 \<and>
   (\<exists>c. dict_get (comments_dict (snd (create_comment 2 ''u2'' 1 ''nice'' demo_posted))) 1 = Some c \<and>
        comment.post_id c = Some 1)"
proof -
  have f: "fst (create_comment 2 ''u2'' 1 ''nice'' demo_posted) = CommentOk 1" by code_simp
  then have "create_comment 2 ''u2'' 1 ''nice'' demo_posted =
             (CommentOk 1, snd (create_comment 2 ''u2'' 1 ''nice'' demo_posted))"
    by (metis prod.collapse)
  from create_comment_attaches [OF demo_posted_core this] f show ?thesis by blast
qed

text \<open>
  C11. Hydration keeps the cache keyed: from a state whose dictionaries are keyed (no duplicate key, every key the identifier of its entity, no key above its sequencer's counter), \<open>initialize\<close> yields a keyed state whose counters have not gone down.
\<close>

theorem hydration_keeps_keys:
  assumes "posts_keyed w" and "comments_keyed w"
  shows "posts_keyed (snd (initialize now w)) \<and> comments_keyed (snd (initialize now w)) \<and>
         seq_le (post_seq w) (post_seq (snd (initialize now w))) \<and>
         seq_le (comment_seq w) (comment_seq (snd (initialize now w)))"
  using initialize_keyed [OF assms] by simp

theorem hydration_keeps_keys_witness:
  "posts_keyed (start_world Map.empty db_three_posts) \<and>
   comments_keyed (start_world Map.empty db_three_posts) \<and>
   posts_keyed (snd (initialize 0 (start_world Map.empty db_three_posts)))"
proof -
  have k: "posts_keyed (start_world Map.empty db_three_posts)"
          "comments_keyed (start_world Map.empty db_three_posts)"
    by (simp_all add: start_world_def)
  from hydration_keeps_keys [OF k, of 0] k show ?thesis by simp
qed

text \<open>
  C12. The reconciler in closed form: afterwards a resident user's authored-post set is the old set together with the identifiers of every cached post naming that user as creator; an absent user stays absent.
\<close>

theorem reconcile_authored_posts:
  "map_option (set \<circ> post_ids) (reconcile_user_post_relationships pd us c) =
   map_option (\<lambda>u. set (post_ids u) \<union> set (map post.post_id (filter (\<lambda>p. creator_user_id p = c) (dict_values pd))))
              (us c)"
  by (simp add: reconcile_apply option.map_comp o_def set_post_ids_fold_add_post)

text \<open>
  C13. Hydration draws an identifier for every loaded document before raising the counter to the loaded key: on a cold start with the store up, the post counter seeded with the largest stored key s ends at the fold of c \<mapsto> max (c + 1) k over the stored keys k (key 0 skipped), so it lies at least one above s for every loaded post, and the next post identifier skips that many values.
\<close>

theorem hydration_counter_inflation:
  assumes "\<not> fm_initialized w" and "\<not> initialized (post_seq w)" and "db_up (db w)"
  shows "counter (post_seq (snd (initialize now w))) =
           foldl (\<lambda>c k. max (c + 1) k)
             (if db_posts (db w) = [] then 0 else Max (set (dict_keys (db_posts (db w)))))
             (filter (\<lambda>k. k \<noteq> 0) (dict_keys (db_posts (db w)))) \<and>
         (if db_posts (db w) = [] then 0 else Max (set (dict_keys (db_posts (db w))))) +
           int (length (filter (\<lambda>k. k \<noteq> 0) (dict_keys (db_posts (db w)))))
         \<le> counter (post_seq (snd (initialize now w)))"
proof -
  let ?s = "initialize_counter now (find_max_id True (db_posts (db w))) (post_seq w)"
  let ?seed = "if db_posts (db w) = [] then 0 else Max (set (dict_keys (db_posts (db w))))"
  have s: "initialized ?s" "counter ?s = ?seed"
    using assms(2) by (simp_all add: initialize_counter_def find_max_id_def)
  from initialize_post_seq [OF assms(1,3), of now] load_loop_post_counter [OF s(1), of now "db_posts (db w)" 0 "[]"] s(2)
  have "counter (post_seq (snd (initialize now w))) =
          foldl (\<lambda>c k. max (c + 1) k) ?seed (filter (\<lambda>k. k \<noteq> 0) (dict_keys (db_posts (db w))))"
    by (simp add: dict_keys_def)
  with foldl_inflate_ge show ?thesis by simp
qed

theorem hydration_counter_inflation_witness:
  "counter (post_seq (snd (initialize 0 (start_world Map.empty db_three_posts)))) = 6"
proof -
  have h: "\<not> fm_initialized (start_world Map.empty db_three_posts)"
          "\<not> initialized (post_seq (start_world Map.empty db_three_posts))"
          "db_up (db (start_world Map.empty db_three_posts))"
    by (simp_all add: start_world_def seq_init_def db_three_posts_def)
  from hydration_counter_inflation [OF h, of 0] show ?thesis
    by (simp add: start_world_def db_three_posts_def dict_keys_def)
qed

text \<open>
  C14. A page of get_posts_list is sorted newest-first for latest (by the aware created_at) and by the tuple (like_count, comment_count, created_at) descending for hot, on every path (a failed page is empty).
\<close>

theorem listing_sorted:
  assumes "get_posts_list now u st pg ps w = (r, w')"
  shows "(st = ''hot'' \<longrightarrow> sorted_wrt (\<ge>) (map (\<lambda>i. (pi_like_count i, pi_comment_count i, item_time i)) (pp_posts r))) \<and>
         (st \<noteq> ''hot'' \<longrightarrow> sorted_wrt (\<ge>) (map item_time (pp_posts r)))"
proof -
  let ?a = "fst (page_bounds pg ps)" and ?b = "snd (page_bounds pg ps)"
  from get_posts_list_items [OF assms] obtain liked where
    "pp_posts r = [] \<or> pp_posts r = map (post_item liked)
             (py_slice (if st = ''hot'' then py_sort_desc hot_key (published_posts w') else py_sort_desc time_key (published_posts w'))
                ?a ?b)" by blast
  then show ?thesis
  proof
    assume "pp_posts r = []"
    then show ?thesis by simp
  next
    assume eq: "pp_posts r = map (post_item liked)
             (py_slice (if st = ''hot'' then py_sort_desc hot_key (published_posts w') else py_sort_desc time_key (published_posts w'))
                ?a ?b)"
    have h: "sorted_wrt (\<ge>) (map (\<lambda>i. (pi_like_count i, pi_comment_count i, item_time i))
               (map (post_item liked) (py_slice (py_sort_desc hot_key (published_posts w')) ?a ?b)))"
      by (rule sorted_desc_page) (rule item_hot_post_item)
    have t: "sorted_wrt (\<ge>) (map item_time (map (post_item liked) (py_slice (py_sort_desc time_key (published_posts w')) ?a ?b)))"
      by (rule sorted_desc_page) (rule item_time_post_item)
    from h t eq show ?thesis by simp
  qed
qed

theorem listing_sorted_witness:
  "map pi_post_id (pp_posts (fst (get_posts_list 5 ''u2'' ''hot'' 1 3 demo_three))) = [1, 3, 2] \<and>
   sorted_wrt (\<ge>) (map (\<lambda>i. (pi_like_count i, pi_comment_count i, item_time i)) (pp_posts (fst (get_posts_list 5 ''u2'' ''hot'' 1 3 demo_three))))"
proof -
  have "map pi_post_id (pp_posts (fst (get_posts_list 5 ''u2'' ''hot'' 1 3 demo_three))) = [1, 3, 2]" by code_simp
  with listing_sorted [OF prod.collapse [symmetric]] show ?thesis by simp
qed

text \<open>
  C15. For a non-negative page_size, a page of get_posts_list never holds more than page_size items.
\<close>

theorem listing_page_bound:
  assumes "0 \<le> ps" and "get_posts_list now u st pg ps w = (r, w')"
  shows "length (pp_posts r) \<le> nat ps"
proof -
  obtain skip e where b: "page_bounds pg ps = (skip, e)" by fastforce
  from page_bounds_shape [OF b] have "0 \<le> skip" "e = skip + ps" by simp_all
  with get_posts_list_items [OF assms(2)] assms(1) b show ?thesis
    by (auto intro: py_slice_bound)
qed

theorem listing_page_bound_witness:
  "length (pp_posts (fst (get_posts_list 5 ''u2'' ''latest'' 2 2 demo_three))) = 1 \<and>
   length (pp_posts (fst (get_posts_list 5 ''u2'' ''latest'' 1 2 demo_three))) \<le> nat 2"
proof -
  have "length (pp_posts (fst (get_posts_list 5 ''u2'' ''latest'' 2 2 demo_three))) = 1" by code_simp
  with listing_page_bound [OF _ prod.collapse [symmetric], of 2] show ?thesis by simp
qed

text \<open>
  C16. Every item search_posts returns is a published post whose content or one of whose tags contains the query case-insensitively; the page is sorted newest-first and holds at most page_size items.
\<close>

theorem search_results_match:
  assumes "search_posts now u q pg ps w = (r, w')"
  shows "sorted_wrt (\<ge>) (map item_time (pp_posts r)) \<and>
         (\<forall>i \<in> set (pp_posts r). \<exists>p \<in> set (published_posts w'). post_matches q p \<and> pi_post_id i = post.post_id p) \<and>
         (0 \<le> ps \<longrightarrow> length (pp_posts r) \<le> nat ps)"
proof -
  let ?a = "fst (page_bounds pg ps)" and ?b = "snd (page_bounds pg ps)"
  let ?m = "filter (post_matches q) (published_posts w')"
  from search_posts_items [OF assms] obtain liked where
    "pp_posts r = [] \<or> pp_posts r = map (post_item liked) (py_slice (py_sort_desc time_key ?m) ?a ?b)" by blast
  then show ?thesis
  proof
    assume "pp_posts r = []"
    then show ?thesis by simp
  next
    assume eq: "pp_posts r = map (post_item liked) (py_slice (py_sort_desc time_key ?m) ?a ?b)"
    have "sorted_wrt (\<ge>) (map item_time (map (post_item liked) (py_slice (py_sort_desc time_key ?m) ?a ?b)))"
      by (rule sorted_desc_page) (rule item_time_post_item)
    moreover have "\<forall>i \<in> set (pp_posts r). \<exists>p \<in> set (published_posts w'). post_matches q p \<and> pi_post_id i = post.post_id p"
      using eq set_py_slice [of "py_sort_desc time_key ?m" ?a ?b] by (auto simp: post_item_def)
    moreover have "0 \<le> ps \<longrightarrow> length (pp_posts r) \<le> nat ps"
    proof
      assume "0 \<le> ps"
      obtain skip e where b: "page_bounds pg ps = (skip, e)" by fastforce
      from page_bounds_shape [OF b] \<open>0 \<le> ps\<close> eq b show "length (pp_posts r) \<le> nat ps"
        by (auto intro: py_slice_bound)
    qed
    ultimately show ?thesis using eq by simp
  qed
qed

theorem search_results_match_witness:
  "map pi_post_id (pp_posts (fst (search_posts 5 ''u2'' ''GO'' 1 10 demo_three))) = [3, 2] \<and>
   sorted_wrt (\<ge>) (map item_time (pp_posts (fst (search_posts 5 ''u2'' ''GO'' 1 10 demo_three))))"
proof -
  have "map pi_post_id (pp_posts (fst (search_posts 5 ''u2'' ''GO'' 1 10 demo_three))) = [3, 2]" by code_simp
  with search_results_match [OF prod.collapse [symmetric]] show ?thesis by simp
qed

text \<open>
  C17. get_post_comments lists only published comments of the requested post, oldest first (the only listing sorted ascending).
\<close>

theorem comments_oldest_first:
  "sorted (map (\<lambda>i. map_option dt_instant (ci_created_at i)) (cp_comments (get_post_comments pid u pg ps w))) \<and>
   (\<forall>i \<in> set (cp_comments (get_post_comments pid u pg ps w)). \<exists>c \<in> set (dict_values (comments_dict w)).
      comment.post_id c = Some pid \<and> comment_status c = ''published'' \<and> i = comment_item u c)"
proof -
  let ?f = "\<lambda>c. map_option dt_instant (comment.created_at c)"
  let ?pcs = "filter (\<lambda>c. comment.post_id c = Some pid \<and> comment_status c = ''published'') (dict_values (comments_dict w))"
  let ?a = "fst (page_bounds pg ps)" and ?b = "snd (page_bounds pg ps)"
  have k: "(\<lambda>i. map_option dt_instant (ci_created_at i)) \<circ> comment_item u = ?f"
    by (simp add: comment_item_def fun_eq_iff)
  have "sorted (map ?f (py_slice (sort_key ?f ?pcs) ?a ?b))"
    by (simp add: py_slice_map sorted_wrt_py_slice sorted_sort_key del: sorted_map)
  moreover have "set (py_slice (sort_key ?f ?pcs) ?a ?b) \<subseteq> set ?pcs"
    using set_py_slice [of "sort_key ?f ?pcs" ?a ?b] by simp
  ultimately show ?thesis
    by (auto simp: get_post_comments_def Let_def k split: prod.splits)
qed

theorem comments_oldest_first_witness:
  "map ci_comment_id (cp_comments (get_post_comments 1 ''u2'' 1 10
      (snd (run [(5, CreateComment ''u2'' 1 ''first''), (6, CreateComment ''u1'' 1 ''second'')] demo_three)))) = [1, 2] \<and>
   sorted (map (\<lambda>i. map_option dt_instant (ci_created_at i)) (cp_comments (get_post_comments 1 ''u2'' 1 10
      (snd (run [(5, CreateComment ''u2'' 1 ''first''), (6, CreateComment ''u1'' 1 ''second'')] demo_three)))))"
proof -
  have "map ci_comment_id (cp_comments (get_post_comments 1 ''u2'' 1 10
      (snd (run [(5, CreateComment ''u2'' 1 ''first''), (6, CreateComment ''u1'' 1 ''second'')] demo_three)))) = [1, 2]"
    by code_simp
  with comments_oldest_first show ?thesis by blast
qed

text \<open>
  C18. With the store up, after save_to_database every cached post and comment is stored under its identifier as exactly its to_dict document.
\<close>

theorem flush_writes_every_entity:
  assumes "core_inv w" and "db_up (db w)"
  shows "(\<forall>p \<in> set (dict_values (posts_dict w)).
            dict_get (db_posts (db (snd (save_to_database w)))) (post.post_id p) = Some (snd (post_to_dict p))) \<and>
         (\<forall>c \<in> set (dict_values (comments_dict w)).
            dict_get (db_comments (db (snd (save_to_database w)))) (comment_id c) = Some (snd (comment_to_dict c)))"
proof -
  from assms(1) have kp: "posts_keyed w" and kc: "comments_keyed w" by (simp_all add: core_inv_def)
  show ?thesis
    by (simp add: save_to_database_up [OF assms(2)] write_all_member [OF keyed_distinct_keys [OF kp]]
                  write_all_member [OF keyed_distinct_keys [OF kc]])
qed

theorem flush_writes_every_entity_witness:
  "dict_get (db_posts (db (snd (save_to_database demo_posted)))) 1 =
     Some (snd (post_to_dict (the (dict_get (posts_dict demo_posted) 1))))"
proof -
  have h: "db_up (db demo_posted)" "the (dict_get (posts_dict demo_posted) 1) \<in> set (dict_values (posts_dict demo_posted))"
    "post.post_id (the (dict_get (posts_dict demo_posted) 1)) = 1" by code_simp+
  from flush_writes_every_entity [OF demo_posted_core h(1)] h(2,3) show ?thesis by force
qed

text \<open>
  C19. save_to_database reports success exactly when the store is up or there was nothing to write.
\<close>

theorem save_to_database_reports:
  "fst (save_to_database w) \<longleftrightarrow> db_up (db w) \<or> (posts_dict w = [] \<and> comments_dict w = [])"
  by (cases "db_up (db w)") (simp_all add: save_to_database_up save_to_database_down)

text \<open>
  C20. toggle_comment_like never touches the store, the user registry or the posts: it changes only the comment dictionary.
\<close>

theorem toggle_comment_like_memory_only:
  assumes "toggle_comment_like now u cid a w = (r, w')"
  shows "db w' = db w \<and> users w' = users (ensure_initialized now w) \<and>
         posts_dict w' = posts_dict (ensure_initialized now w) \<and> post_seq w' = post_seq (ensure_initialized now w)"
  using assms by (auto simp: toggle_comment_like_def Let_def split: option.splits)

theorem toggle_comment_like_memory_only_witness:
  "db (snd (toggle_comment_like 7 ''u1'' 1 ''like'' (snd (create_comment 6 ''u2'' 1 ''c'' demo_posted)))) =
   db (snd (create_comment 6 ''u2'' 1 ''c'' demo_posted)) \<and>
   fst (toggle_comment_like 7 ''u1'' 1 ''like'' (snd (create_comment 6 ''u2'' 1 ''c'' demo_posted))) = LikeOk ''like'' 1 True"
proof -
  have "fst (toggle_comment_like 7 ''u1'' 1 ''like'' (snd (create_comment 6 ''u2'' 1 ''c'' demo_posted))) = LikeOk ''like'' 1 True"
    by code_simp
  with toggle_comment_like_memory_only [OF prod.collapse [symmetric]] show ?thesis by simp
qed

text \<open>
  C21. Finding: with the store down, liking a cached post applies the like in memory and yet reports a failure (the spec: storage failures leave only the user-centric relation unsynchronized).
\<close>

theorem like_with_storage_down:
  assumes "fm_initialized w" and "\<not> db_up (db w)" and "dict_get (posts_dict w) pid = Some p"
  shows "toggle_post_like now u pid ''like'' w =
           (LikeFail Raised, w\<lparr>posts_dict := dict_set (posts_dict w) pid (post_like now u p)\<rparr>)"
  using assms by (simp add: toggle_post_like_def ensure_initialized_idem users_add_to_set_def)

theorem like_with_storage_down_witness:
  "fst (toggle_post_like 4 ''u2'' 1 ''like'' demo_down) = LikeFail Raised \<and>
   post.like_count (the (dict_get (posts_dict (snd (toggle_post_like 4 ''u2'' 1 ''like'' demo_down))) 1)) = 1"
proof -
  let ?p = "the (dict_get (posts_dict demo_down) 1)"
  have h: "fm_initialized demo_down" "\<not> db_up (db demo_down)" "dict_get (posts_dict demo_down) 1 = Some ?p" by code_simp+
  have "post.like_count (post_like 4 ''u2'' ?p) = 1" by code_simp
  with like_with_storage_down [OF h, of 4 "''u2''"] show ?thesis by (simp add: dict_get_set)
qed

text \<open>
  C22. Finding: a post created while hydration had failed (the store was down) lives only in memory; the next successful initialize rebuilds the cache from the store and drops it.
\<close>

theorem outage_posts_lost:
  assumes "\<not> fm_initialized w" and "db_up (db w)" and "pid \<notin> set (dict_keys (db_posts (db w)))"
  shows "dict_get (posts_dict (snd (initialize now w))) pid = None"
proof -
  let ?s = "initialize_counter now (find_max_id True (db_posts (db w))) (post_seq w)"
  from initialize_loaded [OF assms(1,2), of now]
  have e: "posts_dict (snd (initialize now w)) = snd (snd (load_loop (load_post now) (db_posts (db w)) 0 ?s []))"
    by simp
  have "set (dict_keys (snd (snd (load_loop (load_post now) (db_posts (db w)) 0 ?s [])))) \<subseteq>
        fst ` set (db_posts (db w))"
    using load_loop_keys [of "load_post now" "db_posts (db w)" 0 ?s "[]"] by (simp add: dict_keys_def)
  with assms(3) e show ?thesis by (auto simp: dict_get_None_iff dict_keys_def)
qed

theorem outage_posts_lost_witness:
  "dict_get (posts_dict demo_outage) 1002 \<noteq> None \<and> dict_get (posts_dict (snd (initialize 1003 demo_outage))) 1002 = None"
proof -
  have h: "\<not> fm_initialized demo_outage" "db_up (db demo_outage)" "1002 \<notin> set (dict_keys (db_posts (db demo_outage)))"
    "dict_get (posts_dict demo_outage) 1002 \<noteq> None" by code_simp+
  with outage_posts_lost [OF h(1-3)] show ?thesis by simp
qed

text \<open>
  C23. Finding: when a post has two or more published comments and one has no created_at, sorting by created_at raises and get_post_comments fails with an empty page.
\<close>

theorem comment_listing_fails_without_timestamp:
  assumes "2 \<le> length (filter (\<lambda>c. comment.post_id c = Some pid \<and> comment_status c = ''published'') (dict_values (comments_dict w)))"
    and "c \<in> set (dict_values (comments_dict w))" and "comment.post_id c = Some pid" and "comment_status c = ''published''"
    and "comment.created_at c = None"
  shows "\<not> cp_success (get_post_comments pid u pg ps w) \<and> cp_comments (get_post_comments pid u pg ps w) = []"
proof -
  let ?pcs = "filter (\<lambda>c. comment.post_id c = Some pid \<and> comment_status c = ''published'') (dict_values (comments_dict w))"
  from assms(2-5) have "None \<in> set (map comment.created_at ?pcs)" by force
  with assms(1) have "\<not> py_dt_sortable (map comment.created_at ?pcs)"
    by (auto simp: py_dt_sortable_def list_all_iff is_aware_def)
  then show ?thesis by (simp add: get_post_comments_def Let_def split: prod.splits)
qed

theorem comment_listing_fails_without_timestamp_witness:
  "\<not> cp_success (get_post_comments 1 ''u2'' 1 10 demo_untimed)"
proof -
  let ?c = "the (dict_get (comments_dict demo_untimed) 1)"
  have "2 \<le> length (filter (\<lambda>c. comment.post_id c = Some 1 \<and> comment_status c = ''published'') (dict_values (comments_dict demo_untimed)))"
    by code_simp
  moreover have "?c \<in> set (dict_values (comments_dict demo_untimed))" "comment.post_id ?c = Some 1"
    "comment_status ?c = ''published''" "comment.created_at ?c = None" by code_simp+
  ultimately show ?thesis using comment_listing_fails_without_timestamp by blast
qed

text \<open>
  C24. Finding: get_post_detail returns any cached post, whatever its status, so a soft-deleted post stays readable (the spec asks every read path to apply the status filter).
\<close>

theorem detail_ignores_status:
  assumes "fm_initialized w" and "dict_get (posts_dict w) pid = Some p" and "viewer_liked w u = Some l"
  shows "get_post_detail now u pid w = (DetailOk (post_item l p), w)"
  using assms by (simp add: get_post_detail_def ensure_initialized_idem)

theorem detail_ignores_status_witness:
  "post_status (the (dict_get (posts_dict demo_deleted) 1)) = ''deleted'' \<and>
   get_post_detail 5 ''u2'' 1 demo_deleted = (DetailOk (post_item [] (the (dict_get (posts_dict demo_deleted) 1))), demo_deleted)"
proof -
  have h: "fm_initialized demo_deleted" "dict_get (posts_dict demo_deleted) 1 = Some (the (dict_get (posts_dict demo_deleted) 1))"
    "viewer_liked demo_deleted ''u2'' = Some []" "post_status (the (dict_get (posts_dict demo_deleted) 1)) = ''deleted''"
    by code_simp+
  from detail_ignores_status [OF h(1-3)] h(4) show ?thesis by simp
qed

text \<open>
  C25. Finding: get_post_comments does not run the lazy initialization: on a freshly started process, whatever the store holds, it succeeds with an empty page, while an initialize over a reachable store would have loaded every stored comment with a truthy key.
\<close>

theorem comments_listing_skips_initialization:
  "cp_success (get_post_comments pid u pg ps (start_world us d)) \<and>
   cp_comments (get_post_comments pid u pg ps (start_world us d)) = [] \<and>
   (db_up d \<longrightarrow> set (dict_keys (comments_dict (snd (initialize now (start_world us d))))) =
                 {k \<in> set (dict_keys (db_comments d)). k \<noteq> 0})"
proof -
  have "\<not> fm_initialized (start_world us d)" "db (start_world us d) = d" by (simp_all add: start_world_def)
  with initialize_comment_keys [of "start_world us d" now] show ?thesis
    by (simp add: get_post_comments_def start_world_def dict_values_def py_dt_sortable_def py_slice_def split_def Let_def)
qed

theorem comments_listing_skips_initialization_witness:
  "cp_comments (get_post_comments 1 ''u2'' 1 10 (start_world demo_users demo_stored_db)) = [] \<and>
   set (dict_keys (comments_dict (snd (initialize 2 (start_world demo_users demo_stored_db))))) = {1}"
proof -
  have up: "db_up demo_stored_db" by (simp add: demo_stored_db_def demo_db_def)
  from comments_listing_skips_initialization [where pid = 1 and u = "''u2''" and pg = 1 and ps = 10
         and us = demo_users and d = demo_stored_db and now = 2] up
  show ?thesis by (auto simp: demo_stored_db_def dict_keys_def)
qed

text \<open>
  C26. The HTTP layer and the response model agree on identities: when a create-post request with integer identity c succeeds for a user whose registry entry carries the identity \<open>str(c)\<close>, the created post is cached under the returned identifier with creator \<open>str(c)\<close>, and every listing item built from it validates against \<open>CreatorInfo\<close> (its \<open>user_id\<close> parses back as an int), so the listing route does not fail on it.
\<close>

theorem api_created_post_validates:
  assumes "users w (show_int c) = Some u" and "user_id u = show_int c"
    and "api_call now (CreatePostReq (JInt c) ct ty cat tg m) w = (HttpOk (ApiCreated True (Some pid) msg), w')"
  shows "\<exists>p. dict_get (posts_dict w') pid = Some p \<and> creator_user_id p = show_int c \<and>
             (\<forall>liked. post_item_ok (post_item liked p))"
proof -
  obtain r w'' where cp: "create_post now (show_int c) ct ty (py_or_str cat '''') (Some tg) (Some m) w = (r, w'')"
    by fastforce
  with assms(3) have r: "r = Some pid" and w: "w'' = w'" by (auto split: option.splits if_splits)
  from cp obtain u' p s' where "users (ensure_initialized now w) (show_int c) = Some u'"
    "Post_init (post_seq (ensure_initialized now w)) now (user_id u') (py_or_str (telegram_user_name u') (user_id u'))
       ct (py_or_str (Some ty) ''text'') (py_or_str cat '''') (Some (py_get (Some tg) [])) (Some (py_get (Some m) []))
       = Inr (p, s')"
    "pid = post.post_id p" "posts_dict w' = dict_set (posts_dict (ensure_initialized now w)) pid p"
    unfolding r w by (rule create_post_SomeE)
  moreover from ensure_initialized_user_id [of now w "show_int c"] assms(1,2) calculation(1)
  have "user_id u' = show_int c" by simp
  ultimately show ?thesis
    by (auto simp: dict_get_set Post_init_def post_item_ok_def post_item_def creator_info_ok_def parse_show_int split: sum.splits)
qed

theorem api_created_post_validates_witness:
  "\<exists>p. dict_get (posts_dict (snd (api_call 1 (CreatePostReq (JInt 7) ''hi'' ''text'' None [] [])
                 (start_world [''7'' \<mapsto> User_init None None ''7''] demo_db)))) 1 = Some p \<and>
       creator_user_id p = ''7'' \<and> (\<forall>liked. post_item_ok (post_item liked p))"
proof -
  let ?w = "start_world [''7'' \<mapsto> User_init None None ''7''] demo_db"
  let ?q = "CreatePostReq (JInt 7) ''hi'' ''text'' None [] []"
  have s: "show_int 7 = ''7''" by code_simp
  have r: "fst (api_call 1 ?q ?w) = HttpOk (ApiCreated True (Some 1) ''post created'')" by code_simp
  have e: "api_call 1 ?q ?w = (HttpOk (ApiCreated True (Some 1) ''post created''), snd (api_call 1 ?q ?w))"
    by (simp only: r [symmetric] prod.collapse)
  have u: "users ?w (show_int 7) = Some (User_init None None ''7'')" "user_id (User_init None None ''7'') = show_int 7"
    by (simp_all add: s start_world_def User_init_def)
  from api_created_post_validates [OF u e] show ?thesis by (simp add: s)
qed

text \<open>
  C27. Finding: every route declares the user identity an \<open>int\<close>, so a request carrying a
  string identity such as an openid is rejected with 422 before it reaches the core and
  changes nothing, although the specification and the openid smoke test use opaque string
  identities.
\<close>

theorem api_rejects_string_identity:
  assumes "pyd_int (req_user req) = None"
  shows "api_call now req w = (Http422, w)"
  using assms by (rule api_call_invalid_user)

theorem api_rejects_string_identity_witness:
  "api_call 1 (CreatePostReq (JStr ''wx_openid_u1'') ''hi'' ''text'' None [] []) demo_world = (Http422, demo_world)"
proof -
  have "pyd_int (req_user (CreatePostReq (JStr ''wx_openid_u1'') ''hi'' ''text'' None [] [])) = None" by code_simp
  from api_rejects_string_identity [OF this] show ?thesis .
qed

text \<open>
  C28. Finding: the response model \<open>CreatorInfo\<close> declares \<open>user_id: int\<close>; when a listed
  post's creator identity is not a decimal string, building \<open>GetPostsListResponse\<close> raises
  and the route answers 500, although the handler succeeded (and its lazy initialization
  and self-healing effects on the state remain).
\<close>

theorem api_listing_fails_on_string_creator:
  assumes "pyd_int uid = Some u" and "1 \<le> pg" and "1 \<le> ps" and "ps \<le> 100"
    and "get_posts_list now (show_int u) st pg ps w = (r, w')"
    and "i \<in> set (pp_posts r)" and "\<not> creator_info_ok (pi_creator_user_id i)"
  shows "api_call now (GetPostsListReq uid st pg ps) w = (Http500, w')"
  using assms by (auto simp: post_item_ok_def list_all_iff)

theorem api_listing_fails_on_string_creator_witness:
  "api_call 5 (GetPostsListReq (JInt 2) ''latest'' 1 10) demo_three = (Http500, snd (get_posts_list 5 ''2'' ''latest'' 1 10 demo_three))"
proof -
  let ?r = "fst (get_posts_list 5 (show_int 2) ''latest'' 1 10 demo_three)"
  have h: "pp_posts ?r \<noteq> []" "\<not> creator_info_ok (pi_creator_user_id (hd (pp_posts ?r)))" by code_simp+
  have s: "show_int 2 = ''2''" by code_simp
  from api_listing_fails_on_string_creator [where uid = "JInt 2", OF _ _ _ _ prod.collapse [symmetric] hd_in_set [OF h(1)] h(2)] s
  show ?thesis by simp
qed

text \<open>
  C29. Finding: the repair script src/fix_memory_direct.py selects the posts of the test user
  by \<open>post.creator_user_id == 123456\<close>, but creator identities are strings, so the test never
  holds: the script collects no post, patches no name, and amounts to a lazy initialization
  followed by a flush.
\<close>

theorem fix_script_repairs_nothing:
  "fst (fst (fix_memory_direct now w)) = [] \<and>
   snd (fix_memory_direct now w) = snd (save_to_database (ensure_initialized now w))"
proof -
  have "map (\<lambda>(k, p). (k, if fix_target p \<and> creator_user_name p = []
                            then p\<lparr>creator_user_name := ''test_user_123456''\<rparr> else p)) xs = xs" for xs :: "(int \<times> post) list"
    by (induction xs) (auto simp: fix_target_never)
  then show ?thesis
    by (simp add: fix_memory_direct_def Let_def fix_target_never split: prod.splits)
qed

text \<open>
  C30. Searching with the empty query gives exactly the page (and the state) of the latest
  listing, whenever the cache holds a published post after the lazy guard: the empty string
  is a substring of every content, and both handlers sort newest-first and paginate alike.
\<close>

theorem search_empty_query_is_latest:
  assumes "published_posts (ensure_initialized now w) \<noteq> []"
  shows "search_posts now u [] pg ps w = get_posts_list now u ''latest'' pg ps w"
  using assms by (simp add: search_posts_def get_posts_list_def Let_def split: prod.splits option.splits)

theorem search_empty_query_is_latest_witness:
  "published_posts (ensure_initialized 5 demo_three) \<noteq> [] \<and>
   search_posts 5 ''u2'' [] 1 2 demo_three = get_posts_list 5 ''u2'' ''latest'' 1 2 demo_three"
proof -
  have "length (published_posts (ensure_initialized 5 demo_three)) = 3" by code_simp
  then have h: "published_posts (ensure_initialized 5 demo_three) \<noteq> []" by auto
  from search_empty_query_is_latest [OF h] h show ?thesis by blast
qed

text \<open>
  C31. Lazy initialization: while storage is up, every request whose handler starts with the
  lazy guard leaves the cache initialized (the listing's self-healing re-initialization
  included).
\<close>

theorem lazy_requests_initialize:
  assumes "db_up (db w)" and "lazy_op o'"
  shows "fm_initialized (snd (exec_op now o' w))"
proof -
  have e: "fm_initialized (ensure_initialized now w)" by (rule ensure_initialized_up [OF assms(1)])
  have f: "fm_initialized (snd (force_reinitialize now w'))" if "db_up (db w')" for w'
    using initialize_up [of "w'\<lparr>fm_initialized := False\<rparr>" now] that by (simp add: force_reinitialize_def)
  from assms(1) have f1: "fm_initialized (snd (force_reinitialize now (ensure_initialized now w)))"
    by (simp add: f)
  show ?thesis
  proof (cases o')
    case (GetPostsList u st pg ps)
    then show ?thesis using e f1 get_posts_list_state [OF prod.collapse [symmetric], of now u st pg ps w]
      by (auto split: prod.splits)
  next
    case (SearchPosts u q pg ps)
    then show ?thesis using e search_posts_state [OF prod.collapse [symmetric], of now u q pg ps w]
      by (auto split: prod.splits)
  next
    case (GetPostDetail u pid)
    then show ?thesis using e get_post_detail_state [OF prod.collapse [symmetric], of now u pid w]
      by (auto split: prod.splits)
  next
    case Initialize
    then show ?thesis using initialize_up [OF assms(1), of now] by (cases "initialize now w") simp
  next
    case ForceReinitialize
    then show ?thesis using f [OF assms(1)] by (auto split: prod.splits)
  qed (use assms e in \<open>simp_all add: split_def Let_def create_post_flag toggle_post_like_flag create_comment_flag
        toggle_comment_like_flag\<close>)
qed

theorem lazy_requests_initialize_witness:
  "db_up (db demo_world) \<and> lazy_op (GetPostsList ''u1'' ''latest'' 1 10) \<and>
   fm_initialized (snd (exec_op 1 (GetPostsList ''u1'' ''latest'' 1 10) demo_world))"
proof -
  have up: "db_up (db demo_world)" by (simp add: demo_world_def start_world_def demo_db_def)
  have l: "lazy_op (GetPostsList ''u1'' ''latest'' 1 10)" by simp
  from lazy_requests_initialize [OF up l] up l show ?thesis by blast
qed

text \<open>
  C32. The time display shows the wall clock: its month and day are the calendar date of the
  value's day number (ymd2ord inverts the conversion), and its hour and minute are the time
  of day truncated to the minute.
\<close>

theorem time_display_is_wall_clock:
  "\<exists>y m d h mi.
     format_time_display (Some t) = zero_pad2 m @ ''-'' @ zero_pad2 d @ '' '' @ zero_pad2 h @ '':'' @ zero_pad2 mi \<and>
     ymd2ord y m d = dt_wall t div 86400000 + 719163 \<and>
     1 \<le> m \<and> m \<le> 12 \<and> 1 \<le> d \<and> d \<le> days_in_month y m \<and>
     0 \<le> h \<and> h \<le> 23 \<and> 0 \<le> mi \<and> mi \<le> 59 \<and>
     h * 3600000 + mi * 60000 \<le> dt_wall t mod 86400000 \<and>
     dt_wall t mod 86400000 < h * 3600000 + mi * 60000 + 60000"
proof -
  obtain y m d h mi where f: "datetime_fields t = (y, m, d, h, mi)" by (cases "datetime_fields t") auto
  then have "format_time_display (Some t) = zero_pad2 m @ ''-'' @ zero_pad2 d @ '' '' @ zero_pad2 h @ '':'' @ zero_pad2 mi"
    by (simp add: format_time_display_def)
  with datetime_fields_ok [OF f] show ?thesis by blast
qed

text \<open>
  C33. The time display of a datetime is always eleven characters, MM-DD HH:MM: digits with
  the separators at positions 2, 5 and 8.
\<close>

theorem time_display_width:
  "length (format_time_display (Some t)) = 11 \<and>
   map (\<lambda>i. format_time_display (Some t) ! i) [2, 5, 8] = ''- :'' \<and>
   list_all (\<lambda>i. digit_char (format_time_display (Some t) ! i)) [0, 1, 3, 4, 6, 7, 9, 10]"
proof -
  from format_time_display_fields [of t] obtain y m d h mi where
    a: "format_time_display (Some t) = zero_pad2 m @ ''-'' @ zero_pad2 d @ '' '' @ zero_pad2 h @ '':'' @ zero_pad2 mi"
    and a2: "1 \<le> m \<and> m \<le> 12 \<and> 1 \<le> d \<and> d \<le> days_in_month y m \<and> 0 \<le> h \<and> h \<le> 23 \<and> 0 \<le> mi \<and> mi \<le> 59"
    by blast
  have "d \<le> 31" using a2 days_in_month_le [of m y] by simp
  then have s: "length (zero_pad2 k) = 2 \<and> list_all digit_char (zero_pad2 k)" if "k \<in> {m, d, h, mi}" for k
    using that a2 zero_pad2_shape [of k] by auto
  from s [of m] s [of d] s [of h] s [of mi] obtain m1 m2 d1 d2 h1 h2 i1 i2 where
    "zero_pad2 m = [m1, m2]" "zero_pad2 d = [d1, d2]" "zero_pad2 h = [h1, h2]" "zero_pad2 mi = [i1, i2]"
    "list_all digit_char [m1, m2, d1, d2, h1, h2, i1, i2]"
    by (auto simp: length_Suc_conv numeral_2_eq_2)
  with a show ?thesis by simp
qed

text \<open>
  C34. The display formats the value's own wall clock, not UTC as the docstring of
  _format_time_display says: an aware timestamp whose offset is whole minutes but not whole
  days is displayed differently from the same instant in UTC.
\<close>

theorem time_display_offset_shift:
  assumes "dt_tz t = Some off" "off mod 60000 = 0" "off mod 86400000 \<noteq> 0"
  shows "format_time_display (Some t) \<noteq> format_time_display (Some (DateTime (dt_instant t) (Some 0)))"
proof
  let ?w = "dt_wall t" and ?D = "86400000 :: int"
  assume "format_time_display (Some t) = format_time_display (Some (DateTime (dt_instant t) (Some 0)))"
  from time_display_minute [OF this] assms(1)
  have q: "?w mod ?D div 60000 = (?w - off) mod ?D div 60000" by (simp add: dt_instant_def)
  have "(60000::int) dvd ?D" by simp
  then have r: "?w mod ?D mod 60000 = ?w mod 60000" "(?w - off) mod ?D mod 60000 = (?w - off) mod 60000"
    by (simp_all add: mod_mod_cancel)
  have "(?w - off) mod 60000 = (?w - off mod 60000) mod 60000" by (simp add: mod_diff_right_eq)
  with assms(2) r have "(?w - off) mod ?D mod 60000 = ?w mod ?D mod 60000" by simp
  with q have "?w mod ?D = (?w - off) mod ?D" by (metis div_mult_mod_eq)
  then have "?D dvd ?w - (?w - off)" by (simp add: mod_eq_dvd_iff)
  with assms(3) show False by simp
qed

definition digit_char :: "char \<Rightarrow> bool" where
  "digit_char c \<longleftrightarrow> 48 \<le> (of_char c :: nat) \<and> (of_char c :: nat) \<le> 57"

theorem time_display_offset_shift_witness:
  "format_time_display (Some demo_offset_time) = ''01-01 00:30'' \<and>
   format_time_display (Some (DateTime (dt_instant demo_offset_time) (Some 0))) = ''12-31 16:30'' \<and>
   format_time_display (Some demo_offset_time) \<noteq> format_time_display (Some (DateTime (dt_instant demo_offset_time) (Some 0)))"
proof -
  have a: "format_time_display (Some demo_offset_time) = ''01-01 00:30''" by code_simp
  have b: "format_time_display (Some (DateTime (dt_instant demo_offset_time) (Some 0))) = ''12-31 16:30''" by code_simp
  have "format_time_display (Some demo_offset_time) \<noteq> format_time_display (Some (DateTime (dt_instant demo_offset_time) (Some 0)))"
  proof (rule time_display_offset_shift)
    show "dt_tz demo_offset_time = Some 28800000" by (simp add: demo_offset_time_def)
    show "(28800000::int) mod 60000 = 0" by code_simp
    show "(28800000::int) mod 86400000 \<noteq> 0" by code_simp
  qed
  with a b show ?thesis by blast
qed

text \<open>
  C35. Paging through a listing loses and repeats nothing: on an initialized cache with a
  published post, the pages 1 to k of get_posts_list with a positive page_size, concatenated,
  are exactly the first k * page_size items of the sorted listing.
\<close>

theorem listing_pages_partition:
  assumes "fm_initialized w" "published_posts w \<noteq> []" "viewer_liked w u = Some liked" "0 < ps"
  shows "concat (map (\<lambda>i. pp_posts (fst (get_posts_list now u st (int i) ps w))) [1..<Suc k]) =
         map (post_item liked)
           (take (k * nat ps) (if st = ''hot'' then py_sort_desc hot_key (published_posts w) else py_sort_desc time_key (published_posts w)))"
proof -
  let ?xs = "if st = ''hot'' then py_sort_desc hot_key (published_posts w) else py_sort_desc time_key (published_posts w)"
  have pb: "page_bounds (1 + int i) ps = (int i * ps, int i * ps + ps)" for i
    using assms(4) by (simp add: page_bounds_def Let_def)
  have pg: "pp_posts (fst (get_posts_list now u st (int (Suc i)) ps w)) =
            map (post_item liked) (py_slice ?xs (int i * ps) (int i * ps + ps))" for i
    by (simp add: get_posts_list_ready [OF assms(1-3)] pb)
  have "[1..<Suc k] = map Suc [0..<k]" by (simp add: map_Suc_upt)
  then have "map (\<lambda>i. pp_posts (fst (get_posts_list now u st (int i) ps w))) [1..<Suc k] =
             map (\<lambda>i. pp_posts (fst (get_posts_list now u st (int (Suc i)) ps w))) [0..<k]"
    by (simp only: map_map comp_def)
  also have "\<dots> = map (\<lambda>i. map (post_item liked) (py_slice ?xs (int i * ps) (int i * ps + ps))) [0..<k]"
    by (simp only: pg)
  finally have "map (\<lambda>i. pp_posts (fst (get_posts_list now u st (int i) ps w))) [1..<Suc k] =
             map (\<lambda>i. map (post_item liked) (py_slice ?xs (int i * ps) (int i * ps + ps))) [0..<k]" .
  then have "concat (map (\<lambda>i. pp_posts (fst (get_posts_list now u st (int i) ps w))) [1..<Suc k]) =
             concat (map (map (post_item liked)) (map (\<lambda>i. py_slice ?xs (int i * ps) (int i * ps + ps)) [0..<k]))"
    by (simp only: map_map comp_def)
  also have "\<dots> = map (post_item liked) (concat (map (\<lambda>i. py_slice ?xs (int i * ps) (int i * ps + ps)) [0..<k]))"
    by (simp only: map_concat)
  also have "\<dots> = map (post_item liked) (take (k * nat ps) ?xs)"
    by (simp only: py_slice_pages [OF assms(4)])
  finally show ?thesis .
qed

theorem listing_pages_partition_witness:
  "map pi_post_id (concat (map (\<lambda>i. pp_posts (fst (get_posts_list 5 ''u2'' ''latest'' (int i) 2 demo_three))) [1..<Suc 2])) = [3, 2, 1] \<and>
   concat (map (\<lambda>i. pp_posts (fst (get_posts_list 5 ''u2'' ''latest'' (int i) 2 demo_three))) [1..<Suc 2]) =
   map (post_item [1]) (take (2 * nat 2) (py_sort_desc time_key (published_posts demo_three)))"
proof -
  have i: "fm_initialized demo_three" by code_simp
  have "length (published_posts demo_three) = 3" by code_simp
  then have p: "published_posts demo_three \<noteq> []" by auto
  have v: "viewer_liked demo_three ''u2'' = Some [1]" by code_simp
  have ids: "map pi_post_id (concat (map (\<lambda>i. pp_posts (fst (get_posts_list 5 ''u2'' ''latest'' (int i) 2 demo_three))) [1..<Suc 2])) = [3, 2, 1]"
    by code_simp
  from listing_pages_partition [OF i p v, of 2 5 "''latest''" 2] ids show ?thesis by simp
qed




end
